theory Spec2Isabelle
  imports Complex_Main "HOL-Library.AList" "HOL-Library.Log_Nat"
begin

section \<open>MetricBuffer\<close>

text \<open>
  \<^verbatim>\<open>class MetricBuffer\<close> wraps a \<^verbatim>\<open>collections.deque(maxlen=max_size)\<close>.
  The deque is a list, oldest entry first, together with its bound. The lock of the
  class serialises the three methods; each method is modelled as one atomic step.
\<close>

record 'a MetricBuffer =
  buffer :: "'a list"
  maxlen :: nat

text \<open>\<^verbatim>\<open>MetricBuffer.__init__(self, max_size=100)\<close>: an empty deque with the given bound.\<close>

definition MetricBuffer_init :: "nat \<Rightarrow> 'a MetricBuffer" where
  "MetricBuffer_init max_size = \<lparr>buffer = [], maxlen = max_size\<rparr>"

definition default_max_size :: nat where
  "default_max_size = 100"

text \<open>
  \<^verbatim>\<open>deque.append\<close> on a bounded deque: the item is appended on the right, and when the
  deque then holds more than \<^verbatim>\<open>maxlen\<close> items one item is discarded from the left.
\<close>

definition deque_append :: "'a MetricBuffer \<Rightarrow> 'a \<Rightarrow> 'a MetricBuffer" where
  "deque_append b x =
     (let ys = buffer b @ [x]
      in if length ys > maxlen b then b\<lparr>buffer := tl ys\<rparr> else b\<lparr>buffer := ys\<rparr>)"

text \<open>\<^verbatim>\<open>MetricBuffer.add\<close>: \<^verbatim>\<open>self.buffer.append(metrics)\<close>.\<close>

definition add :: "'a MetricBuffer \<Rightarrow> 'a \<Rightarrow> 'a MetricBuffer" where
  "add b metrics = deque_append b metrics"

text \<open>
  \<^verbatim>\<open>MetricBuffer.get_all\<close>: \<^verbatim>\<open>metrics = list(self.buffer); self.buffer.clear(); return metrics\<close>.
  The result is the returned list and the buffer afterwards.
\<close>

definition get_all :: "'a MetricBuffer \<Rightarrow> 'a list \<times> 'a MetricBuffer" where
  "get_all b = (buffer b, b\<lparr>buffer := []\<rparr>)"

text \<open>\<^verbatim>\<open>MetricBuffer.size\<close>: \<^verbatim>\<open>len(self.buffer)\<close>.\<close>

definition size_buf :: "'a MetricBuffer \<Rightarrow> nat" where
  "size_buf b = length (buffer b)"

text \<open>A sequence of calls on one buffer, for statements about every sequence of operations.\<close>

datatype 'a buffer_op = Add 'a | GetAll | Size

fun run_op :: "'a MetricBuffer \<Rightarrow> 'a buffer_op \<Rightarrow> 'a MetricBuffer" where
  "run_op b (Add x) = add b x"
| "run_op b GetAll = snd (get_all b)"
| "run_op b Size = b"

definition run_ops :: "'a MetricBuffer \<Rightarrow> 'a buffer_op list \<Rightarrow> 'a MetricBuffer" where
  "run_ops b ops = foldl run_op b ops"

section \<open>Rate-bearing collectors\<close>

text \<open>
  \<^verbatim>\<open>DiskIOCollector\<close> and \<^verbatim>\<open>NetworkCollector\<close> keep the previous raw counters and the time
  they were read, and derive rates from two successive readings. Counters are Python
  integers. Times (\<^verbatim>\<open>time.time()\<close>) and rates are Python floats, that is binary64 numbers.
\<close>

subsection \<open>Python floats\<close>

text \<open>
  A float is a rational number that binary64 represents, or an infinity. The two zeros
  of binary64 are one value here (they are equal in Python), and there is no NaN: none
  arises from the operations below on finite readings of the clock. A reading of the
  clock is a rational; the readings the code can receive are those binary64 represents.
\<close>

datatype pyfloat = Finite rat | PInf | NInf

datatype error = ZeroDivisionError | OverflowError

text \<open>\<^verbatim>\<open>int(x)\<close> on a finite float: the fractional part is discarded (truncation towards zero).\<close>

definition py_int :: "rat \<Rightarrow> int" where
  "py_int x = (if x < 0 then - \<lfloor>- x\<rfloor> else \<lfloor>x\<rfloor>)"

text \<open>The nearest integer, a tie going to the even one.\<close>

definition round_half_even :: "rat \<Rightarrow> int" where
  "round_half_even x =
     (let f = \<lfloor>x\<rfloor>; d = x - of_int f
      in if d < 1 / 2 then f
         else if 1 / 2 < d then f + 1
         else if even f then f else f + 1)"

text \<open>The integer \<open>k\<close> with \<open>2\<^sup>k \<le> x < 2\<^sup>k\<^sup>+\<^sup>1\<close>, for a positive \<open>x\<close>.\<close>

definition floor_log2 :: "rat \<Rightarrow> int" where
  "floor_log2 x = (if 1 \<le> x then bitlen \<lfloor>x\<rfloor> - 1 else - bitlen (\<lceil>1 / x\<rceil> - 1))"

text \<open>
  Rounding to binary64, as every float operation does with its exact result: to the
  nearest number with a significand of 53 bits, a tie going to the even significand;
  below \<open>2\<^sup>-\<^sup>1\<^sup>0\<^sup>2\<^sup>2\<close> the numbers are the multiples of \<open>2\<^sup>-\<^sup>1\<^sup>0\<^sup>7\<^sup>4\<close>; a result that rounds
  to \<open>2\<^sup>1\<^sup>0\<^sup>2\<^sup>4\<close> or beyond is an infinity.
\<close>

definition binary64 :: "rat \<Rightarrow> pyfloat" where
  "binary64 x =
     (if x = 0 then Finite 0
      else
        (let e = max (floor_log2 \<bar>x\<bar> - 52) (- 1074);
             m = round_half_even (\<bar>x\<bar> / 2 powi e);
             y = of_int m * 2 powi e
         in if 2 ^ 1024 \<le> y then (if 0 < x then PInf else NInf)
            else Finite (if 0 < x then y else - y)))"

text \<open>\<^verbatim>\<open>current_time - self.last_time\<close>, a difference of two floats.\<close>

definition float_sub :: "rat \<Rightarrow> rat \<Rightarrow> pyfloat" where
  "float_sub x y = binary64 (x - y)"

text \<open>
  The conversion of an integer operand to a float:
  \<^verbatim>\<open>OverflowError: int too large to convert to float\<close> when it does not fit.
\<close>

definition float_of_int :: "int \<Rightarrow> error + rat" where
  "float_of_int n =
     (case binary64 (of_int n) of
        Finite a \<Rightarrow> Inr a
      | PInf \<Rightarrow> Inl OverflowError
      | NInf \<Rightarrow> Inl OverflowError)"

text \<open>
  \<^verbatim>\<open>x / time_delta\<close> with an integer \<open>x\<close> and a float divisor: the integer is converted,
  a zero divisor raises \<^verbatim>\<open>ZeroDivisionError\<close>, and the quotient is rounded; it may be an
  infinity, and is zero when the divisor is one.
\<close>

definition py_div :: "int \<Rightarrow> pyfloat \<Rightarrow> error + pyfloat" where
  "py_div x time_delta =
     (case float_of_int x of
        Inl e \<Rightarrow> Inl e
      | Inr a \<Rightarrow>
          (case time_delta of
             Finite b \<Rightarrow> if b = 0 then Inl ZeroDivisionError else Inr (binary64 (a / b))
           | PInf \<Rightarrow> Inr (Finite 0)
           | NInf \<Rightarrow> Inr (Finite 0)))"

text \<open>
  \<^verbatim>\<open>int(x)\<close> on a float:
  \<^verbatim>\<open>OverflowError: cannot convert float infinity to integer\<close> on an infinity.
\<close>

definition int_of_float :: "pyfloat \<Rightarrow> error + int" where
  "int_of_float x =
     (case x of
        Finite r \<Rightarrow> Inr (py_int r)
      | PInf \<Rightarrow> Inl OverflowError
      | NInf \<Rightarrow> Inl OverflowError)"

text \<open>
  \<^verbatim>\<open>round(x, 2)\<close> on a float: the value of the float is rounded to the nearest multiple
  of 1/100, a tie going to the even multiple, and that decimal number is converted back
  to the nearest float. An infinity is returned as it is.
\<close>

definition py_round2 :: "pyfloat \<Rightarrow> pyfloat" where
  "py_round2 x =
     (case x of
        Finite r \<Rightarrow> binary64 (of_int (round_half_even (r * 100)) / 100)
      | PInf \<Rightarrow> PInf
      | NInf \<Rightarrow> NInf)"

subsection \<open>The state of a collector\<close>

text \<open>\<^verbatim>\<open>s.startswith(p)\<close>.\<close>

definition startswith :: "string \<Rightarrow> string \<Rightarrow> bool" where
  "startswith s p = (take (length p) s = p)"

text \<open>
  The state of a collector: \<^verbatim>\<open>self.last_counters\<close> and \<^verbatim>\<open>self.last_time\<close>, both
  \<^verbatim>\<open>None\<close> after \<^verbatim>\<open>__init__\<close>. A dictionary is an association list in insertion order.
\<close>

record 'c rate_collector =
  last_counters :: "(string \<times> 'c) list option"
  last_time :: "rat option"

definition collector_init :: "'c rate_collector" where
  "collector_init = \<lparr>last_counters = None, last_time = None\<rparr>"

text \<open>
  The test \<^verbatim>\<open>if self.last_counters and self.last_time\<close>: both values are taken for
  their truth value, so neither \<^verbatim>\<open>None\<close>, nor an empty dictionary, nor the time
  \<^verbatim>\<open>0.0\<close> counts as previous data. The result is the previous sample when the test
  succeeds.
\<close>

definition previous_sample :: "'c rate_collector \<Rightarrow> ((string \<times> 'c) list \<times> rat) option" where
  "previous_sample self =
     (case last_counters self of
        None \<Rightarrow> None
      | Some lc \<Rightarrow>
          if lc = [] then None
          else (case last_time self of
                  None \<Rightarrow> None
                | Some lt \<Rightarrow> if lt = 0 then None else Some (lc, lt)))"

text \<open>The two assignments that end \<^verbatim>\<open>collect\<close>.\<close>

definition store_sample :: "(string \<times> 'c) list \<Rightarrow> rat \<Rightarrow> 'c rate_collector \<Rightarrow> 'c rate_collector" where
  "store_sample counters current_time self =
     self\<lparr>last_counters := Some counters, last_time := Some current_time\<rparr>"

subsection \<open>DiskIOCollector\<close>

text \<open>The fields of psutil's \<^verbatim>\<open>sdiskio\<close> tuple that the collector reads.\<close>

record sdiskio =
  read_count :: int
  write_count :: int
  read_bytes :: int
  write_bytes :: int

text \<open>The tuple as the list of these values.\<close>

definition sdiskio_values :: "sdiskio \<Rightarrow> int list" where
  "sdiskio_values c = [read_count c, write_count c, read_bytes c, write_bytes c]"

text \<open>One value of \<^verbatim>\<open>io_data\<close>; the last four fields are the raw counters copied through.\<close>

record disk_io_entry =
  read_bytes_per_sec :: int
  write_bytes_per_sec :: int
  read_iops :: pyfloat
  write_iops :: pyfloat
  out_read_count :: int
  out_write_count :: int
  out_read_bytes :: int
  out_write_bytes :: int

text \<open>
  The body of the rate branch for one disk found in both samples: the four divisions,
  then the dictionary with its calls of \<^verbatim>\<open>int\<close> and \<^verbatim>\<open>round\<close>.
\<close>

definition disk_rate_entry :: "sdiskio \<Rightarrow> sdiskio \<Rightarrow> pyfloat \<Rightarrow> error + disk_io_entry" where
  "disk_rate_entry previous current time_delta =
     (case py_div (read_bytes current - read_bytes previous) time_delta of
        Inl e \<Rightarrow> Inl e
      | Inr read_rate \<Rightarrow>
     (case py_div (write_bytes current - write_bytes previous) time_delta of
        Inl e \<Rightarrow> Inl e
      | Inr write_rate \<Rightarrow>
     (case py_div (read_count current - read_count previous) time_delta of
        Inl e \<Rightarrow> Inl e
      | Inr r_iops \<Rightarrow>
     (case py_div (write_count current - write_count previous) time_delta of
        Inl e \<Rightarrow> Inl e
      | Inr w_iops \<Rightarrow>
     (case int_of_float read_rate of
        Inl e \<Rightarrow> Inl e
      | Inr read_int \<Rightarrow>
     (case int_of_float write_rate of
        Inl e \<Rightarrow> Inl e
      | Inr write_int \<Rightarrow>
          Inr \<lparr>read_bytes_per_sec = read_int,
               write_bytes_per_sec = write_int,
               read_iops = py_round2 r_iops,
               write_iops = py_round2 w_iops,
               out_read_count = read_count current,
               out_write_count = write_count current,
               out_read_bytes = read_bytes current,
               out_write_bytes = write_bytes current\<rparr>))))))"

text \<open>
  The body of the first-run branch. All four rates are the integer 0; in the two fields
  that hold a float in the rate branch it is written as the float zero, which is equal
  to it.
\<close>

definition disk_first_entry :: "sdiskio \<Rightarrow> disk_io_entry" where
  "disk_first_entry current =
     \<lparr>read_bytes_per_sec = 0,
      write_bytes_per_sec = 0,
      read_iops = Finite 0,
      write_iops = Finite 0,
      out_read_count = read_count current,
      out_write_count = write_count current,
      out_read_bytes = read_bytes current,
      out_write_bytes = write_bytes current\<rparr>"

text \<open>
  \<^verbatim>\<open>for disk, current in counters.items(): if disk in self.last_counters: ...\<close>
  with \<^verbatim>\<open>io_data\<close> as accumulator. A disk without history has no \<^verbatim>\<open>else\<close> branch.
\<close>

fun disk_rate_loop ::
  "(string \<times> sdiskio) list \<Rightarrow> pyfloat \<Rightarrow> (string \<times> sdiskio) list
     \<Rightarrow> (string \<times> disk_io_entry) list \<Rightarrow> error + (string \<times> disk_io_entry) list" where
  "disk_rate_loop lc time_delta [] io_data = Inr io_data"
| "disk_rate_loop lc time_delta ((disk, current) # rest) io_data =
     (case map_of lc disk of
        None \<Rightarrow> disk_rate_loop lc time_delta rest io_data
      | Some previous \<Rightarrow>
          (case disk_rate_entry previous current time_delta of
             Inl e \<Rightarrow> Inl e
           | Inr entry \<Rightarrow> disk_rate_loop lc time_delta rest (AList.update disk entry io_data)))"

fun disk_first_loop ::
  "(string \<times> sdiskio) list \<Rightarrow> (string \<times> disk_io_entry) list \<Rightarrow> (string \<times> disk_io_entry) list" where
  "disk_first_loop [] io_data = io_data"
| "disk_first_loop ((disk, current) # rest) io_data =
     disk_first_loop rest (AList.update disk (disk_first_entry current) io_data)"

text \<open>
  \<^verbatim>\<open>DiskIOCollector.collect\<close>, given the clock reading and the counters psutil returned.
  The result is the returned dictionary or the exception raised, and the collector
  afterwards. An exception leaves the loop before the final assignments.
\<close>

definition DiskIOCollector_collect ::
  "rat \<Rightarrow> (string \<times> sdiskio) list \<Rightarrow> sdiskio rate_collector
     \<Rightarrow> (error + (string \<times> disk_io_entry) list) \<times> sdiskio rate_collector" where
  "DiskIOCollector_collect current_time counters self =
     (if counters = [] then (Inr [], self)
      else (case previous_sample self of
              Some (lc, lt) \<Rightarrow>
                (let time_delta = float_sub current_time lt
                 in case disk_rate_loop lc time_delta counters [] of
                      Inl e \<Rightarrow> (Inl e, self)
                    | Inr io_data \<Rightarrow> (Inr io_data, store_sample counters current_time self))
            | None \<Rightarrow>
                (Inr (disk_first_loop counters []), store_sample counters current_time self)))"

subsection \<open>NetworkCollector\<close>

text \<open>psutil's \<^verbatim>\<open>snetio\<close> tuple.\<close>

record snetio =
  bytes_sent :: int
  bytes_recv :: int
  packets_sent :: int
  packets_recv :: int
  errin :: int
  errout :: int
  dropin :: int
  dropout :: int

text \<open>The values of the four counters that rates are computed from.\<close>

definition snetio_values :: "snetio \<Rightarrow> int list" where
  "snetio_values c = [bytes_sent c, bytes_recv c, packets_sent c, packets_recv c]"

record network_entry =
  out_bytes_sent :: int
  out_bytes_recv :: int
  out_packets_sent :: int
  out_packets_recv :: int
  bytes_sent_per_sec :: int
  bytes_recv_per_sec :: int
  packets_sent_per_sec :: pyfloat
  packets_recv_per_sec :: pyfloat
  out_errin :: int
  out_errout :: int
  out_dropin :: int
  out_dropout :: int

definition network_rate_entry :: "snetio \<Rightarrow> snetio \<Rightarrow> pyfloat \<Rightarrow> error + network_entry" where
  "network_rate_entry previous current time_delta =
     (case py_div (bytes_sent current - bytes_sent previous) time_delta of
        Inl e \<Rightarrow> Inl e
      | Inr sent_rate \<Rightarrow>
     (case py_div (bytes_recv current - bytes_recv previous) time_delta of
        Inl e \<Rightarrow> Inl e
      | Inr recv_rate \<Rightarrow>
     (case py_div (packets_sent current - packets_sent previous) time_delta of
        Inl e \<Rightarrow> Inl e
      | Inr psent_rate \<Rightarrow>
     (case py_div (packets_recv current - packets_recv previous) time_delta of
        Inl e \<Rightarrow> Inl e
      | Inr precv_rate \<Rightarrow>
     (case int_of_float sent_rate of
        Inl e \<Rightarrow> Inl e
      | Inr sent_int \<Rightarrow>
     (case int_of_float recv_rate of
        Inl e \<Rightarrow> Inl e
      | Inr recv_int \<Rightarrow>
          Inr \<lparr>out_bytes_sent = bytes_sent current,
               out_bytes_recv = bytes_recv current,
               out_packets_sent = packets_sent current,
               out_packets_recv = packets_recv current,
               bytes_sent_per_sec = sent_int,
               bytes_recv_per_sec = recv_int,
               packets_sent_per_sec = py_round2 psent_rate,
               packets_recv_per_sec = py_round2 precv_rate,
               out_errin = errin current,
               out_errout = errout current,
               out_dropin = dropin current,
               out_dropout = dropout current\<rparr>))))))"

definition network_first_entry :: "snetio \<Rightarrow> network_entry" where
  "network_first_entry current =
     \<lparr>out_bytes_sent = bytes_sent current,
      out_bytes_recv = bytes_recv current,
      out_packets_sent = packets_sent current,
      out_packets_recv = packets_recv current,
      bytes_sent_per_sec = 0,
      bytes_recv_per_sec = 0,
      packets_sent_per_sec = Finite 0,
      packets_recv_per_sec = Finite 0,
      out_errin = errin current,
      out_errout = errout current,
      out_dropin = dropin current,
      out_dropout = dropout current\<rparr>"

text \<open>
  The rate loop of \<^verbatim>\<open>NetworkCollector.collect\<close>: an interface whose name starts with
  \<^verbatim>\<open>lo\<close> is skipped by \<^verbatim>\<open>continue\<close> before anything else is done with it.
\<close>

fun network_rate_loop ::
  "(string \<times> snetio) list \<Rightarrow> pyfloat \<Rightarrow> (string \<times> snetio) list
     \<Rightarrow> (string \<times> network_entry) list \<Rightarrow> error + (string \<times> network_entry) list" where
  "network_rate_loop lc time_delta [] network_data = Inr network_data"
| "network_rate_loop lc time_delta ((interface, current) # rest) network_data =
     (if startswith interface ''lo'' then network_rate_loop lc time_delta rest network_data
      else (case map_of lc interface of
              None \<Rightarrow> network_rate_loop lc time_delta rest network_data
            | Some previous \<Rightarrow>
                (case network_rate_entry previous current time_delta of
                   Inl e \<Rightarrow> Inl e
                 | Inr entry \<Rightarrow>
                     network_rate_loop lc time_delta rest
                       (AList.update interface entry network_data))))"

fun network_first_loop ::
  "(string \<times> snetio) list \<Rightarrow> (string \<times> network_entry) list \<Rightarrow> (string \<times> network_entry) list" where
  "network_first_loop [] network_data = network_data"
| "network_first_loop ((interface, current) # rest) network_data =
     (if startswith interface ''lo'' then network_first_loop rest network_data
      else network_first_loop rest
             (AList.update interface (network_first_entry current) network_data))"

text \<open>
  \<^verbatim>\<open>NetworkCollector.collect\<close>. Unlike the disk collector it has no early return on
  empty counters.
\<close>

definition NetworkCollector_collect ::
  "rat \<Rightarrow> (string \<times> snetio) list \<Rightarrow> snetio rate_collector
     \<Rightarrow> (error + (string \<times> network_entry) list) \<times> snetio rate_collector" where
  "NetworkCollector_collect current_time counters self =
     (case previous_sample self of
        Some (lc, lt) \<Rightarrow>
          (let time_delta = float_sub current_time lt
           in case network_rate_loop lc time_delta counters [] of
                Inl e \<Rightarrow> (Inl e, self)
              | Inr network_data \<Rightarrow>
                  (Inr network_data, store_sample counters current_time self))
      | None \<Rightarrow>
          (Inr (network_first_loop counters []), store_sample counters current_time self))"

section \<open>UptimeSquirrelAgent\<close>

text \<open>
  The thresholds in effect, as \<^verbatim>\<open>collect_metrics\<close> puts them in a snapshot under
  \<^verbatim>\<open>'active_thresholds'\<close>.
\<close>

record active_thresholds =
  at_cpu :: rat
  at_memory :: rat
  at_disk :: rat
  at_version :: int
  at_source :: string

text \<open>
  A metric snapshot, the dictionary built by \<^verbatim>\<open>collect_metrics\<close>. The entries written
  by the collectors are kept as one list, each collector's name with either the message
  of the exception it raised or its data.
\<close>

record 'd metrics =
  hostname :: string
  timestamp :: int
  uptime :: int
  agent_version :: string
  active :: active_thresholds
  collected :: "(string \<times> (string + 'd)) list"

text \<open>
  The fields of the agent that the remote configuration and the reporting path use.
  \<^verbatim>\<open>monitoring\<close> is the \<^verbatim>\<open>[monitoring]\<close> section of the local configuration file, its
  values already read as numbers.
\<close>

record 'd agent =
  agent_hostname :: string
  monitoring :: "(string \<times> rat) list"
  last_config_check :: rat
  config_check_interval :: int
  remote_thresholds :: "(string \<times> rat) list"
  threshold_version :: int
  metric_buffer :: "'d metrics MetricBuffer"
  consecutive_failures :: int
  max_consecutive_failures :: int

text \<open>The values \<^verbatim>\<open>UptimeSquirrelAgent.__init__\<close> gives these fields.\<close>

definition agent_init :: "string \<Rightarrow> (string \<times> rat) list \<Rightarrow> 'd agent" where
  "agent_init host local_monitoring =
     \<lparr>agent_hostname = host,
      monitoring = local_monitoring,
      last_config_check = 0,
      config_check_interval = 300,
      remote_thresholds = [],
      threshold_version = 0,
      metric_buffer = MetricBuffer_init default_max_size,
      consecutive_failures = 0,
      max_consecutive_failures = 5\<rparr>"

subsection \<open>Remote configuration\<close>

text \<open>
  The body of a \<^verbatim>\<open>GET /agent/config\<close> response after \<^verbatim>\<open>response.json()\<close>: each of the
  three keys may be absent.
\<close>

record remote_config =
  json_threshold_version :: "int option"
  json_thresholds :: "(string \<times> rat) list option"
  json_check_interval :: "int option"

text \<open>
  What \<^verbatim>\<open>self.session.get\<close> gives: an exception, or a response with its status code and
  its body. The body is \<open>None\<close> when \<^verbatim>\<open>response.json()\<close> raises, or when what it returns is
  not an object with an integer \<^verbatim>\<open>threshold_version\<close> (or none): then \<^verbatim>\<open>config.get\<close> or the
  comparison of the versions raises. In each case the exception is raised before any
  assignment and is caught by the \<^verbatim>\<open>except\<close> clauses.
\<close>

datatype get_result = GetRaises | GetResponse int "remote_config option"

text \<open>\<^verbatim>\<open>config.get(key, default)\<close>.\<close>

definition dict_get :: "'a option \<Rightarrow> 'a \<Rightarrow> 'a" where
  "dict_get field dflt = (case field of None \<Rightarrow> dflt | Some v \<Rightarrow> v)"

text \<open>
  \<^verbatim>\<open>fetch_remote_config\<close>. Both \<^verbatim>\<open>except\<close> clauses only log, and so do the branches
  for status 404 and for any other status.
\<close>

definition fetch_remote_config :: "get_result \<Rightarrow> 'd agent \<Rightarrow> 'd agent" where
  "fetch_remote_config response self =
     (case response of
        GetRaises \<Rightarrow> self
      | GetResponse status_code body \<Rightarrow>
          if status_code = 200 then
            (case body of
               None \<Rightarrow> self
             | Some config \<Rightarrow>
                 (let new_version = dict_get (json_threshold_version config) 0;
                      self1 =
                        (if new_version > threshold_version self
                         then self\<lparr>remote_thresholds := dict_get (json_thresholds config) [],
                                   threshold_version := new_version\<rparr>
                         else self)
                  in self1\<lparr>config_check_interval := dict_get (json_check_interval config) 300\<rparr>))
          else self)"

text \<open>
  \<^verbatim>\<open>get_threshold\<close>: the remote value when the metric is a key of \<^verbatim>\<open>remote_thresholds\<close>,
  else \<^verbatim>\<open>config.getfloat('monitoring', metric_type + '_threshold', fallback=default)\<close>.
  Threshold values are numbers here, so the conversions by \<^verbatim>\<open>float\<close> and \<^verbatim>\<open>getfloat\<close>
  cannot fail.
\<close>

definition get_threshold :: "'d agent \<Rightarrow> string \<Rightarrow> rat \<Rightarrow> rat" where
  "get_threshold self metric_type dflt =
     (case map_of (remote_thresholds self) metric_type of
        Some threshold \<Rightarrow> threshold
      | None \<Rightarrow> dict_get (map_of (monitoring self) (metric_type @ ''_threshold'')) dflt)"

subsection \<open>Building a snapshot\<close>

text \<open>
  \<^verbatim>\<open>collect_metrics\<close>, given the two readings of the clock and the boot time, the
  version string, and what each collector returned or raised (the loop over
  \<^verbatim>\<open>self.collectors\<close> stores the data, or the message of the exception under
  \<^verbatim>\<open>'error'\<close>). \<^verbatim>\<open>'source'\<close> is decided by the truth value of the dictionary
  \<^verbatim>\<open>self.remote_thresholds\<close>.
\<close>

definition collect_metrics ::
  "'d agent \<Rightarrow> rat \<Rightarrow> rat \<Rightarrow> rat \<Rightarrow> string \<Rightarrow> (string \<times> (string + 'd)) list \<Rightarrow> 'd metrics" where
  "collect_metrics self now now' boot_time version results =
     \<lparr>hostname = agent_hostname self,
      timestamp = py_int now,
      uptime = py_int (now' - boot_time),
      agent_version = version,
      active =
        \<lparr>at_cpu = get_threshold self ''cpu'' 80,
         at_memory = get_threshold self ''memory'' 85,
         at_disk = get_threshold self ''disk'' 90,
         at_version = threshold_version self,
         at_source = (if remote_thresholds self \<noteq> [] then ''remote'' else ''local'')\<rparr>,
      collected = results\<rparr>"

subsection \<open>Reporting\<close>

text \<open>
  What one \<^verbatim>\<open>self.session.post\<close> does: it raises a \<^verbatim>\<open>RequestException\<close>, or it returns a
  response with a status code. \<^verbatim>\<open>raise_for_status\<close> raises for the codes 400 to 599.
\<close>

datatype post_outcome = PostRaises | PostStatus int

definition raise_for_status :: "int \<Rightarrow> bool" where
  "raise_for_status status_code = (400 \<le> status_code \<and> status_code < 600)"

text \<open>The first post of \<^verbatim>\<open>report_metrics\<close> leaves the \<^verbatim>\<open>try\<close> block by an exception.\<close>

definition delivery_fails :: "post_outcome \<Rightarrow> bool" where
  "delivery_fails outcome =
     (case outcome of PostRaises \<Rightarrow> True | PostStatus status_code \<Rightarrow> raise_for_status status_code)"

text \<open>The messages logged at level error on the reporting path.\<close>

datatype log_event =
    FailedToSendBuffered
  | FailedToReport int
  | MaxConsecutiveFailures

text \<open>
  What a call of \<^verbatim>\<open>report_metrics\<close> did besides changing the agent: the snapshots it
  posted, in order, and the errors it logged.
\<close>

record 'd report_trace =
  posted :: "'d metrics list"
  errors :: "log_event list"

text \<open>
  \<^verbatim>\<open>for buffered in buffered_metrics: try: self.session.post(...) except Exception: log\<close>.
  The network is a function from the number of the post within this call (the first
  post is number 0) to its outcome. The response of a re-post is not looked at.
\<close>

fun send_buffered ::
  "(nat \<Rightarrow> post_outcome) \<Rightarrow> nat \<Rightarrow> 'd metrics list \<Rightarrow> 'd report_trace \<Rightarrow> 'd report_trace" where
  "send_buffered post i [] trace = trace"
| "send_buffered post i (buffered # rest) trace =
     send_buffered post (Suc i) rest
       (trace\<lparr>posted := posted trace @ [buffered],
              errors := errors trace @
                (case post i of PostRaises \<Rightarrow> [FailedToSendBuffered] | PostStatus _ \<Rightarrow> [])\<rparr>)"

text \<open>\<^verbatim>\<open>report_metrics\<close>.\<close>

definition report_metrics ::
  "(nat \<Rightarrow> post_outcome) \<Rightarrow> 'd metrics \<Rightarrow> 'd agent \<Rightarrow> 'd agent \<times> 'd report_trace" where
  "report_metrics post m self =
     (if delivery_fails (post 0) then
        (let failures = consecutive_failures self + 1;
             self1 = self\<lparr>consecutive_failures := failures\<rparr>
         in if failures < max_consecutive_failures self1
            then (self1\<lparr>metric_buffer := add (metric_buffer self1) m\<rparr>,
                  \<lparr>posted = [m], errors = [FailedToReport failures]\<rparr>)
            else (self1,
                  \<lparr>posted = [m], errors = [FailedToReport failures, MaxConsecutiveFailures]\<rparr>))
      else
        (let self1 = self\<lparr>consecutive_failures := 0\<rparr>
         in if size_buf (metric_buffer self1) > 0
            then (let (buffered_metrics, emptied) = get_all (metric_buffer self1)
                  in (self1\<lparr>metric_buffer := emptied\<rparr>,
                      send_buffered post 1 buffered_metrics \<lparr>posted = [m], errors = []\<rparr>))
            else (self1, \<lparr>posted = [m], errors = []\<rparr>)))"

text \<open>A run of reporting cycles, one snapshot and one network behaviour per cycle.\<close>

fun report_cycles :: "((nat \<Rightarrow> post_outcome) \<times> 'd metrics) list \<Rightarrow> 'd agent \<Rightarrow> 'd agent" where
  "report_cycles [] self = self"
| "report_cycles ((post, m) # rest) self = report_cycles rest (fst (report_metrics post m self))"

section \<open>Properties of the MetricBuffer\<close>

lemma maxlen_add [simp]: "maxlen (add b x) = maxlen b"
  by (simp add: add_def deque_append_def Let_def)

lemma maxlen_run_op [simp]: "maxlen (run_op b op) = maxlen b"
  by (cases op) (simp_all add: get_all_def)

lemma maxlen_run_ops [simp]: "maxlen (run_ops b ops) = maxlen b"
  unfolding run_ops_def by (induction ops arbitrary: b) simp_all

lemma length_add_le:
  "length (buffer b) \<le> maxlen b \<Longrightarrow> length (buffer (add b x)) \<le> maxlen b"
  by (simp add: add_def deque_append_def Let_def)

lemma length_run_op_le:
  "length (buffer b) \<le> maxlen b \<Longrightarrow> length (buffer (run_op b op)) \<le> maxlen b"
  by (cases op) (simp_all add: length_add_le get_all_def)

lemma length_run_ops_le:
  "length (buffer b) \<le> maxlen b \<Longrightarrow> length (buffer (run_ops b ops)) \<le> maxlen b"
  unfolding run_ops_def
proof (induction ops arbitrary: b)
  case Nil
  then show ?case by simp
next
  case (Cons op ops)
  have "length (buffer (run_op b op)) \<le> maxlen (run_op b op)"
    using Cons.prems by (simp add: length_run_op_le)
  from Cons.IH [OF this] show ?case by simp
qed

lemma add_at_capacity:
  "length (buffer b) = maxlen b \<Longrightarrow> maxlen b > 0 \<Longrightarrow>
     buffer (add b x) = tl (buffer b) @ [x]"
  by (cases "buffer b") (simp_all add: add_def deque_append_def Let_def)

lemma add_below_capacity:
  "length (buffer b) < maxlen b \<Longrightarrow> buffer (add b x) = buffer b @ [x]"
  by (simp add: add_def deque_append_def Let_def)

lemma buffer_foldl_add:
  "length (buffer b) \<le> maxlen b \<Longrightarrow>
     buffer (foldl add b xs) = drop (length (buffer b @ xs) - maxlen b) (buffer b @ xs)"
proof (induction xs arbitrary: b)
  case Nil
  then show ?case by simp
next
  case (Cons x xs)
  let ?b = "add b x"
  have le: "length (buffer ?b) \<le> maxlen ?b"
    using Cons.prems by (simp add: length_add_le)
  have step: "buffer ?b = drop (length (buffer b @ [x]) - maxlen b) (buffer b @ [x])"
  proof (cases "length (buffer b) < maxlen b")
    case True
    then show ?thesis by (simp add: add_below_capacity)
  next
    case False
    with Cons.prems have eq: "length (buffer b) = maxlen b" by simp
    show ?thesis
    proof (cases "buffer b")
      case Nil
      with eq show ?thesis by (simp add: add_def deque_append_def Let_def)
    next
      case (Cons y ys)
      with eq show ?thesis by (simp add: add_def deque_append_def Let_def)
    qed
  qed
  have "buffer (foldl add b (x # xs)) = buffer (foldl add ?b xs)" by simp
  also have "\<dots> = drop (length (buffer ?b @ xs) - maxlen b) (buffer ?b @ xs)"
    using Cons.IH [OF le] by simp
  also have "\<dots> = drop (length (buffer b @ x # xs) - maxlen b) (buffer b @ x # xs)"
  proof -
    let ?k = "length (buffer b @ [x]) - maxlen b"
    have k: "?k \<le> length (buffer b @ [x])" by simp
    have len: "length (buffer ?b) = length (buffer b @ [x]) - ?k"
      by (simp add: step)
    have "drop (length (buffer ?b @ xs) - maxlen b) (buffer ?b @ xs)
        = drop (length (buffer ?b @ xs) - maxlen b) (drop ?k (buffer b @ [x]) @ xs)"
      by (simp only: step)
    also have "\<dots> = drop (length (buffer ?b @ xs) - maxlen b) (drop ?k ((buffer b @ [x]) @ xs))"
      using k by (simp del: append_assoc)
    also have "\<dots> = drop (length (buffer ?b @ xs) - maxlen b + ?k) ((buffer b @ [x]) @ xs)"
      by (simp only: drop_drop)
    also have "length (buffer ?b @ xs) - maxlen b + ?k = length (buffer b @ x # xs) - maxlen b"
      using Cons.prems len by auto
    finally show ?thesis by simp
  qed
  finally show ?case .
qed

lemma run_ops_map_Add: "run_ops b (map Add xs) = foldl add b xs"
  unfolding run_ops_def by (induction xs arbitrary: b) simp_all

text \<open>
  Claim C6. The buffer created by \<^verbatim>\<open>MetricBuffer()\<close> (bound 100) is a bounded queue,
  first in first out: after any sequence of \<^verbatim>\<open>add\<close>, \<^verbatim>\<open>get_all\<close> and \<^verbatim>\<open>size\<close> calls it
  holds at most 100 entries; \<^verbatim>\<open>add\<close> on a buffer that holds 100 entries keeps 100 entries,
  dropping the oldest one and appending the new one; \<^verbatim>\<open>get_all\<close> returns the held
  entries, oldest first, and leaves the buffer empty (after adding the entries \<open>xs\<close> to a
  new buffer it returns the last 100 of them in the order they were added); \<^verbatim>\<open>size\<close>
  returns the number of entries held.
\<close>

theorem metric_buffer_bounded_fifo:
  fixes ops :: "'a buffer_op list" and x :: 'a and xs :: "'a list"
  defines "b \<equiv> run_ops (MetricBuffer_init default_max_size) ops"
  shows "size_buf b \<le> 100
       \<and> (size_buf b = 100 \<longrightarrow>
            buffer (add b x) = tl (buffer b) @ [x] \<and> size_buf (add b x) = 100)
       \<and> fst (get_all b) = buffer b
       \<and> size_buf (snd (get_all b)) = 0
       \<and> size_buf b = length (buffer b)
       \<and> fst (get_all (foldl add (MetricBuffer_init default_max_size) xs))
            = drop (length xs - 100) xs"
proof -
  let ?i = "MetricBuffer_init default_max_size :: 'a MetricBuffer"
  have init: "length (buffer ?i) \<le> maxlen ?i"
    by (simp add: MetricBuffer_init_def)
  have m: "maxlen b = 100"
    by (simp add: b_def MetricBuffer_init_def default_max_size_def)
  have le: "length (buffer b) \<le> maxlen b"
    unfolding b_def using length_run_ops_le [OF init, of ops] by simp
  have full: "buffer (add b x) = tl (buffer b) @ [x] \<and> size_buf (add b x) = 100"
    if "size_buf b = 100"
  proof -
    from that have eq: "length (buffer b) = maxlen b" by (simp add: size_buf_def m)
    have "buffer (add b x) = tl (buffer b) @ [x]"
      using add_at_capacity [OF eq] m by simp
    with that show ?thesis by (simp add: size_buf_def)
  qed
  have drain: "fst (get_all (foldl add ?i xs)) = drop (length xs - 100) xs"
    using buffer_foldl_add [OF init, of xs]
    by (simp add: get_all_def MetricBuffer_init_def default_max_size_def)
  show ?thesis
    using le m full drain by (simp add: size_buf_def get_all_def)
qed

theorem metric_buffer_bounded_fifo_witness:
  "size_buf (run_ops (MetricBuffer_init default_max_size) (map Add [0..<100])) = 100
   \<and> buffer (add (run_ops (MetricBuffer_init default_max_size) (map Add [0..<100])) 100)
       = [1..<101]"
proof -
  let ?b = "run_ops (MetricBuffer_init default_max_size) (map Add [0..<100])"
  have b: "buffer ?b = [0..<100]"
    using buffer_foldl_add [of "MetricBuffer_init default_max_size" "[0..<100]"]
    by (simp add: run_ops_map_Add MetricBuffer_init_def default_max_size_def)
  have s: "size_buf ?b = 100" by (simp add: size_buf_def b)
  have "buffer (add ?b 100) = tl (buffer ?b) @ [100]"
    using metric_buffer_bounded_fifo [of "map Add [0..<100]" 100] s by blast
  also have "\<dots> = [1..<101]"
    unfolding b by code_simp
  finally show ?thesis using s by simp
qed

section \<open>Properties of the rate-bearing collectors\<close>

subsection \<open>Rounding\<close>

lemma py_int_truncates:
  "\<bar>of_int (py_int x) - x\<bar> < 1 \<and> \<bar>of_int (py_int x) :: rat\<bar> \<le> \<bar>x\<bar>"
proof (cases "x < 0")
  case True
  define n where "n = \<lfloor>- x\<rfloor>"
  have 1: "of_int n \<le> - x" and 2: "- x < of_int n + 1"
    unfolding n_def by linarith+
  have "0 \<le> n" unfolding n_def using True by simp
  then have 3: "(0::rat) \<le> of_int n" by simp
  have "py_int x = - n" using True by (simp add: py_int_def n_def)
  then have 4: "(of_int (py_int x) :: rat) = - of_int n" by simp
  from True 1 2 3 show ?thesis unfolding 4 by linarith
next
  case False
  define n where "n = \<lfloor>x\<rfloor>"
  have 1: "of_int n \<le> x" and 2: "x < of_int n + 1"
    unfolding n_def by linarith+
  have "0 \<le> n" unfolding n_def using False by simp
  then have 3: "(0::rat) \<le> of_int n" by simp
  have 4: "py_int x = n" using False by (simp add: py_int_def n_def)
  from False 1 2 3 show ?thesis unfolding 4 by linarith
qed

lemma of_int_le_pow2: "(a::int) \<le> 2 ^ k \<Longrightarrow> (of_int a :: rat) \<le> 2 ^ k"
  by simp

lemma pow2_le_of_int: "2 ^ k \<le> (a::int) \<Longrightarrow> (2::rat) ^ k \<le> of_int a"
  by simp

lemma floor_log2_bounds:
  assumes "0 < x"
  shows "2 powi (floor_log2 x) \<le> x" and "x < 2 powi (floor_log2 x + 1)"
proof -
  have "2 powi (floor_log2 x) \<le> x \<and> x < 2 powi (floor_log2 x + 1)"
  proof (cases "1 \<le> x")
    case True
    define n where "n = \<lfloor>x\<rfloor>"
    define b where "b = bitlen n"
    from True have n1: "1 \<le> n" unfolding n_def by simp
    then have n0: "0 < n" by simp
    from bitlen_bounds [OF n0] have lo: "2 ^ nat (b - 1) \<le> n" and hi: "n < 2 ^ nat b"
      unfolding b_def by simp_all
    have b1: "1 \<le> b"
    proof (rule ccontr)
      assume "\<not> 1 \<le> b"
      with bitlen_nonneg [of n] have "b = 0" unfolding b_def by simp
      with hi n1 show False by simp
    qed
    have f: "floor_log2 x = b - 1" using True by (simp add: floor_log2_def n_def b_def)
    have nx: "of_int n \<le> x" and xn: "x < of_int n + 1" unfolding n_def by linarith+
    have "(2::rat) powi (b - 1) = 2 ^ nat (b - 1)"
      using b1 by (simp add: power_int_def)
    also have "\<dots> \<le> of_int n" using lo by (rule pow2_le_of_int)
    finally have "(2::rat) powi (b - 1) \<le> of_int n" .
    with nx have 1: "(2::rat) powi (b - 1) \<le> x" by linarith
    from hi have "n + 1 \<le> 2 ^ nat b" by simp
    then have "(of_int (n + 1) :: rat) \<le> 2 ^ nat b" by (rule of_int_le_pow2)
    then have "of_int n + 1 \<le> (2::rat) ^ nat b" by (simp only: of_int_add of_int_1)
    also have "\<dots> = 2 powi b" using b1 by (simp add: power_int_def)
    finally have "of_int n + 1 \<le> (2::rat) powi b" .
    with xn have 2: "x < 2 powi b" by linarith
    from 1 2 show ?thesis by (simp add: f)
  next
    case False
    define y where "y = 1 / x"
    define c where "c = \<lceil>y\<rceil>"
    define b where "b = bitlen (c - 1)"
    from False assms have y1: "1 < y" unfolding y_def by simp
    then have c2: "2 \<le> c" unfolding c_def by linarith
    then have c0: "0 < c - 1" by simp
    from bitlen_bounds [OF c0] have lo: "2 ^ nat (b - 1) \<le> c - 1" and hi: "c - 1 < 2 ^ nat b"
      unfolding b_def by simp_all
    have b0: "0 \<le> b" unfolding b_def by (rule bitlen_nonneg)
    have b1: "1 \<le> b"
    proof (rule ccontr)
      assume "\<not> 1 \<le> b"
      with b0 have "b = 0" by simp
      with hi c2 show False by simp
    qed
    have f: "floor_log2 x = - b" using False by (simp add: floor_log2_def y_def c_def b_def)
    have yc: "y \<le> of_int c" and cy: "of_int c - 1 < y" unfolding c_def by linarith+
    from hi have "c \<le> 2 ^ nat b" by simp
    then have "(of_int c :: rat) \<le> 2 ^ nat b" by (rule of_int_le_pow2)
    with yc have "y \<le> 2 ^ nat b" by (rule order_trans)
    then have "1 / x \<le> 2 ^ nat b" by (simp add: y_def)
    then have "1 \<le> 2 ^ nat b * x" using assms by (simp add: field_simps)
    then have "1 / 2 ^ nat b \<le> x" by (simp add: field_simps)
    moreover have "(2::rat) powi (- b) = 1 / 2 ^ nat b"
      using b0 by (simp add: power_int_def field_simps)
    ultimately have 1: "(2::rat) powi (- b) \<le> x" by simp
    from lo have "(2::rat) ^ nat (b - 1) \<le> of_int (c - 1)" by (rule pow2_le_of_int)
    then have "(2::rat) ^ nat (b - 1) \<le> of_int c - 1" by (simp only: of_int_diff of_int_1)
    with cy have "(2::rat) ^ nat (b - 1) < y" by linarith
    then have "(2::rat) ^ nat (b - 1) < 1 / x" by (simp only: y_def)
    then have "2 ^ nat (b - 1) * x < 1" using assms by (simp add: field_simps)
    then have "x < 1 / 2 ^ nat (b - 1)" by (simp add: field_simps)
    moreover have "(2::rat) powi (- b + 1) = 1 / 2 ^ nat (b - 1)"
    proof -
      have "- b + 1 = - (b - 1)" by simp
      then have "(2::rat) powi (- b + 1) = inverse (2 powi (b - 1))"
        by (simp only: power_int_minus)
      also have "\<dots> = 1 / 2 ^ nat (b - 1)" using b1 by (simp add: power_int_def field_simps)
      finally show ?thesis .
    qed
    ultimately have 2: "x < 2 powi (- b + 1)" by simp
    from 1 2 show ?thesis by (simp add: f)
  qed
  then show "2 powi (floor_log2 x) \<le> x" and "x < 2 powi (floor_log2 x + 1)" by simp_all
qed

lemma round_half_even_near: "\<bar>of_int (round_half_even y) - y\<bar> \<le> 1 / 2"
proof -
  define f where "f = \<lfloor>y\<rfloor>"
  have 1: "of_int f \<le> y" and 2: "y < of_int f + 1"
    unfolding f_def by linarith+
  consider "y - of_int f < 1 / 2" | "1 / 2 < y - of_int f" | "y - of_int f = 1 / 2"
    by linarith
  then show ?thesis
  proof cases
    case 1
    then have r: "round_half_even y = f"
      by (simp add: round_half_even_def Let_def f_def)
    from 1 \<open>of_int f \<le> y\<close> show ?thesis unfolding r by linarith
  next
    case 2
    then have "round_half_even y = f + 1"
      by (simp add: round_half_even_def Let_def f_def)
    then have r: "(of_int (round_half_even y) :: rat) = of_int f + 1" by simp
    from 2 \<open>y < of_int f + 1\<close> show ?thesis unfolding r by linarith
  next
    case 3
    then have "round_half_even y = f \<or> round_half_even y = f + 1"
      by (simp add: round_half_even_def Let_def f_def)
    then have "(of_int (round_half_even y) :: rat) = of_int f
             \<or> (of_int (round_half_even y) :: rat) = of_int f + 1"
      by auto
    with 3 show ?thesis by (elim disjE) linarith+
  qed
qed

lemma round_half_even_le: "x \<le> of_int n \<Longrightarrow> round_half_even x \<le> n"
proof -
  assume a: "x \<le> of_int n"
  have "(of_int (round_half_even x) :: rat) \<le> x + 1 / 2"
    using round_half_even_near [of x] by linarith
  with a have "(of_int (round_half_even x) :: rat) < of_int n + 1" by linarith
  then have "(of_int (round_half_even x) :: rat) < of_int (n + 1)" by simp
  then have "round_half_even x < n + 1" by (simp only: of_int_less_iff)
  then show ?thesis by simp
qed

lemma round_half_even_ge: "of_int n \<le> x \<Longrightarrow> n \<le> round_half_even x"
proof -
  assume a: "of_int n \<le> x"
  have "x - 1 / 2 \<le> (of_int (round_half_even x) :: rat)"
    using round_half_even_near [of x] by linarith
  with a have "(of_int n :: rat) - 1 < of_int (round_half_even x)" by linarith
  then have "(of_int (n - 1) :: rat) < of_int (round_half_even x)" by simp
  then have "n - 1 < round_half_even x" by (simp only: of_int_less_iff)
  then show ?thesis by simp
qed

lemma pow2_less_imp: "(2::rat) powi k < 2 powi l \<Longrightarrow> k < l"
  using power_int_increasing [of l k "2::rat"] by (cases "k < l") auto

lemma pow2_split: "(2::rat) powi k = 2 powi (k - e) * 2 powi e"
  using power_int_add [of "2::rat" "k - e" e] by simp

lemma pow2_nat: "0 \<le> k \<Longrightarrow> (2::rat) powi k = of_int (2 ^ nat k)"
  by (simp add: power_int_def)

text \<open>The pieces of \<open>binary64\<close> at a non-zero argument.\<close>

lemma binary64_nonzero:
  assumes "x \<noteq> 0"
  defines "e \<equiv> max (floor_log2 \<bar>x\<bar> - 52) (- 1074)"
  defines "m \<equiv> round_half_even (\<bar>x\<bar> / 2 powi e)"
  shows "binary64 x =
           (if 2 ^ 1024 \<le> of_int m * (2::rat) powi e then (if 0 < x then PInf else NInf)
            else Finite (if 0 < x then of_int m * 2 powi e else - (of_int m * 2 powi e)))"
    and "0 \<le> m"
    and "\<bar>of_int m * 2 powi e - \<bar>x\<bar>\<bar> \<le> 2 powi e / 2"
proof -
  have p: "(0::rat) < 2 powi e" by simp
  show "binary64 x =
           (if 2 ^ 1024 \<le> of_int m * (2::rat) powi e then (if 0 < x then PInf else NInf)
            else Finite (if 0 < x then of_int m * 2 powi e else - (of_int m * 2 powi e)))"
    using assms(1) by (simp add: binary64_def Let_def e_def m_def)
  have "(of_int 0 :: rat) \<le> \<bar>x\<bar> / 2 powi e" using p by simp
  then show "0 \<le> m" unfolding m_def by (rule round_half_even_ge)
  have "\<bar>of_int m - \<bar>x\<bar> / 2 powi e\<bar> \<le> 1 / 2"
    unfolding m_def by (rule round_half_even_near)
  then have "\<bar>of_int m - \<bar>x\<bar> / 2 powi e\<bar> * 2 powi e \<le> 1 / 2 * 2 powi e"
    using p by (simp only: mult_le_cancel_right_pos)
  moreover have "\<bar>of_int m - \<bar>x\<bar> / 2 powi e\<bar> * 2 powi e
                   = \<bar>(of_int m - \<bar>x\<bar> / 2 powi e) * 2 powi e\<bar>"
    using p by (simp add: abs_mult)
  moreover have "(of_int m - \<bar>x\<bar> / 2 powi e) * 2 powi e = of_int m * 2 powi e - \<bar>x\<bar>"
    using p by (simp add: field_simps)
  ultimately show "\<bar>of_int m * 2 powi e - \<bar>x\<bar>\<bar> \<le> 2 powi e / 2" by simp
qed

lemma round_half_even_of_int: "round_half_even (of_int n) = n"
  using round_half_even_le [of "of_int n" n] round_half_even_ge [of n "of_int n"] by simp

text \<open>
  A number with a significand of at most 53 bits and an exponent in the range of the
  format is a float, and rounding leaves it as it is.
\<close>

lemma binary64_representable:
  assumes m: "\<bar>m\<bar> < 2 ^ 53" and e: "- 1074 \<le> e" "e \<le> 971"
  shows "binary64 (of_int m * 2 powi e) = Finite (of_int m * 2 powi e)"
proof (cases "m = 0")
  case True
  then show ?thesis by (simp add: binary64_def)
next
  case False
  define x :: rat where "x = of_int m * 2 powi e"
  have x0: "x \<noteq> 0" using False by (simp add: x_def)
  have ax: "\<bar>x\<bar> = of_int \<bar>m\<bar> * 2 powi e" by (simp add: x_def abs_mult)
  from m have "\<bar>m\<bar> \<le> 2 ^ 53" by simp
  then have "(of_int \<bar>m\<bar> :: rat) \<le> 2 ^ 53" by (rule of_int_le_pow2)
  moreover have "(of_int \<bar>m\<bar> :: rat) \<noteq> 2 ^ 53"
  proof
    assume "(of_int \<bar>m\<bar> :: rat) = 2 ^ 53"
    then have "(of_int \<bar>m\<bar> :: rat) = of_int (2 ^ 53)" by simp
    then have "\<bar>m\<bar> = 2 ^ 53" by (simp only: of_int_eq_iff)
    with m show False by simp
  qed
  ultimately have ml: "(of_int \<bar>m\<bar> :: rat) < 2 ^ 53" by linarith
  have "\<bar>x\<bar> < 2 ^ 53 * 2 powi e"
    unfolding ax using ml by (simp add: mult_strict_right_mono)
  also have "\<dots> = 2 powi (53 + e)" by (simp add: power_int_add)
  finally have lt: "\<bar>x\<bar> < 2 powi (53 + e)" .
  have "2 powi (floor_log2 \<bar>x\<bar>) \<le> \<bar>x\<bar>"
    using x0 by (intro floor_log2_bounds) simp
  with lt have "(2::rat) powi (floor_log2 \<bar>x\<bar>) < 2 powi (53 + e)" by linarith
  then have fl: "floor_log2 \<bar>x\<bar> < 53 + e" by (rule pow2_less_imp)
  define e' where "e' = max (floor_log2 \<bar>x\<bar> - 52) (- 1074)"
  have le: "e' \<le> e" using fl e(1) by (simp add: e'_def)
  define k where "k = nat (e - e')"
  have "(2::rat) powi e = 2 powi (e - e') * 2 powi e'" by (rule pow2_split)
  also have "(2::rat) powi (e - e') = of_int (2 ^ k)"
    unfolding k_def using le by (intro pow2_nat) simp
  finally have s: "(2::rat) powi e = of_int (2 ^ k) * 2 powi e'" .
  have q: "\<bar>x\<bar> / 2 powi e' = of_int (\<bar>m\<bar> * 2 ^ k)" by (simp add: ax s)
  have r: "round_half_even (\<bar>x\<bar> / 2 powi e') = \<bar>m\<bar> * 2 ^ k"
    unfolding q by (rule round_half_even_of_int)
  have y: "of_int (\<bar>m\<bar> * 2 ^ k) * 2 powi e' = \<bar>x\<bar>"
    unfolding ax s by simp
  have "(2::rat) powi (53 + e) \<le> 2 powi 1024"
    using e(2) by (intro power_int_increasing) simp_all
  with lt have small: "\<not> 2 ^ 1024 \<le> \<bar>x\<bar>" by simp
  have y': "of_int (round_half_even (\<bar>x\<bar> / 2 powi e')) * 2 powi e' = \<bar>x\<bar>"
    by (simp only: r y)
  have "binary64 x = Finite (if 0 < x then \<bar>x\<bar> else - \<bar>x\<bar>)"
    using small
    by (simp only: binary64_nonzero(1) [OF x0] e'_def [symmetric] y' if_False)
  also have "(if 0 < x then \<bar>x\<bar> else - \<bar>x\<bar>) = x" by simp
  finally have "binary64 x = Finite x" .
  then show ?thesis by (simp only: x_def)
qed

text \<open>In the normal range the result is within half a unit in the last place.\<close>

lemma binary64_accurate:
  assumes "2 powi (- 1022) \<le> \<bar>x\<bar>" and "binary64 x = Finite y"
  shows "\<bar>y - x\<bar> \<le> \<bar>x\<bar> / 2 ^ 53"
proof -
  have x0: "x \<noteq> 0"
  proof
    assume "x = 0"
    with assms(1) have "(2::rat) powi (- 1022) \<le> 0" by simp
    moreover have "(0::rat) < 2 powi (- 1022)" by (rule zero_less_power_int) simp
    ultimately show False by linarith
  qed
  define a where "a = \<bar>x\<bar>"
  define L where "L = floor_log2 a"
  define e where "e = max (L - 52) (- 1074)"
  define m where "m = round_half_even (a / 2 powi e)"
  have a0: "0 < a" using x0 by (simp add: a_def)
  note fl = floor_log2_bounds [OF a0, folded L_def]
  from assms(1) fl(2) have "(2::rat) powi (- 1022) < 2 powi (L + 1)" by (simp add: a_def)
  then have "- 1022 < L + 1" by (rule pow2_less_imp)
  then have e: "e = L - 52" by (simp add: e_def)
  note b = binary64_nonzero [OF x0, folded a_def L_def, folded e_def, folded m_def]
  have half: "(2::rat) powi e / 2 = 2 powi L / 2 ^ 53"
    using power_int_diff [of "2::rat" L 52] by (simp add: e)
  have "\<bar>of_int m * 2 powi e - a\<bar> \<le> 2 powi L / 2 ^ 53"
    using b(3) by (simp only: half)
  also have "\<dots> \<le> a / 2 ^ 53"
    using fl(1) by (simp add: divide_right_mono)
  finally have d: "\<bar>of_int m * 2 powi e - a\<bar> \<le> a / 2 ^ 53" .
  from assms(2) b(1) have y: "y = (if 0 < x then of_int m * 2 powi e else - (of_int m * 2 powi e))"
    by (auto split: if_splits)
  show ?thesis
  proof (cases "0 < x")
    case True
    then have "a = x" by (simp add: a_def)
    with d y True show ?thesis by simp
  next
    case False
    with x0 have "a = - x" by (simp add: a_def)
    with d y False show ?thesis by (simp add: abs_minus_commute)
  qed
qed

text \<open>Rounding does not cross a power of two.\<close>

lemma binary64_le_pow2:
  assumes "\<bar>x\<bar> \<le> 2 powi k" and "- 1074 \<le> k" and "k \<le> 1023"
  shows "\<exists>y. binary64 x = Finite y \<and> \<bar>y\<bar> \<le> 2 powi k"
proof (cases "x = 0")
  case True
  then show ?thesis by (simp add: binary64_def)
next
  case x0: False
  define a where "a = \<bar>x\<bar>"
  define L where "L = floor_log2 a"
  define e where "e = max (L - 52) (- 1074)"
  define m where "m = round_half_even (a / 2 powi e)"
  have a0: "0 < a" using x0 by (simp add: a_def)
  note fl = floor_log2_bounds [OF a0, folded L_def]
  note b = binary64_nonzero [OF x0, folded a_def L_def, folded e_def, folded m_def]
  have p: "(0::rat) < 2 powi e" by simp
  from fl(1) assms(1) have "(2::rat) powi L \<le> 2 powi k" by (simp add: a_def)
  then have "L \<le> k"
    using power_int_strict_increasing [of k L "2::rat"] by (cases "L \<le> k") auto
  with assms(2) have ek: "e \<le> k" by (simp add: e_def)
  have k: "(2::rat) powi k = of_int (2 ^ nat (k - e)) * 2 powi e"
    using pow2_split [of k e] pow2_nat [of "k - e"] ek by simp
  have "a / 2 powi e \<le> 2 powi k / 2 powi e"
    using assms(1) p by (simp add: a_def divide_right_mono)
  also have "\<dots> = of_int (2 ^ nat (k - e))" using p by (simp add: k)
  finally have "m \<le> 2 ^ nat (k - e)" unfolding m_def by (rule round_half_even_le)
  then have "(of_int m :: rat) \<le> of_int (2 ^ nat (k - e))" by (simp only: of_int_le_iff)
  then have "of_int m * 2 powi e \<le> of_int (2 ^ nat (k - e)) * (2::rat) powi e"
    using p by (simp only: mult_le_cancel_right_pos)
  then have le: "of_int m * 2 powi e \<le> (2::rat) powi k" by (simp only: k)
  have "(2::rat) powi k \<le> 2 powi 1023"
    using assms(3) by (intro power_int_increasing) simp_all
  also have "\<dots> < 2 ^ 1024" by simp
  finally have lt: "of_int m * 2 powi e < (2::rat) ^ 1024" using le by linarith
  have nn: "(0::rat) \<le> of_int m * 2 powi e" using b(2) p by simp
  from b(1) lt have "binary64 x = Finite (if 0 < x then of_int m * 2 powi e else - (of_int m * 2 powi e))"
    by simp
  moreover have "\<bar>if 0 < x then of_int m * 2 powi e else - (of_int m * 2 powi e)\<bar> \<le> (2::rat) powi k"
    using le nn by simp
  ultimately show ?thesis by blast
qed

lemma binary64_ge_pow2:
  assumes "2 powi k \<le> \<bar>x\<bar>" and "- 1074 \<le> k" and "binary64 x = Finite y"
  shows "2 powi k \<le> \<bar>y\<bar>"
proof -
  have x0: "x \<noteq> 0"
  proof
    assume "x = 0"
    with assms(1) have "(2::rat) powi k \<le> 0" by simp
    moreover have "(0::rat) < 2 powi k" by (rule zero_less_power_int) simp
    ultimately show False by linarith
  qed
  define a where "a = \<bar>x\<bar>"
  define L where "L = floor_log2 a"
  define e where "e = max (L - 52) (- 1074)"
  define m where "m = round_half_even (a / 2 powi e)"
  have a0: "0 < a" using x0 by (simp add: a_def)
  note fl = floor_log2_bounds [OF a0, folded L_def]
  note b = binary64_nonzero [OF x0, folded a_def L_def, folded e_def, folded m_def]
  have p: "(0::rat) < 2 powi e" by simp
  from assms(1) fl(2) have "(2::rat) powi k < 2 powi (L + 1)" by (simp add: a_def)
  then have "k < L + 1" by (rule pow2_less_imp)
  then have kL: "k \<le> L" by simp
  have ge: "(2::rat) powi k \<le> of_int m * 2 powi e"
  proof (cases "e \<le> k")
    case True
    have k: "(2::rat) powi k = of_int (2 ^ nat (k - e)) * 2 powi e"
      using pow2_split [of k e] pow2_nat [of "k - e"] True by simp
    have "2 powi k / 2 powi e \<le> a / 2 powi e"
      using assms(1) p by (simp add: a_def divide_right_mono)
    moreover have "2 powi k / 2 powi e = (of_int (2 ^ nat (k - e)) :: rat)"
      using p by (simp add: k)
    ultimately have "(of_int (2 ^ nat (k - e)) :: rat) \<le> a / 2 powi e" by simp
    then have "2 ^ nat (k - e) \<le> m" unfolding m_def by (rule round_half_even_ge)
    then have "(of_int (2 ^ nat (k - e)) :: rat) \<le> of_int m" by (simp only: of_int_le_iff)
    then have "of_int (2 ^ nat (k - e)) * (2::rat) powi e \<le> of_int m * 2 powi e"
      using p by (simp only: mult_le_cancel_right_pos)
    then show ?thesis by (simp only: k)
  next
    case False
    with assms(2) have e: "e = L - 52" by (simp add: e_def)
    have Ls: "(2::rat) powi L = of_int (2 ^ 52) * 2 powi e"
      using pow2_split [of L e] by (simp add: e)
    have "2 powi L / 2 powi e \<le> a / 2 powi e"
      using fl(1) p by (simp add: divide_right_mono)
    moreover have "2 powi L / 2 powi e = (of_int (2 ^ 52) :: rat)"
      using p by (simp add: Ls)
    ultimately have "(of_int (2 ^ 52) :: rat) \<le> a / 2 powi e" by simp
    then have "2 ^ 52 \<le> m" unfolding m_def by (rule round_half_even_ge)
    then have "(of_int (2 ^ 52) :: rat) \<le> of_int m" by (simp only: of_int_le_iff)
    then have "of_int (2 ^ 52) * (2::rat) powi e \<le> of_int m * 2 powi e"
      using p by (simp only: mult_le_cancel_right_pos)
    then have "(2::rat) powi L \<le> of_int m * 2 powi e" by (simp only: Ls)
    moreover have "(2::rat) powi k \<le> 2 powi L"
      using kL by (intro power_int_increasing) simp_all
    ultimately show ?thesis by linarith
  qed
  from assms(3) b(1) have "y = (if 0 < x then of_int m * 2 powi e else - (of_int m * 2 powi e))"
    by (auto split: if_splits)
  with ge show ?thesis by (auto simp: abs_if)
qed

text \<open>Three roundings in a row stay within eight units of relative error.\<close>

lemma quotient_error:
  fixes x t a d q u :: rat
  assumes u: "0 \<le> u" "u \<le> 1 / 2"
    and t: "t \<noteq> 0"
    and a: "\<bar>a - x\<bar> \<le> u * \<bar>x\<bar>"
    and d: "\<bar>d - t\<bar> \<le> u * \<bar>t\<bar>"
    and q: "\<bar>q - a / d\<bar> \<le> u * \<bar>a / d\<bar>"
  shows "\<bar>q - x / t\<bar> \<le> 8 * u * \<bar>x / t\<bar>"
proof -
  define X where "X = \<bar>x\<bar>"
  define T where "T = \<bar>t\<bar>"
  define D where "D = \<bar>d\<bar>"
  have T0: "0 < T" using t by (simp add: T_def)
  have X0: "0 \<le> X" by (simp add: X_def)
  have "u * T \<le> T / 2" using u(2) T0 by (simp add: field_simps)
  with d have "\<bar>d - t\<bar> \<le> T / 2" by (simp add: T_def)
  then have DT: "T / 2 \<le> D" unfolding D_def T_def by linarith
  with T0 have D0: "0 < D" by linarith
  then have d0: "d \<noteq> 0" by (auto simp: D_def)
  have eq: "a / d - x / t = ((a - x) * t - x * (d - t)) / (d * t)"
    using d0 t by (simp add: field_simps)
  have "\<bar>(a - x) * t - x * (d - t)\<bar> \<le> \<bar>(a - x) * t\<bar> + \<bar>x * (d - t)\<bar>"
    by (rule abs_triangle_ineq4)
  also have "\<dots> = \<bar>a - x\<bar> * T + X * \<bar>d - t\<bar>" by (simp add: abs_mult T_def X_def)
  also have "\<dots> \<le> (u * X) * T + X * (u * T)"
    using a d X0 T0 by (intro add_mono mult_right_mono mult_left_mono) (simp_all add: X_def T_def)
  finally have num: "\<bar>(a - x) * t - x * (d - t)\<bar> \<le> 2 * u * X * T" by (simp add: algebra_simps)
  have den: "\<bar>d * t\<bar> = D * T" by (simp add: abs_mult D_def T_def)
  have DT0: "0 < D * T" using D0 T0 by simp
  have "\<bar>a / d - x / t\<bar> = \<bar>(a - x) * t - x * (d - t)\<bar> / (D * T)"
    by (simp only: eq abs_divide den)
  also have "\<dots> \<le> (2 * u * X * T) / (D * T)"
    using num DT0 by (simp only: divide_right_mono less_imp_le)
  also have "\<dots> = 2 * u * X / D" using T0 by simp
  also have "\<dots> \<le> 2 * u * X / (T / 2)"
    using DT T0 u(1) X0 by (intro divide_left_mono) simp_all
  also have "\<dots> = 4 * u * (X / T)" by simp
  finally have e1': "\<bar>a / d - x / t\<bar> \<le> 4 * u * (X / T)" .
  define R where "R = X / T"
  have R: "\<bar>x / t\<bar> = R" by (simp add: abs_divide X_def T_def R_def)
  have R0: "0 \<le> R" using X0 T0 by (simp add: R_def)
  from e1' have e1: "\<bar>a / d - x / t\<bar> \<le> 4 * (u * R)" by (simp add: R_def)
  have uR: "0 \<le> u * R" using u(1) R0 by simp
  have "u * R \<le> 1 / 2 * R" using u(2) R0 by (rule mult_right_mono)
  with e1 R have ad: "\<bar>a / d\<bar> \<le> 3 * R" by linarith
  have "u * \<bar>a / d\<bar> \<le> u * (3 * R)"
    using ad u(1) by (rule mult_left_mono)
  also have "\<dots> = 3 * (u * R)" by simp
  finally have "u * \<bar>a / d\<bar> \<le> 3 * (u * R)" .
  with q have e2: "\<bar>q - a / d\<bar> \<le> 3 * (u * R)" by linarith
  from e1 e2 uR have "\<bar>q - x / t\<bar> \<le> 8 * (u * R)" by linarith
  then show ?thesis by (simp only: R mult.assoc)
qed

lemma binary64_accurate_or_zero:
  assumes "x = 0 \<or> 2 powi (- 1022) \<le> \<bar>x\<bar>" and "binary64 x = Finite y"
  shows "\<bar>y - x\<bar> \<le> 1 / 2 ^ 53 * \<bar>x\<bar>"
proof (cases "x = 0")
  case True
  with assms(2) show ?thesis by (simp add: binary64_def)
next
  case False
  with assms(1) have "2 powi (- 1022) \<le> \<bar>x\<bar>" by simp
  from binary64_accurate [OF this assms(2)] show ?thesis by simp
qed

text \<open>
  The quotient of a counter difference of at most 64 bits by an interval between
  \<open>2\<^sup>-\<^sup>6\<^sup>4\<close> and \<open>2\<^sup>6\<^sup>4\<close> seconds.
\<close>

lemma py_div_rate:
  fixes x :: int and now t0 :: rat
  assumes x: "\<bar>x\<bar> \<le> 2 ^ 64"
    and lo: "2 powi (- 64) \<le> \<bar>now - t0\<bar>" and hi: "\<bar>now - t0\<bar> \<le> 2 ^ 64"
  shows "\<exists>q. py_div x (float_sub now t0) = Inr (Finite q)
           \<and> \<bar>q\<bar> \<le> 2 ^ 128
           \<and> \<bar>q - of_int x / (now - t0)\<bar> \<le> \<bar>of_int x / (now - t0)\<bar> / 2 ^ 50"
proof -
  define t where "t = now - t0"
  have p64: "(2::rat) powi 64 = 2 ^ 64" by simp
  have t0: "t \<noteq> 0"
  proof
    assume "t = 0"
    with lo have "(2::rat) powi (- 64) \<le> 0" by (simp add: t_def)
    moreover have "(0::rat) < 2 powi (- 64)" by (rule zero_less_power_int) simp
    ultimately show False by linarith
  qed
  \<comment> \<open>the interval\<close>
  from hi have "\<bar>t\<bar> \<le> 2 powi 64" by (simp add: t_def)
  from binary64_le_pow2 [OF this] obtain d where
    d: "binary64 t = Finite d" and dhi: "\<bar>d\<bar> \<le> 2 powi 64" by auto
  from lo have tlo: "2 powi (- 64) \<le> \<bar>t\<bar>" by (simp add: t_def)
  from binary64_ge_pow2 [OF tlo _ d] have dlo: "2 powi (- 64) \<le> \<bar>d\<bar>" by simp
  have "(2::rat) powi (- 1022) \<le> 2 powi (- 64)"
    by (intro power_int_increasing) simp_all
  with tlo have "2 powi (- 1022) \<le> \<bar>t\<bar>" by linarith
  from binary64_accurate [OF this d] have dacc: "\<bar>d - t\<bar> \<le> 1 / 2 ^ 53 * \<bar>t\<bar>" by simp
  have d0: "d \<noteq> 0"
  proof
    assume "d = 0"
    with dlo have "(2::rat) powi (- 64) \<le> 0" by simp
    moreover have "(0::rat) < 2 powi (- 64)" by (rule zero_less_power_int) simp
    ultimately show False by linarith
  qed
  \<comment> \<open>the counter difference\<close>
  from x have "\<bar>of_int x :: rat\<bar> \<le> 2 ^ 64"
    by (metis of_int_abs of_int_le_pow2)
  then have "\<bar>of_int x :: rat\<bar> \<le> 2 powi 64" by simp
  from binary64_le_pow2 [OF this] obtain a where
    a: "binary64 (of_int x) = Finite a" and ahi: "\<bar>a\<bar> \<le> 2 powi 64" by auto
  have xr: "of_int x = (0::rat) \<or> 2 powi (- 1022) \<le> \<bar>of_int x :: rat\<bar>"
  proof (cases "x = 0")
    case True
    then show ?thesis by simp
  next
    case False
    then have "1 \<le> \<bar>x\<bar>" by simp
    then have "(1::rat) \<le> \<bar>of_int x\<bar>" by (metis of_int_abs of_int_1_le_iff)
    moreover have "(2::rat) powi (- 1022) \<le> 2 powi 0"
      by (intro power_int_increasing) simp_all
    ultimately show ?thesis by simp
  qed
  from binary64_accurate_or_zero [OF xr a] have aacc: "\<bar>a - of_int x\<bar> \<le> 1 / 2 ^ 53 * \<bar>of_int x\<bar>" .
  \<comment> \<open>the quotient\<close>
  have dpos: "0 < \<bar>d\<bar>" using d0 by simp
  have "\<bar>a / d\<bar> = \<bar>a\<bar> / \<bar>d\<bar>" by (simp add: abs_divide)
  also have "\<dots> \<le> 2 powi 64 / 2 powi (- 64)"
    using ahi dlo by (intro frac_le) simp_all
  also have "\<dots> = 2 powi 128"
    using power_int_diff [of "2::rat" 64 "- 64"] by simp
  finally have "\<bar>a / d\<bar> \<le> 2 powi 128" .
  from binary64_le_pow2 [OF this] obtain q where
    q: "binary64 (a / d) = Finite q" and qhi: "\<bar>q\<bar> \<le> 2 powi 128" by auto
  have qr: "a / d = 0 \<or> 2 powi (- 1022) \<le> \<bar>a / d\<bar>"
  proof (cases "x = 0")
    case True
    with aacc have "a = 0" by simp
    then show ?thesis by simp
  next
    case False
    then have "1 \<le> \<bar>x\<bar>" by simp
    then have "(1::rat) \<le> \<bar>of_int x\<bar>" by (metis of_int_abs of_int_1_le_iff)
    then have "(2::rat) powi 0 \<le> \<bar>of_int x\<bar>" by simp
    from binary64_ge_pow2 [OF this _ a] have "1 \<le> \<bar>a\<bar>" by simp
    have "(2::rat) powi (- 1022) \<le> 2 powi (- 64)"
      by (intro power_int_increasing) simp_all
    also have "\<dots> = 1 / 2 powi 64"
      using power_int_minus [of "2::rat" 64] by (simp add: field_simps)
    also have "\<dots> \<le> \<bar>a\<bar> / \<bar>d\<bar>"
      using \<open>1 \<le> \<bar>a\<bar>\<close> dhi dpos by (intro frac_le) simp_all
    finally show ?thesis by (simp add: abs_divide)
  qed
  from binary64_accurate_or_zero [OF qr q] have qacc: "\<bar>q - a / d\<bar> \<le> 1 / 2 ^ 53 * \<bar>a / d\<bar>" .
  have "\<bar>q - of_int x / t\<bar> \<le> 8 * (1 / 2 ^ 53) * \<bar>of_int x / t\<bar>"
    by (rule quotient_error [OF _ _ t0 aacc dacc qacc]) simp_all
  then have acc: "\<bar>q - of_int x / t\<bar> \<le> \<bar>of_int x / t\<bar> / 2 ^ 50" by simp
  have "py_div x (float_sub now t0) = Inr (Finite q)"
    using a d d0 q by (simp add: py_div_def float_of_int_def float_sub_def t_def)
  with qhi acc show ?thesis by (auto simp: t_def)
qed

text \<open>
  \<^verbatim>\<open>round(x, 2)\<close> of a float of moderate size is the float nearest to a number of two
  decimal places, which is within 1/200 of \<open>x\<close>.
\<close>

lemma py_round2_two_places:
  assumes "\<bar>q\<bar> \<le> 2 ^ 128"
  shows "\<exists>n y. py_round2 (Finite q) = Finite y
           \<and> binary64 (of_int n / 100) = Finite y
           \<and> \<bar>of_int n / 100 - q\<bar> \<le> 1 / 200
           \<and> \<bar>y - of_int n / 100\<bar> \<le> \<bar>of_int n / 100\<bar> / 2 ^ 53"
proof -
  define n where "n = round_half_even (q * 100)"
  define c :: rat where "c = of_int n / 100"
  have "\<bar>of_int n - q * 100\<bar> \<le> 1 / 2"
    unfolding n_def by (rule round_half_even_near)
  then have near: "\<bar>c - q\<bar> \<le> 1 / 200" unfolding c_def by linarith
  with assms have "\<bar>c\<bar> \<le> 2 ^ 128 + 1" by linarith
  also have "\<dots> \<le> (2::rat) ^ 129" by simp
  finally have "\<bar>c\<bar> \<le> 2 powi 129" by simp
  from binary64_le_pow2 [OF this] obtain y where y: "binary64 c = Finite y" by auto
  have r: "c = 0 \<or> 2 powi (- 1022) \<le> \<bar>c\<bar>"
  proof (cases "n = 0")
    case True
    then show ?thesis by (simp add: c_def)
  next
    case False
    then have "1 \<le> \<bar>n\<bar>" by simp
    then have "(1::rat) \<le> \<bar>of_int n\<bar>" by (metis of_int_abs of_int_1_le_iff)
    then have "(1::rat) / 100 \<le> \<bar>c\<bar>" by (simp add: c_def)
    moreover have "(2::rat) powi (- 1022) \<le> 2 powi (- 7)"
      by (intro power_int_increasing) simp_all
    moreover have "(2::rat) powi (- 7) \<le> 1 / 100" by (simp add: power_int_def power_divide)
    ultimately show ?thesis by linarith
  qed
  from binary64_accurate_or_zero [OF r y] have "\<bar>y - c\<bar> \<le> \<bar>c\<bar> / 2 ^ 53" by simp
  moreover have "py_round2 (Finite q) = Finite y"
    using y by (simp add: py_round2_def n_def c_def)
  ultimately show ?thesis using near y unfolding c_def by blast
qed

subsection \<open>The rates of one entry\<close>

text \<open>
  Python's integers are unbounded and its floats are not, so a rate can overflow, and an
  interval can round to zero. The lemmas below take every counter from 0 up to, not
  including, \<open>2\<^sup>6\<^sup>4\<close>, and the interval, before it is rounded to a float, between
  \<open>2\<^sup>-\<^sup>6\<^sup>4\<close> and \<open>2\<^sup>6\<^sup>4\<close> seconds in absolute value. Three roundings separate the
  quotient the code computes from the exact rate: the counter difference and the
  interval are each rounded to a float, and so is their quotient.
\<close>

lemma py_div_counters:
  assumes "0 \<le> x \<and> x < 2 ^ 64" and "0 \<le> x' \<and> x' < 2 ^ 64"
    and "2 powi (- 64) \<le> \<bar>now - t0\<bar>" and "\<bar>now - t0\<bar> \<le> 2 ^ 64"
  shows "\<exists>q. py_div (x' - x) (float_sub now t0) = Inr (Finite q) \<and> \<bar>q\<bar> \<le> 2 ^ 128
           \<and> \<bar>q - of_int (x' - x) / (now - t0)\<bar> \<le> \<bar>of_int (x' - x) / (now - t0)\<bar> / 2 ^ 50"
proof -
  from assms(1,2) have "\<bar>x' - x\<bar> \<le> 2 ^ 64" by linarith
  then show ?thesis using assms(3,4) by (rule py_div_rate)
qed

lemma byte_rate_field:
  assumes "0 \<le> x \<and> x < 2 ^ 64" and "0 \<le> x' \<and> x' < 2 ^ 64"
    and "2 powi (- 64) \<le> \<bar>now - t0\<bar>" and "\<bar>now - t0\<bar> \<le> 2 ^ 64"
  shows "\<exists>q. py_div (x' - x) (float_sub now t0) = Inr (Finite q)
           \<and> \<bar>q - of_int (x' - x) / (now - t0)\<bar> \<le> \<bar>of_int (x' - x) / (now - t0)\<bar> / 2 ^ 50
           \<and> int_of_float (Finite q) = Inr (py_int q)
           \<and> \<bar>of_int (py_int q) - q\<bar> < 1 \<and> \<bar>of_int (py_int q) :: rat\<bar> \<le> \<bar>q\<bar>"
  using py_div_counters [OF assms] py_int_truncates
  by (auto simp: int_of_float_def)

lemma fraction_rate_field:
  assumes "0 \<le> x \<and> x < 2 ^ 64" and "0 \<le> x' \<and> x' < 2 ^ 64"
    and "2 powi (- 64) \<le> \<bar>now - t0\<bar>" and "\<bar>now - t0\<bar> \<le> 2 ^ 64"
  shows "\<exists>q n y. py_div (x' - x) (float_sub now t0) = Inr (Finite q)
           \<and> \<bar>q - of_int (x' - x) / (now - t0)\<bar> \<le> \<bar>of_int (x' - x) / (now - t0)\<bar> / 2 ^ 50
           \<and> py_round2 (Finite q) = Finite y
           \<and> binary64 (of_int n / 100) = Finite y
           \<and> \<bar>of_int n / 100 - q\<bar> \<le> 1 / 200
           \<and> \<bar>y - of_int n / 100\<bar> \<le> \<bar>of_int n / 100\<bar> / 2 ^ 53"
proof -
  from py_div_counters [OF assms] obtain q where
    q: "py_div (x' - x) (float_sub now t0) = Inr (Finite q)" "\<bar>q\<bar> \<le> 2 ^ 128"
      "\<bar>q - of_int (x' - x) / (now - t0)\<bar> \<le> \<bar>of_int (x' - x) / (now - t0)\<bar> / 2 ^ 50"
    by blast
  from py_round2_two_places [OF q(2)] q(1,3) show ?thesis by blast
qed

lemma disk_rate_entry_rates:
  assumes ra: "\<forall>v \<in> set (sdiskio_values a). 0 \<le> v \<and> v < 2 ^ 64"
    and rb: "\<forall>v \<in> set (sdiskio_values b). 0 \<le> v \<and> v < 2 ^ 64"
    and lo: "2 powi (- 64) \<le> \<bar>now - t0\<bar>" and hi: "\<bar>now - t0\<bar> \<le> 2 ^ 64"
  shows "\<exists>e. disk_rate_entry a b (float_sub now t0) = Inr e
     \<and> out_read_count e = read_count b \<and> out_write_count e = write_count b
     \<and> out_read_bytes e = read_bytes b \<and> out_write_bytes e = write_bytes b
     \<and> (\<forall>(counter, rate) \<in> {(read_bytes, read_bytes_per_sec), (write_bytes, write_bytes_per_sec)}.
          \<exists>q. py_div (counter b - counter a) (float_sub now t0) = Inr (Finite q)
            \<and> \<bar>q - of_int (counter b - counter a) / (now - t0)\<bar>
                \<le> \<bar>of_int (counter b - counter a) / (now - t0)\<bar> / 2 ^ 50
            \<and> rate e = py_int q
            \<and> \<bar>of_int (rate e) - q\<bar> < 1 \<and> \<bar>of_int (rate e) :: rat\<bar> \<le> \<bar>q\<bar>)
     \<and> (\<forall>(counter, rate) \<in> {(read_count, read_iops), (write_count, write_iops)}.
          \<exists>q n y. py_div (counter b - counter a) (float_sub now t0) = Inr (Finite q)
            \<and> \<bar>q - of_int (counter b - counter a) / (now - t0)\<bar>
                \<le> \<bar>of_int (counter b - counter a) / (now - t0)\<bar> / 2 ^ 50
            \<and> rate e = Finite y
            \<and> binary64 (of_int n / 100) = Finite y
            \<and> \<bar>of_int n / 100 - q\<bar> \<le> 1 / 200
            \<and> \<bar>y - of_int n / 100\<bar> \<le> \<bar>of_int n / 100\<bar> / 2 ^ 53)"
proof -
  from ra have a: "0 \<le> read_count a \<and> read_count a < 2 ^ 64" "0 \<le> write_count a \<and> write_count a < 2 ^ 64"
    "0 \<le> read_bytes a \<and> read_bytes a < 2 ^ 64" "0 \<le> write_bytes a \<and> write_bytes a < 2 ^ 64"
    by (simp_all add: sdiskio_values_def)
  from rb have b: "0 \<le> read_count b \<and> read_count b < 2 ^ 64" "0 \<le> write_count b \<and> write_count b < 2 ^ 64"
    "0 \<le> read_bytes b \<and> read_bytes b < 2 ^ 64" "0 \<le> write_bytes b \<and> write_bytes b < 2 ^ 64"
    by (simp_all add: sdiskio_values_def)
  from byte_rate_field [OF a(3) b(3) lo hi] obtain q1 where
    q1: "py_div (read_bytes b - read_bytes a) (float_sub now t0) = Inr (Finite q1)"
      "\<bar>q1 - of_int (read_bytes b - read_bytes a) / (now - t0)\<bar>
         \<le> \<bar>of_int (read_bytes b - read_bytes a) / (now - t0)\<bar> / 2 ^ 50"
      "int_of_float (Finite q1) = Inr (py_int q1)"
      "\<bar>of_int (py_int q1) - q1\<bar> < 1" "\<bar>of_int (py_int q1) :: rat\<bar> \<le> \<bar>q1\<bar>"
    by blast
  from byte_rate_field [OF a(4) b(4) lo hi] obtain q2 where
    q2: "py_div (write_bytes b - write_bytes a) (float_sub now t0) = Inr (Finite q2)"
      "\<bar>q2 - of_int (write_bytes b - write_bytes a) / (now - t0)\<bar>
         \<le> \<bar>of_int (write_bytes b - write_bytes a) / (now - t0)\<bar> / 2 ^ 50"
      "int_of_float (Finite q2) = Inr (py_int q2)"
      "\<bar>of_int (py_int q2) - q2\<bar> < 1" "\<bar>of_int (py_int q2) :: rat\<bar> \<le> \<bar>q2\<bar>"
    by blast
  from fraction_rate_field [OF a(1) b(1) lo hi] obtain q3 n3 y3 where
    q3: "py_div (read_count b - read_count a) (float_sub now t0) = Inr (Finite q3)"
      "\<bar>q3 - of_int (read_count b - read_count a) / (now - t0)\<bar>
         \<le> \<bar>of_int (read_count b - read_count a) / (now - t0)\<bar> / 2 ^ 50"
      "py_round2 (Finite q3) = Finite y3"
      "binary64 (of_int n3 / 100) = Finite y3"
      "\<bar>of_int n3 / 100 - q3\<bar> \<le> 1 / 200"
      "\<bar>y3 - of_int n3 / 100\<bar> \<le> \<bar>of_int n3 / 100\<bar> / 2 ^ 53"
    by blast
  from fraction_rate_field [OF a(2) b(2) lo hi] obtain q4 n4 y4 where
    q4: "py_div (write_count b - write_count a) (float_sub now t0) = Inr (Finite q4)"
      "\<bar>q4 - of_int (write_count b - write_count a) / (now - t0)\<bar>
         \<le> \<bar>of_int (write_count b - write_count a) / (now - t0)\<bar> / 2 ^ 50"
      "py_round2 (Finite q4) = Finite y4"
      "binary64 (of_int n4 / 100) = Finite y4"
      "\<bar>of_int n4 / 100 - q4\<bar> \<le> 1 / 200"
      "\<bar>y4 - of_int n4 / 100\<bar> \<le> \<bar>of_int n4 / 100\<bar> / 2 ^ 53"
    by blast
  define e where "e = \<lparr>read_bytes_per_sec = py_int q1, write_bytes_per_sec = py_int q2,
     read_iops = Finite y3, write_iops = Finite y4,
     out_read_count = read_count b, out_write_count = write_count b,
     out_read_bytes = read_bytes b, out_write_bytes = write_bytes b\<rparr>"
  have e: "disk_rate_entry a b (float_sub now t0) = Inr e"
    by (simp add: disk_rate_entry_def q1(1,3) q2(1,3) q3(1,3) q4(1,3) e_def)
  have c: "out_read_count e = read_count b \<and> out_write_count e = write_count b
     \<and> out_read_bytes e = read_bytes b \<and> out_write_bytes e = write_bytes b"
    by (simp add: e_def)
  have r1: "\<exists>q. py_div (read_bytes b - read_bytes a) (float_sub now t0) = Inr (Finite q)
            \<and> \<bar>q - of_int (read_bytes b - read_bytes a) / (now - t0)\<bar>
                \<le> \<bar>of_int (read_bytes b - read_bytes a) / (now - t0)\<bar> / 2 ^ 50
            \<and> read_bytes_per_sec e = py_int q
            \<and> \<bar>of_int (read_bytes_per_sec e) - q\<bar> < 1 \<and> \<bar>of_int (read_bytes_per_sec e) :: rat\<bar> \<le> \<bar>q\<bar>"
    using q1 by (intro exI [of _ q1]) (simp add: e_def)
  have r2: "\<exists>q. py_div (write_bytes b - write_bytes a) (float_sub now t0) = Inr (Finite q)
            \<and> \<bar>q - of_int (write_bytes b - write_bytes a) / (now - t0)\<bar>
                \<le> \<bar>of_int (write_bytes b - write_bytes a) / (now - t0)\<bar> / 2 ^ 50
            \<and> write_bytes_per_sec e = py_int q
            \<and> \<bar>of_int (write_bytes_per_sec e) - q\<bar> < 1 \<and> \<bar>of_int (write_bytes_per_sec e) :: rat\<bar> \<le> \<bar>q\<bar>"
    using q2 by (intro exI [of _ q2]) (simp add: e_def)
  have r3: "\<exists>q n y. py_div (read_count b - read_count a) (float_sub now t0) = Inr (Finite q)
            \<and> \<bar>q - of_int (read_count b - read_count a) / (now - t0)\<bar>
                \<le> \<bar>of_int (read_count b - read_count a) / (now - t0)\<bar> / 2 ^ 50
            \<and> read_iops e = Finite y
            \<and> binary64 (of_int n / 100) = Finite y
            \<and> \<bar>of_int n / 100 - q\<bar> \<le> 1 / 200
            \<and> \<bar>y - of_int n / 100\<bar> \<le> \<bar>of_int n / 100\<bar> / 2 ^ 53"
    using q3 by (intro exI [of _ q3] exI [of _ n3] exI [of _ y3]) (simp add: e_def)
  have r4: "\<exists>q n y. py_div (write_count b - write_count a) (float_sub now t0) = Inr (Finite q)
            \<and> \<bar>q - of_int (write_count b - write_count a) / (now - t0)\<bar>
                \<le> \<bar>of_int (write_count b - write_count a) / (now - t0)\<bar> / 2 ^ 50
            \<and> write_iops e = Finite y
            \<and> binary64 (of_int n / 100) = Finite y
            \<and> \<bar>of_int n / 100 - q\<bar> \<le> 1 / 200
            \<and> \<bar>y - of_int n / 100\<bar> \<le> \<bar>of_int n / 100\<bar> / 2 ^ 53"
    using q4 by (intro exI [of _ q4] exI [of _ n4] exI [of _ y4]) (simp add: e_def)
  from e c r1 r2 r3 r4 show ?thesis
    by (intro exI [of _ e]) (simp only: ball_simps split_conv simp_thms)
qed

lemma network_rate_entry_rates:
  assumes ra: "\<forall>v \<in> set (snetio_values a). 0 \<le> v \<and> v < 2 ^ 64"
    and rb: "\<forall>v \<in> set (snetio_values b). 0 \<le> v \<and> v < 2 ^ 64"
    and lo: "2 powi (- 64) \<le> \<bar>now - t0\<bar>" and hi: "\<bar>now - t0\<bar> \<le> 2 ^ 64"
  shows "\<exists>e. network_rate_entry a b (float_sub now t0) = Inr e
     \<and> out_bytes_sent e = bytes_sent b \<and> out_bytes_recv e = bytes_recv b
     \<and> out_packets_sent e = packets_sent b \<and> out_packets_recv e = packets_recv b
     \<and> out_errin e = errin b \<and> out_errout e = errout b
     \<and> out_dropin e = dropin b \<and> out_dropout e = dropout b
     \<and> (\<forall>(counter, rate) \<in> {(bytes_sent, bytes_sent_per_sec), (bytes_recv, bytes_recv_per_sec)}.
          \<exists>q. py_div (counter b - counter a) (float_sub now t0) = Inr (Finite q)
            \<and> \<bar>q - of_int (counter b - counter a) / (now - t0)\<bar>
                \<le> \<bar>of_int (counter b - counter a) / (now - t0)\<bar> / 2 ^ 50
            \<and> rate e = py_int q
            \<and> \<bar>of_int (rate e) - q\<bar> < 1 \<and> \<bar>of_int (rate e) :: rat\<bar> \<le> \<bar>q\<bar>)
     \<and> (\<forall>(counter, rate) \<in> {(packets_sent, packets_sent_per_sec), (packets_recv, packets_recv_per_sec)}.
          \<exists>q n y. py_div (counter b - counter a) (float_sub now t0) = Inr (Finite q)
            \<and> \<bar>q - of_int (counter b - counter a) / (now - t0)\<bar>
                \<le> \<bar>of_int (counter b - counter a) / (now - t0)\<bar> / 2 ^ 50
            \<and> rate e = Finite y
            \<and> binary64 (of_int n / 100) = Finite y
            \<and> \<bar>of_int n / 100 - q\<bar> \<le> 1 / 200
            \<and> \<bar>y - of_int n / 100\<bar> \<le> \<bar>of_int n / 100\<bar> / 2 ^ 53)"
proof -
  from ra have a: "0 \<le> packets_sent a \<and> packets_sent a < 2 ^ 64" "0 \<le> packets_recv a \<and> packets_recv a < 2 ^ 64"
    "0 \<le> bytes_sent a \<and> bytes_sent a < 2 ^ 64" "0 \<le> bytes_recv a \<and> bytes_recv a < 2 ^ 64"
    by (simp_all add: snetio_values_def)
  from rb have b: "0 \<le> packets_sent b \<and> packets_sent b < 2 ^ 64" "0 \<le> packets_recv b \<and> packets_recv b < 2 ^ 64"
    "0 \<le> bytes_sent b \<and> bytes_sent b < 2 ^ 64" "0 \<le> bytes_recv b \<and> bytes_recv b < 2 ^ 64"
    by (simp_all add: snetio_values_def)
  from byte_rate_field [OF a(3) b(3) lo hi] obtain q1 where
    q1: "py_div (bytes_sent b - bytes_sent a) (float_sub now t0) = Inr (Finite q1)"
      "\<bar>q1 - of_int (bytes_sent b - bytes_sent a) / (now - t0)\<bar>
         \<le> \<bar>of_int (bytes_sent b - bytes_sent a) / (now - t0)\<bar> / 2 ^ 50"
      "int_of_float (Finite q1) = Inr (py_int q1)"
      "\<bar>of_int (py_int q1) - q1\<bar> < 1" "\<bar>of_int (py_int q1) :: rat\<bar> \<le> \<bar>q1\<bar>"
    by blast
  from byte_rate_field [OF a(4) b(4) lo hi] obtain q2 where
    q2: "py_div (bytes_recv b - bytes_recv a) (float_sub now t0) = Inr (Finite q2)"
      "\<bar>q2 - of_int (bytes_recv b - bytes_recv a) / (now - t0)\<bar>
         \<le> \<bar>of_int (bytes_recv b - bytes_recv a) / (now - t0)\<bar> / 2 ^ 50"
      "int_of_float (Finite q2) = Inr (py_int q2)"
      "\<bar>of_int (py_int q2) - q2\<bar> < 1" "\<bar>of_int (py_int q2) :: rat\<bar> \<le> \<bar>q2\<bar>"
    by blast
  from fraction_rate_field [OF a(1) b(1) lo hi] obtain q3 n3 y3 where
    q3: "py_div (packets_sent b - packets_sent a) (float_sub now t0) = Inr (Finite q3)"
      "\<bar>q3 - of_int (packets_sent b - packets_sent a) / (now - t0)\<bar>
         \<le> \<bar>of_int (packets_sent b - packets_sent a) / (now - t0)\<bar> / 2 ^ 50"
      "py_round2 (Finite q3) = Finite y3"
      "binary64 (of_int n3 / 100) = Finite y3"
      "\<bar>of_int n3 / 100 - q3\<bar> \<le> 1 / 200"
      "\<bar>y3 - of_int n3 / 100\<bar> \<le> \<bar>of_int n3 / 100\<bar> / 2 ^ 53"
    by blast
  from fraction_rate_field [OF a(2) b(2) lo hi] obtain q4 n4 y4 where
    q4: "py_div (packets_recv b - packets_recv a) (float_sub now t0) = Inr (Finite q4)"
      "\<bar>q4 - of_int (packets_recv b - packets_recv a) / (now - t0)\<bar>
         \<le> \<bar>of_int (packets_recv b - packets_recv a) / (now - t0)\<bar> / 2 ^ 50"
      "py_round2 (Finite q4) = Finite y4"
      "binary64 (of_int n4 / 100) = Finite y4"
      "\<bar>of_int n4 / 100 - q4\<bar> \<le> 1 / 200"
      "\<bar>y4 - of_int n4 / 100\<bar> \<le> \<bar>of_int n4 / 100\<bar> / 2 ^ 53"
    by blast
  define e where "e = \<lparr>out_bytes_sent = bytes_sent b, out_bytes_recv = bytes_recv b,
     out_packets_sent = packets_sent b, out_packets_recv = packets_recv b,
     bytes_sent_per_sec = py_int q1, bytes_recv_per_sec = py_int q2,
     packets_sent_per_sec = Finite y3, packets_recv_per_sec = Finite y4,
     out_errin = errin b, out_errout = errout b,
     out_dropin = dropin b, out_dropout = dropout b\<rparr>"
  have e: "network_rate_entry a b (float_sub now t0) = Inr e"
    by (simp add: network_rate_entry_def q1(1,3) q2(1,3) q3(1,3) q4(1,3) e_def)
  have c: "out_bytes_sent e = bytes_sent b \<and> out_bytes_recv e = bytes_recv b
     \<and> out_packets_sent e = packets_sent b \<and> out_packets_recv e = packets_recv b
     \<and> out_errin e = errin b \<and> out_errout e = errout b
     \<and> out_dropin e = dropin b \<and> out_dropout e = dropout b"
    by (simp add: e_def)
  have r1: "\<exists>q. py_div (bytes_sent b - bytes_sent a) (float_sub now t0) = Inr (Finite q)
            \<and> \<bar>q - of_int (bytes_sent b - bytes_sent a) / (now - t0)\<bar>
                \<le> \<bar>of_int (bytes_sent b - bytes_sent a) / (now - t0)\<bar> / 2 ^ 50
            \<and> bytes_sent_per_sec e = py_int q
            \<and> \<bar>of_int (bytes_sent_per_sec e) - q\<bar> < 1 \<and> \<bar>of_int (bytes_sent_per_sec e) :: rat\<bar> \<le> \<bar>q\<bar>"
    using q1 by (intro exI [of _ q1]) (simp add: e_def)
  have r2: "\<exists>q. py_div (bytes_recv b - bytes_recv a) (float_sub now t0) = Inr (Finite q)
            \<and> \<bar>q - of_int (bytes_recv b - bytes_recv a) / (now - t0)\<bar>
                \<le> \<bar>of_int (bytes_recv b - bytes_recv a) / (now - t0)\<bar> / 2 ^ 50
            \<and> bytes_recv_per_sec e = py_int q
            \<and> \<bar>of_int (bytes_recv_per_sec e) - q\<bar> < 1 \<and> \<bar>of_int (bytes_recv_per_sec e) :: rat\<bar> \<le> \<bar>q\<bar>"
    using q2 by (intro exI [of _ q2]) (simp add: e_def)
  have r3: "\<exists>q n y. py_div (packets_sent b - packets_sent a) (float_sub now t0) = Inr (Finite q)
            \<and> \<bar>q - of_int (packets_sent b - packets_sent a) / (now - t0)\<bar>
                \<le> \<bar>of_int (packets_sent b - packets_sent a) / (now - t0)\<bar> / 2 ^ 50
            \<and> packets_sent_per_sec e = Finite y
            \<and> binary64 (of_int n / 100) = Finite y
            \<and> \<bar>of_int n / 100 - q\<bar> \<le> 1 / 200
            \<and> \<bar>y - of_int n / 100\<bar> \<le> \<bar>of_int n / 100\<bar> / 2 ^ 53"
    using q3 by (intro exI [of _ q3] exI [of _ n3] exI [of _ y3]) (simp add: e_def)
  have r4: "\<exists>q n y. py_div (packets_recv b - packets_recv a) (float_sub now t0) = Inr (Finite q)
            \<and> \<bar>q - of_int (packets_recv b - packets_recv a) / (now - t0)\<bar>
                \<le> \<bar>of_int (packets_recv b - packets_recv a) / (now - t0)\<bar> / 2 ^ 50
            \<and> packets_recv_per_sec e = Finite y
            \<and> binary64 (of_int n / 100) = Finite y
            \<and> \<bar>of_int n / 100 - q\<bar> \<le> 1 / 200
            \<and> \<bar>y - of_int n / 100\<bar> \<le> \<bar>of_int n / 100\<bar> / 2 ^ 53"
    using q4 by (intro exI [of _ q4] exI [of _ n4] exI [of _ y4]) (simp add: e_def)
  from e c r1 r2 r3 r4 show ?thesis
    by (intro exI [of _ e]) (simp only: ball_simps split_conv simp_thms)
qed

subsection \<open>The loops of the disk collector\<close>

lemma disk_rate_loop_returns:
  assumes "\<forall>(k, b) \<in> set cs. \<forall>a. map_of lc k = Some a \<longrightarrow> (\<exists>v. disk_rate_entry a b td = Inr v)"
    and "distinct (map fst cs)"
  shows "\<exists>out. disk_rate_loop lc td cs acc = Inr out \<and>
           (\<forall>k. map_of out k =
              (case map_of cs k of
                 None \<Rightarrow> map_of acc k
               | Some b \<Rightarrow>
                   (case map_of lc k of
                      None \<Rightarrow> map_of acc k
                    | Some a \<Rightarrow> (case disk_rate_entry a b td of Inl e \<Rightarrow> None | Inr v \<Rightarrow> Some v))))"
  using assms
proof (induction cs arbitrary: acc)
  case Nil
  then show ?case by simp
next
  case (Cons c cs)
  obtain k0 b0 where c: "c = (k0, b0)" by (cases c)
  from Cons.prems c have d: "distinct (map fst cs)" and n: "map_of cs k0 = None"
    by (auto simp: map_of_eq_None_iff)
  from Cons.prems(1) have ok:
    "\<forall>(k, b) \<in> set cs. \<forall>a. map_of lc k = Some a \<longrightarrow> (\<exists>v. disk_rate_entry a b td = Inr v)"
    by simp
  show ?case
  proof (cases "map_of lc k0")
    case None
    from Cons.IH [OF ok d, of acc] obtain out where
      o: "disk_rate_loop lc td cs acc = Inr out" and
      m: "\<And>k. map_of out k =
              (case map_of cs k of
                 None \<Rightarrow> map_of acc k
               | Some b \<Rightarrow>
                   (case map_of lc k of
                      None \<Rightarrow> map_of acc k
                    | Some a \<Rightarrow> (case disk_rate_entry a b td of Inl e \<Rightarrow> None | Inr v \<Rightarrow> Some v)))"
      by blast
    show ?thesis
      using o None n by (auto simp: c m)
  next
    case (Some a0)
    with Cons.prems(1) c obtain v0 where v: "disk_rate_entry a0 b0 td = Inr v0"
      by auto
    from Cons.IH [OF ok d, of "AList.update k0 v0 acc"] obtain out where
      o: "disk_rate_loop lc td cs (AList.update k0 v0 acc) = Inr out" and
      m: "\<And>k. map_of out k =
              (case map_of cs k of
                 None \<Rightarrow> map_of (AList.update k0 v0 acc) k
               | Some b \<Rightarrow>
                   (case map_of lc k of
                      None \<Rightarrow> map_of (AList.update k0 v0 acc) k
                    | Some a \<Rightarrow> (case disk_rate_entry a b td of Inl e \<Rightarrow> None | Inr v \<Rightarrow> Some v)))"
      by blast
    show ?thesis
      using o Some v n by (auto simp: c m update_conv' split: option.splits)
  qed
qed

lemma disk_rate_loop_total:
  assumes "\<forall>(k, b) \<in> set cs. \<forall>a. map_of lc k = Some a \<longrightarrow> (\<exists>v. disk_rate_entry a b td = Inr v)"
  shows "\<exists>out. disk_rate_loop lc td cs acc = Inr out"
  using assms
proof (induction cs arbitrary: acc)
  case Nil
  then show ?case by simp
next
  case (Cons c cs)
  obtain k0 b0 where c: "c = (k0, b0)" by (cases c)
  from Cons.prems have ok:
    "\<forall>(k, b) \<in> set cs. \<forall>a. map_of lc k = Some a \<longrightarrow> (\<exists>v. disk_rate_entry a b td = Inr v)"
    by simp
  show ?case
  proof (cases "map_of lc k0")
    case None
    with Cons.IH [OF ok, of acc] show ?thesis by (simp add: c)
  next
    case (Some a0)
    with Cons.prems c obtain v0 where "disk_rate_entry a0 b0 td = Inr v0" by auto
    with Some Cons.IH [OF ok, of "AList.update k0 v0 acc"] show ?thesis by (simp add: c)
  qed
qed

lemma disk_rate_loop_new_key:
  "map_of lc k = None \<Longrightarrow> disk_rate_loop lc dt cs acc = Inr out \<Longrightarrow> map_of out k = map_of acc k"
proof (induction cs arbitrary: acc)
  case Nil
  then show ?case by simp
next
  case (Cons c cs)
  obtain k0 b0 where c: "c = (k0, b0)" by (cases c)
  show ?case
  proof (cases "map_of lc k0")
    case None
    with Cons.prems c have "disk_rate_loop lc dt cs acc = Inr out" by simp
    from Cons.IH [OF Cons.prems(1) this] show ?thesis .
  next
    case (Some a0)
    with Cons.prems(1) have ne: "k0 \<noteq> k" by auto
    from Cons.prems(2) c Some obtain v0 where
      "disk_rate_loop lc dt cs (AList.update k0 v0 acc) = Inr out"
      by (auto split: sum.splits)
    from Cons.IH [OF Cons.prems(1) this] ne show ?thesis
      by (simp add: update_conv')
  qed
qed

lemma disk_rate_loop_all_new:
  "\<forall>k \<in> fst ` set cs. map_of lc k = None \<Longrightarrow> disk_rate_loop lc dt cs acc = Inr acc"
  by (induction cs arbitrary: acc) auto

subsection \<open>The loops of the network collector\<close>

lemma network_rate_loop_loopback:
  "startswith k ''lo'' \<Longrightarrow> network_rate_loop lc dt cs acc = Inr out \<Longrightarrow>
     map_of out k = map_of acc k"
proof (induction cs arbitrary: acc)
  case Nil
  then show ?case by simp
next
  case (Cons c cs)
  obtain k0 b0 where c: "c = (k0, b0)" by (cases c)
  show ?case
  proof (cases "startswith k0 ''lo'' \<or> map_of lc k0 = None")
    case True
    with Cons.prems c have "network_rate_loop lc dt cs acc = Inr out"
      by (auto split: if_splits)
    from Cons.IH [OF Cons.prems(1) this] show ?thesis .
  next
    case False
    with Cons.prems(1) have ne: "k0 \<noteq> k" by auto
    from Cons.prems(2) c False obtain v0 where
      "network_rate_loop lc dt cs (AList.update k0 v0 acc) = Inr out"
      by (auto split: sum.splits)
    from Cons.IH [OF Cons.prems(1) this] ne show ?thesis
      by (simp add: update_conv')
  qed
qed

lemma network_first_loop_loopback:
  "startswith k ''lo'' \<Longrightarrow> map_of (network_first_loop cs acc) k = map_of acc k"
proof (induction cs arbitrary: acc)
  case Nil
  then show ?case by simp
next
  case (Cons c cs)
  obtain k0 b0 where c: "c = (k0, b0)" by (cases c)
  show ?case
  proof (cases "startswith k0 ''lo''")
    case True
    with Cons c show ?thesis by simp
  next
    case False
    with Cons.prems have ne: "k0 \<noteq> k" by auto
    from Cons.IH [OF Cons.prems, of "AList.update k0 (network_first_entry b0) acc"] False c ne
    show ?thesis by (simp add: update_conv')
  qed
qed

lemma network_rate_loop_new_key:
  "map_of lc k = None \<Longrightarrow> network_rate_loop lc dt cs acc = Inr out \<Longrightarrow>
     map_of out k = map_of acc k"
proof (induction cs arbitrary: acc)
  case Nil
  then show ?case by simp
next
  case (Cons c cs)
  obtain k0 b0 where c: "c = (k0, b0)" by (cases c)
  show ?case
  proof (cases "startswith k0 ''lo'' \<or> map_of lc k0 = None")
    case True
    with Cons.prems c have "network_rate_loop lc dt cs acc = Inr out"
      by (auto split: if_splits)
    from Cons.IH [OF Cons.prems(1) this] show ?thesis .
  next
    case False
    with Cons.prems(1) have ne: "k0 \<noteq> k" by auto
    from Cons.prems(2) c False obtain v0 where
      "network_rate_loop lc dt cs (AList.update k0 v0 acc) = Inr out"
      by (auto split: sum.splits)
    from Cons.IH [OF Cons.prems(1) this] ne show ?thesis
      by (simp add: update_conv')
  qed
qed

lemma network_rate_loop_all_new:
  "\<forall>k \<in> fst ` set cs. map_of lc k = None \<Longrightarrow> network_rate_loop lc dt cs acc = Inr acc"
  by (induction cs arbitrary: acc) auto

lemma network_rate_loop_returns:
  assumes "\<forall>(k, b) \<in> set cs. \<forall>a. map_of lc k = Some a \<longrightarrow> (\<exists>v. network_rate_entry a b td = Inr v)"
    and "distinct (map fst cs)"
  shows "\<exists>out. network_rate_loop lc td cs acc = Inr out \<and>
           (\<forall>k. map_of out k =
              (if startswith k ''lo'' then map_of acc k
               else (case map_of cs k of
                       None \<Rightarrow> map_of acc k
                     | Some b \<Rightarrow>
                         (case map_of lc k of
                            None \<Rightarrow> map_of acc k
                          | Some a \<Rightarrow> (case network_rate_entry a b td of
                                        Inl e \<Rightarrow> None | Inr v \<Rightarrow> Some v)))))"
  using assms
proof (induction cs arbitrary: acc)
  case Nil
  then show ?case by simp
next
  case (Cons c cs)
  obtain k0 b0 where c: "c = (k0, b0)" by (cases c)
  from Cons.prems c have d: "distinct (map fst cs)" and n: "map_of cs k0 = None"
    by (auto simp: map_of_eq_None_iff)
  from Cons.prems(1) have ok:
    "\<forall>(k, b) \<in> set cs. \<forall>a. map_of lc k = Some a \<longrightarrow> (\<exists>v. network_rate_entry a b td = Inr v)"
    by simp
  show ?case
  proof (cases "startswith k0 ''lo'' \<or> map_of lc k0 = None")
    case True
    from Cons.IH [OF ok d, of acc] obtain out where
      o: "network_rate_loop lc td cs acc = Inr out" and
      m: "\<And>k. map_of out k =
              (if startswith k ''lo'' then map_of acc k
               else (case map_of cs k of
                       None \<Rightarrow> map_of acc k
                     | Some b \<Rightarrow>
                         (case map_of lc k of
                            None \<Rightarrow> map_of acc k
                          | Some a \<Rightarrow> (case network_rate_entry a b td of
                                        Inl e \<Rightarrow> None | Inr v \<Rightarrow> Some v))))"
      by blast
    show ?thesis
      using o True n by (auto simp: c m)
  next
    case False
    then obtain a0 where lo: "\<not> startswith k0 ''lo''" and a0: "map_of lc k0 = Some a0"
      by auto
    with Cons.prems(1) c obtain v0 where v: "network_rate_entry a0 b0 td = Inr v0"
      by auto
    from Cons.IH [OF ok d, of "AList.update k0 v0 acc"] obtain out where
      o: "network_rate_loop lc td cs (AList.update k0 v0 acc) = Inr out" and
      m: "\<And>k. map_of out k =
              (if startswith k ''lo'' then map_of (AList.update k0 v0 acc) k
               else (case map_of cs k of
                       None \<Rightarrow> map_of (AList.update k0 v0 acc) k
                     | Some b \<Rightarrow>
                         (case map_of lc k of
                            None \<Rightarrow> map_of (AList.update k0 v0 acc) k
                          | Some a \<Rightarrow> (case network_rate_entry a b td of
                                        Inl e \<Rightarrow> None | Inr v \<Rightarrow> Some v))))"
      by blast
    show ?thesis
      using o lo a0 v n by (auto simp: c m update_conv' split: option.splits)
  qed
qed

lemma network_rate_loop_total:
  assumes "\<forall>(k, b) \<in> set cs. \<forall>a. map_of lc k = Some a \<longrightarrow> (\<exists>v. network_rate_entry a b td = Inr v)"
  shows "\<exists>out. network_rate_loop lc td cs acc = Inr out"
  using assms
proof (induction cs arbitrary: acc)
  case Nil
  then show ?case by simp
next
  case (Cons c cs)
  obtain k0 b0 where c: "c = (k0, b0)" by (cases c)
  from Cons.prems have ok:
    "\<forall>(k, b) \<in> set cs. \<forall>a. map_of lc k = Some a \<longrightarrow> (\<exists>v. network_rate_entry a b td = Inr v)"
    by simp
  show ?case
  proof (cases "startswith k0 ''lo'' \<or> map_of lc k0 = None")
    case True
    with Cons.IH [OF ok, of acc] show ?thesis by (auto simp: c)
  next
    case False
    then obtain a0 where lo: "\<not> startswith k0 ''lo''" and a0: "map_of lc k0 = Some a0"
      by auto
    with Cons.prems c obtain v0 where "network_rate_entry a0 b0 td = Inr v0" by auto
    with lo a0 Cons.IH [OF ok, of "AList.update k0 v0 acc"] show ?thesis by (simp add: c)
  qed
qed

subsection \<open>One call of collect\<close>

lemma previous_sample_Some:
  "last_counters self = Some lc \<Longrightarrow> lc \<noteq> [] \<Longrightarrow> last_time self = Some t0 \<Longrightarrow> t0 \<noteq> 0
     \<Longrightarrow> previous_sample self = Some (lc, t0)"
  by (simp add: previous_sample_def)

lemma disk_entries_return:
  assumes lo: "2 powi (- 64) \<le> \<bar>now - t0\<bar>" and hi: "\<bar>now - t0\<bar> \<le> 2 ^ 64"
    and range: "\<forall>(k, c) \<in> set lc \<union> set counters. \<forall>v \<in> set (sdiskio_values c). 0 \<le> v \<and> v < 2 ^ 64"
  shows "\<forall>(k, b) \<in> set counters. \<forall>a. map_of lc k = Some a \<longrightarrow>
           (\<exists>v. disk_rate_entry a b (float_sub now t0) = Inr v)"
proof (intro ballI, clarify)
  fix k b a
  assume "(k, b) \<in> set counters" and "map_of lc k = Some a"
  then have "(k, a) \<in> set lc \<union> set counters" and "(k, b) \<in> set lc \<union> set counters"
    by (auto dest: map_of_SomeD)
  with range have "\<forall>v \<in> set (sdiskio_values a). 0 \<le> v \<and> v < 2 ^ 64"
    and "\<forall>v \<in> set (sdiskio_values b). 0 \<le> v \<and> v < 2 ^ 64"
    by blast+
  from disk_rate_entry_rates [OF this lo hi]
  show "\<exists>v. disk_rate_entry a b (float_sub now t0) = Inr v" by blast
qed

lemma DiskIOCollector_collect_entry:
  assumes "last_counters self = Some lc" and "last_time self = Some t0" and "t0 \<noteq> 0"
    and lo: "2 powi (- 64) \<le> \<bar>now - t0\<bar>" and hi: "\<bar>now - t0\<bar> \<le> 2 ^ 64"
    and range: "\<forall>(k, c) \<in> set lc \<union> set counters. \<forall>v \<in> set (sdiskio_values c). 0 \<le> v \<and> v < 2 ^ 64"
    and "distinct (map fst counters)"
    and "map_of lc disk = Some a" and "map_of counters disk = Some b"
  shows "\<exists>io_data e.
           DiskIOCollector_collect now counters self
             = (Inr io_data, self\<lparr>last_counters := Some counters, last_time := Some now\<rparr>)
         \<and> map_of io_data disk = Some e
         \<and> disk_rate_entry a b (float_sub now t0) = Inr e"
proof -
  from assms(8) have lc: "lc \<noteq> []" by auto
  from assms(9) have cs: "counters \<noteq> []" by auto
  have p: "previous_sample self = Some (lc, t0)"
    using assms(1) lc assms(2,3) by (rule previous_sample_Some)
  note ok = disk_entries_return [OF lo hi range]
  from disk_rate_loop_returns [OF ok assms(7), of "[]"] obtain out where
    o: "disk_rate_loop lc (float_sub now t0) counters [] = Inr out" and
    m: "\<And>k. map_of out k =
              (case map_of counters k of
                 None \<Rightarrow> map_of [] k
               | Some b \<Rightarrow>
                   (case map_of lc k of
                      None \<Rightarrow> map_of [] k
                    | Some a \<Rightarrow> (case disk_rate_entry a b (float_sub now t0) of
                                  Inl e \<Rightarrow> None | Inr v \<Rightarrow> Some v)))"
    by blast
  from assms(9) have "(disk, b) \<in> set counters" by (rule map_of_SomeD)
  with ok assms(8) obtain e where e: "disk_rate_entry a b (float_sub now t0) = Inr e"
    by blast
  have "DiskIOCollector_collect now counters self
          = (Inr out, self\<lparr>last_counters := Some counters, last_time := Some now\<rparr>)"
    using cs p o by (simp add: DiskIOCollector_collect_def store_sample_def)
  moreover have "map_of out disk = Some e"
    using assms(8,9) by (simp add: m e)
  ultimately show ?thesis using e by blast
qed

lemma DiskIOCollector_collect_returns:
  assumes lo: "2 powi (- 64) \<le> \<bar>now - t0\<bar>" and hi: "\<bar>now - t0\<bar> \<le> 2 ^ 64"
    and range: "\<forall>(k, c) \<in> set lc \<union> set counters. \<forall>v \<in> set (sdiskio_values c). 0 \<le> v \<and> v < 2 ^ 64"
    and "last_counters self = Some lc" and "last_time self = Some t0"
  shows "\<exists>io_data. fst (DiskIOCollector_collect now counters self) = Inr io_data"
proof -
  note ok = disk_entries_return [OF lo hi range]
  from disk_rate_loop_total [OF ok, of "[]"] obtain out where
    "disk_rate_loop lc (float_sub now t0) counters [] = Inr out" by blast
  then show ?thesis
    using assms(4,5)
    by (auto simp: DiskIOCollector_collect_def previous_sample_def split: option.splits)
qed

lemma network_entries_return:
  assumes lo: "2 powi (- 64) \<le> \<bar>now - t0\<bar>" and hi: "\<bar>now - t0\<bar> \<le> 2 ^ 64"
    and range: "\<forall>(k, c) \<in> set lc \<union> set counters. \<forall>v \<in> set (snetio_values c). 0 \<le> v \<and> v < 2 ^ 64"
  shows "\<forall>(k, b) \<in> set counters. \<forall>a. map_of lc k = Some a \<longrightarrow>
           (\<exists>v. network_rate_entry a b (float_sub now t0) = Inr v)"
proof (intro ballI, clarify)
  fix k b a
  assume "(k, b) \<in> set counters" and "map_of lc k = Some a"
  then have "(k, a) \<in> set lc \<union> set counters" and "(k, b) \<in> set lc \<union> set counters"
    by (auto dest: map_of_SomeD)
  with range have "\<forall>v \<in> set (snetio_values a). 0 \<le> v \<and> v < 2 ^ 64"
    and "\<forall>v \<in> set (snetio_values b). 0 \<le> v \<and> v < 2 ^ 64"
    by blast+
  from network_rate_entry_rates [OF this lo hi]
  show "\<exists>v. network_rate_entry a b (float_sub now t0) = Inr v" by blast
qed

lemma NetworkCollector_collect_entry:
  assumes "last_counters self = Some lc" and "last_time self = Some t0" and "t0 \<noteq> 0"
    and lo: "2 powi (- 64) \<le> \<bar>now - t0\<bar>" and hi: "\<bar>now - t0\<bar> \<le> 2 ^ 64"
    and range: "\<forall>(k, c) \<in> set lc \<union> set counters. \<forall>v \<in> set (snetio_values c). 0 \<le> v \<and> v < 2 ^ 64"
    and "distinct (map fst counters)"
    and "map_of lc interface = Some a" and "map_of counters interface = Some b"
    and "\<not> startswith interface ''lo''"
  shows "\<exists>network_data e.
           NetworkCollector_collect now counters self
             = (Inr network_data, self\<lparr>last_counters := Some counters, last_time := Some now\<rparr>)
         \<and> map_of network_data interface = Some e
         \<and> network_rate_entry a b (float_sub now t0) = Inr e"
proof -
  from assms(8) have lc: "lc \<noteq> []" by auto
  have p: "previous_sample self = Some (lc, t0)"
    using assms(1) lc assms(2,3) by (rule previous_sample_Some)
  note ok = network_entries_return [OF lo hi range]
  from network_rate_loop_returns [OF ok assms(7), of "[]"] obtain out where
    o: "network_rate_loop lc (float_sub now t0) counters [] = Inr out" and
    m: "\<And>k. map_of out k =
              (if startswith k ''lo'' then map_of [] k
               else (case map_of counters k of
                       None \<Rightarrow> map_of [] k
                     | Some b \<Rightarrow>
                         (case map_of lc k of
                            None \<Rightarrow> map_of [] k
                          | Some a \<Rightarrow> (case network_rate_entry a b (float_sub now t0) of
                                        Inl e \<Rightarrow> None | Inr v \<Rightarrow> Some v))))"
    by blast
  from assms(9) have "(interface, b) \<in> set counters" by (rule map_of_SomeD)
  with ok assms(8) obtain e where e: "network_rate_entry a b (float_sub now t0) = Inr e"
    by blast
  have "NetworkCollector_collect now counters self
          = (Inr out, self\<lparr>last_counters := Some counters, last_time := Some now\<rparr>)"
    using p o by (simp add: NetworkCollector_collect_def store_sample_def)
  moreover have "map_of out interface = Some e"
    using assms(8,9,10) by (simp add: m e)
  ultimately show ?thesis using e by blast
qed

lemma NetworkCollector_collect_returns:
  assumes lo: "2 powi (- 64) \<le> \<bar>now - t0\<bar>" and hi: "\<bar>now - t0\<bar> \<le> 2 ^ 64"
    and range: "\<forall>(k, c) \<in> set lc \<union> set counters. \<forall>v \<in> set (snetio_values c). 0 \<le> v \<and> v < 2 ^ 64"
    and "last_counters self = Some lc" and "last_time self = Some t0"
  shows "\<exists>network_data. fst (NetworkCollector_collect now counters self) = Inr network_data"
proof -
  note ok = network_entries_return [OF lo hi range]
  from network_rate_loop_total [OF ok, of "[]"] obtain out where
    "network_rate_loop lc (float_sub now t0) counters [] = Inr out" by blast
  then show ?thesis
    using assms(4,5)
    by (auto simp: NetworkCollector_collect_def previous_sample_def split: option.splits)
qed

text \<open>The definitions that evaluate one call of \<^verbatim>\<open>collect\<close> on given counters.\<close>

lemmas collect_eval =
  DiskIOCollector_collect_def NetworkCollector_collect_def collector_init_def
  previous_sample_def store_sample_def disk_rate_entry_def network_rate_entry_def
  disk_first_entry_def network_first_entry_def py_div_def float_of_int_def float_sub_def
  int_of_float_def py_round2_def py_int_def round_half_even_def startswith_def Let_def

section \<open>Properties of the remote configuration\<close>

text \<open>
  Claim C3. A fetch that returns status 200 with threshold version \<open>v\<close> and threshold set
  \<open>T\<close>: when \<open>v\<close> is greater than the held version, the held set becomes exactly \<open>T\<close> and
  the held version becomes \<open>v\<close>; otherwise the held set and version stay as they are. A
  second fetch with the same version \<open>v\<close> and another set \<open>T'\<close> changes neither, so the
  held set is still \<open>T\<close> when the first fetch was taken.
\<close>

theorem fetch_remote_config_version_gate:
  fixes self :: "'d agent"
  assumes "json_threshold_version config = Some v" and "json_thresholds config = Some T"
    and "json_threshold_version config' = Some v" and "json_thresholds config' = Some T'"
  defines "self1 \<equiv> fetch_remote_config (GetResponse 200 (Some config)) self"
  defines "self2 \<equiv> fetch_remote_config (GetResponse 200 (Some config')) self1"
  shows "(threshold_version self < v \<longrightarrow>
            remote_thresholds self1 = T \<and> threshold_version self1 = v
          \<and> remote_thresholds self2 = T \<and> threshold_version self2 = v)
       \<and> (v \<le> threshold_version self \<longrightarrow>
            remote_thresholds self1 = remote_thresholds self
          \<and> threshold_version self1 = threshold_version self)
       \<and> remote_thresholds self2 = remote_thresholds self1
       \<and> threshold_version self2 = threshold_version self1"
  using assms(1-4) unfolding self1_def self2_def
  by (simp add: fetch_remote_config_def dict_get_def Let_def)

theorem fetch_remote_config_version_gate_witness:
  "remote_thresholds
     (fetch_remote_config
        (GetResponse 200 (Some \<lparr>json_threshold_version = Some 2,
                                 json_thresholds = Some [(''cpu'', 99)],
                                 json_check_interval = None\<rparr>))
        (fetch_remote_config
           (GetResponse 200 (Some \<lparr>json_threshold_version = Some 2,
                                    json_thresholds = Some [(''cpu'', 50)],
                                    json_check_interval = None\<rparr>))
           ((agent_init ''host'' [(''cpu_threshold'', 80)] :: unit agent)
              \<lparr>threshold_version := 1, remote_thresholds := [(''memory'', 70)]\<rparr>)))
   = [(''cpu'', 50)]"
proof -
  let ?c = "\<lparr>json_threshold_version = Some 2, json_thresholds = Some [(''cpu'', 50)],
             json_check_interval = None\<rparr>"
  let ?c' = "\<lparr>json_threshold_version = Some 2, json_thresholds = Some [(''cpu'', 99)],
              json_check_interval = None\<rparr>"
  let ?a = "(agent_init ''host'' [(''cpu_threshold'', 80)] :: unit agent)
              \<lparr>threshold_version := 1, remote_thresholds := [(''memory'', 70)]\<rparr>"
  have "threshold_version ?a < 2" by (simp add: agent_init_def)
  with fetch_remote_config_version_gate
         [of ?c 2 "[(''cpu'', 50)]" ?c' "[(''cpu'', 99)]" ?a]
  show ?thesis by simp
qed




section \<open>Properties of the snapshot\<close>

text \<open>
  Claim C9. In a snapshot built by \<^verbatim>\<open>collect_metrics\<close> the source of the active
  thresholds is \<^verbatim>\<open>remote\<close> exactly when the held remote threshold set is not empty,
  whatever its keys are, and \<^verbatim>\<open>local\<close> exactly when it is empty.
\<close>

theorem collect_metrics_source:
  fixes self :: "'d agent" and now now' boot_time :: rat and version :: string
    and results :: "(string \<times> (string + 'd)) list"
  defines "src \<equiv> at_source (active (collect_metrics self now now' boot_time version results))"
  shows "(src = ''remote'') = (remote_thresholds self \<noteq> [])
       \<and> (src = ''local'') = (remote_thresholds self = [])"
  unfolding src_def by (simp add: collect_metrics_def)

section \<open>Properties of the reporting path\<close>



lemmas agent_eval = report_metrics_def delivery_fails_def raise_for_status_def agent_init_def
  MetricBuffer_init_def default_max_size_def add_def deque_append_def get_all_def size_buf_def
  collect_metrics_def get_threshold_def dict_get_def py_int_def Let_def

text \<open>
  Claim C4. When the delivery of a snapshot fails, the counter of consecutive failures
  goes up by one; the snapshot is added to the buffer if and only if the counter now is
  below 5, and is dropped otherwise, the buffer staying as it was. So once the counter
  has reached 5, a further failed snapshot is not buffered.
\<close>

theorem report_metrics_failure:
  fixes self :: "'d agent" and post :: "nat \<Rightarrow> post_outcome" and m :: "'d metrics"
  assumes "delivery_fails (post 0)" and "max_consecutive_failures self = 5"
  defines "self1 \<equiv> fst (report_metrics post m self)"
  shows "consecutive_failures self1 = consecutive_failures self + 1
       \<and> (consecutive_failures self1 < 5 \<longrightarrow>
            metric_buffer self1 = add (metric_buffer self) m)
       \<and> (5 \<le> consecutive_failures self1 \<longrightarrow> metric_buffer self1 = metric_buffer self)
       \<and> (5 \<le> consecutive_failures self \<longrightarrow> metric_buffer self1 = metric_buffer self)"
  using assms(1,2) unfolding self1_def
  by (simp add: report_metrics_def Let_def)

theorem report_metrics_failure_witness:
  "delivery_fails PostRaises
   \<and> consecutive_failures
        (report_cycles
           (map (\<lambda>t. (\<lambda>_. PostRaises, collect_metrics (agent_init ''host'' []) t t 0 ''1.2.7'' []))
              [1, 2, 3, 4, 5])
           (agent_init ''host'' [] :: unit agent)) = 5
   \<and> map timestamp (buffer (metric_buffer (fst
        (report_metrics (\<lambda>_. PostRaises)
           (collect_metrics (agent_init ''host'' []) 6 6 0 ''1.2.7'' [])
           (report_cycles
              (map (\<lambda>t. (\<lambda>_. PostRaises, collect_metrics (agent_init ''host'' []) t t 0 ''1.2.7'' []))
                 [1, 2, 3, 4, 5])
              (agent_init ''host'' [] :: unit agent)))))) = [1, 2, 3, 4]"
proof -
  let ?snap = "\<lambda>t. collect_metrics (agent_init ''host'' [] :: unit agent) t t 0 ''1.2.7'' []"
  let ?a5 = "report_cycles (map (\<lambda>t. (\<lambda>_. PostRaises, ?snap t)) [1, 2, 3, 4, 5])
               (agent_init ''host'' [] :: unit agent)"
  have f: "delivery_fails ((\<lambda>_. PostRaises) (0::nat))" by (simp add: delivery_fails_def)
  have c: "consecutive_failures ?a5 = 5" by (simp add: agent_eval)
  have m: "max_consecutive_failures ?a5 = 5" by (simp add: agent_eval)
  have b: "map timestamp (buffer (metric_buffer ?a5)) = [1, 2, 3, 4]" by (simp add: agent_eval)
  from report_metrics_failure [where post = "\<lambda>_. PostRaises" and m = "?snap 6" and self = ?a5] f m c
  have "metric_buffer (fst (report_metrics (\<lambda>_. PostRaises) (?snap 6) ?a5)) = metric_buffer ?a5"
    by simp
  with b c f show ?thesis by simp
qed




section \<open>Rates over an interval\<close>

text \<open>
  Claim C1, as the code has it. A collector holds a previous sample with counters \<open>a\<close>
  taken at a time \<open>t0\<close> other than 0 (the test on \<^verbatim>\<open>self.last_time\<close> takes the time 0.0
  for no previous sample), and is given counters \<open>b\<close> at a time \<open>now\<close> that is later by
  at least \<open>2\<^sup>-\<^sup>6\<^sup>4\<close> and at most \<open>2\<^sup>6\<^sup>4\<close> seconds; every counter of both samples is at
  least 0 and below \<open>2\<^sup>6\<^sup>4\<close>. Then the update returns, and the stored sample is
  overwritten with \<open>b\<close> and \<open>now\<close>. For every disk present in both samples, and for
  every interface present in both whose name does not start with \<^verbatim>\<open>lo\<close>, the returned
  entry holds the raw counters of \<open>b\<close> and the rates, computed in floating point: the
  quotient \<open>q\<close> of the code is a float within the relative error \<open>2\<^sup>-\<^sup>5\<^sup>0\<close> of
  \<open>(b - a) / (now - t0)\<close>. A byte rate is \<open>q\<close> cut to a whole number by \<^verbatim>\<open>int\<close>, which
  drops the fraction: less than one unit away from \<open>q\<close> and never farther from zero than
  it. A rate of operations or of packets is \<^verbatim>\<open>round(q, 2)\<close>: the float nearest to a
  number \<open>n / 100\<close> of two decimal places that is within 1/200 of \<open>q\<close>. The keys of the
  current counters are distinct, as those of a dictionary are.
\<close>

theorem collect_rates_positive_interval:
  fixes dself :: "sdiskio rate_collector" and nself :: "snetio rate_collector"
  assumes "t0 \<noteq> 0" and "2 powi (- 64) \<le> now - t0" and "now - t0 \<le> 2 ^ 64"
  shows
    "(last_counters dself = Some dlc \<and> last_time dself = Some t0
        \<and> (\<forall>(k, c) \<in> set dlc \<union> set dcounters.
              \<forall>v \<in> set (sdiskio_values c). 0 \<le> v \<and> v < 2 ^ 64)
        \<and> distinct (map fst dcounters)
        \<and> map_of dlc disk = Some a \<and> map_of dcounters disk = Some b \<longrightarrow>
        (\<exists>io_data e.
           DiskIOCollector_collect now dcounters dself
             = (Inr io_data, dself\<lparr>last_counters := Some dcounters, last_time := Some now\<rparr>)
         \<and> map_of io_data disk = Some e
         \<and> out_read_count e = read_count b \<and> out_write_count e = write_count b
         \<and> out_read_bytes e = read_bytes b \<and> out_write_bytes e = write_bytes b
         \<and> (\<forall>(counter, rate) \<in> {(read_bytes, read_bytes_per_sec), (write_bytes, write_bytes_per_sec)}.
            \<exists>q. py_div (counter b - counter a) (float_sub now t0) = Inr (Finite q)
              \<and> \<bar>q - of_int (counter b - counter a) / (now - t0)\<bar>
                  \<le> \<bar>of_int (counter b - counter a) / (now - t0)\<bar> / 2 ^ 50
              \<and> rate e = py_int q
              \<and> \<bar>of_int (rate e) - q\<bar> < 1 \<and> \<bar>of_int (rate e) :: rat\<bar> \<le> \<bar>q\<bar>)
         \<and> (\<forall>(counter, rate) \<in> {(read_count, read_iops), (write_count, write_iops)}.
            \<exists>q n y. py_div (counter b - counter a) (float_sub now t0) = Inr (Finite q)
              \<and> \<bar>q - of_int (counter b - counter a) / (now - t0)\<bar>
                  \<le> \<bar>of_int (counter b - counter a) / (now - t0)\<bar> / 2 ^ 50
              \<and> rate e = Finite y
              \<and> binary64 (of_int n / 100) = Finite y
              \<and> \<bar>of_int n / 100 - q\<bar> \<le> 1 / 200
              \<and> \<bar>y - of_int n / 100\<bar> \<le> \<bar>of_int n / 100\<bar> / 2 ^ 53)))
   \<and> (last_counters nself = Some nlc \<and> last_time nself = Some t0
        \<and> (\<forall>(k, c) \<in> set nlc \<union> set ncounters.
              \<forall>v \<in> set (snetio_values c). 0 \<le> v \<and> v < 2 ^ 64)
        \<and> distinct (map fst ncounters) \<and> \<not> startswith interface ''lo''
        \<and> map_of nlc interface = Some c \<and> map_of ncounters interface = Some d \<longrightarrow>
        (\<exists>network_data e.
           NetworkCollector_collect now ncounters nself
             = (Inr network_data, nself\<lparr>last_counters := Some ncounters, last_time := Some now\<rparr>)
         \<and> map_of network_data interface = Some e
         \<and> out_bytes_sent e = bytes_sent d \<and> out_bytes_recv e = bytes_recv d
         \<and> out_packets_sent e = packets_sent d \<and> out_packets_recv e = packets_recv d
         \<and> out_errin e = errin d \<and> out_errout e = errout d
         \<and> out_dropin e = dropin d \<and> out_dropout e = dropout d
         \<and> (\<forall>(counter, rate) \<in> {(bytes_sent, bytes_sent_per_sec), (bytes_recv, bytes_recv_per_sec)}.
            \<exists>q. py_div (counter d - counter c) (float_sub now t0) = Inr (Finite q)
              \<and> \<bar>q - of_int (counter d - counter c) / (now - t0)\<bar>
                  \<le> \<bar>of_int (counter d - counter c) / (now - t0)\<bar> / 2 ^ 50
              \<and> rate e = py_int q
              \<and> \<bar>of_int (rate e) - q\<bar> < 1 \<and> \<bar>of_int (rate e) :: rat\<bar> \<le> \<bar>q\<bar>)
         \<and> (\<forall>(counter, rate) \<in> {(packets_sent, packets_sent_per_sec), (packets_recv, packets_recv_per_sec)}.
            \<exists>q n y. py_div (counter d - counter c) (float_sub now t0) = Inr (Finite q)
              \<and> \<bar>q - of_int (counter d - counter c) / (now - t0)\<bar>
                  \<le> \<bar>of_int (counter d - counter c) / (now - t0)\<bar> / 2 ^ 50
              \<and> rate e = Finite y
              \<and> binary64 (of_int n / 100) = Finite y
              \<and> \<bar>of_int n / 100 - q\<bar> \<le> 1 / 200
              \<and> \<bar>y - of_int n / 100\<bar> \<le> \<bar>of_int n / 100\<bar> / 2 ^ 53)))"
proof -
  from assms(2,3) have lo: "2 powi (- 64) \<le> \<bar>now - t0\<bar>" and hi: "\<bar>now - t0\<bar> \<le> 2 ^ 64"
    proof -
    have "(0::rat) < 2 powi (- 64)" by simp
    with assms(2) have "0 < now - t0" by linarith
    with assms(2,3) show "2 powi (- 64) \<le> \<bar>now - t0\<bar>" and "\<bar>now - t0\<bar> \<le> 2 ^ 64"
      by simp_all
  qed
  have disk: "(\<exists>io_data e.
           DiskIOCollector_collect now dcounters dself
             = (Inr io_data, dself\<lparr>last_counters := Some dcounters, last_time := Some now\<rparr>)
         \<and> map_of io_data disk = Some e
         \<and> out_read_count e = read_count b \<and> out_write_count e = write_count b
         \<and> out_read_bytes e = read_bytes b \<and> out_write_bytes e = write_bytes b
         \<and> (\<forall>(counter, rate) \<in> {(read_bytes, read_bytes_per_sec), (write_bytes, write_bytes_per_sec)}.
            \<exists>q. py_div (counter b - counter a) (float_sub now t0) = Inr (Finite q)
              \<and> \<bar>q - of_int (counter b - counter a) / (now - t0)\<bar>
                  \<le> \<bar>of_int (counter b - counter a) / (now - t0)\<bar> / 2 ^ 50
              \<and> rate e = py_int q
              \<and> \<bar>of_int (rate e) - q\<bar> < 1 \<and> \<bar>of_int (rate e) :: rat\<bar> \<le> \<bar>q\<bar>)
         \<and> (\<forall>(counter, rate) \<in> {(read_count, read_iops), (write_count, write_iops)}.
            \<exists>q n y. py_div (counter b - counter a) (float_sub now t0) = Inr (Finite q)
              \<and> \<bar>q - of_int (counter b - counter a) / (now - t0)\<bar>
                  \<le> \<bar>of_int (counter b - counter a) / (now - t0)\<bar> / 2 ^ 50
              \<and> rate e = Finite y
              \<and> binary64 (of_int n / 100) = Finite y
              \<and> \<bar>of_int n / 100 - q\<bar> \<le> 1 / 200
              \<and> \<bar>y - of_int n / 100\<bar> \<le> \<bar>of_int n / 100\<bar> / 2 ^ 53))"
    if pre: "last_counters dself = Some dlc \<and> last_time dself = Some t0
        \<and> (\<forall>(k, c) \<in> set dlc \<union> set dcounters.
              \<forall>v \<in> set (sdiskio_values c). 0 \<le> v \<and> v < 2 ^ 64)
        \<and> distinct (map fst dcounters)
        \<and> map_of dlc disk = Some a \<and> map_of dcounters disk = Some b"
  proof -
    from pre have range: "\<forall>(k, c) \<in> set dlc \<union> set dcounters.
              \<forall>v \<in> set (sdiskio_values c). 0 \<le> v \<and> v < 2 ^ 64"
      and lc: "last_counters dself = Some dlc" and lt: "last_time dself = Some t0"
      and ds: "distinct (map fst dcounters)"
      and ma: "map_of dlc disk = Some a" and mb: "map_of dcounters disk = Some b"
      by blast+
    from DiskIOCollector_collect_entry [OF lc lt assms(1) lo hi range ds ma mb]
    obtain io_data e where
      c: "DiskIOCollector_collect now dcounters dself
            = (Inr io_data, dself\<lparr>last_counters := Some dcounters, last_time := Some now\<rparr>)"
      and m: "map_of io_data disk = Some e"
      and e: "disk_rate_entry a b (float_sub now t0) = Inr e"
      by blast
    from ma mb have "(disk, a) \<in> set dlc \<union> set dcounters" and "(disk, b) \<in> set dlc \<union> set dcounters"
      by (auto dest: map_of_SomeD)
    with range have "\<forall>v \<in> set (sdiskio_values a). 0 \<le> v \<and> v < 2 ^ 64"
      and "\<forall>v \<in> set (sdiskio_values b). 0 \<le> v \<and> v < 2 ^ 64"
      by blast+
    from disk_rate_entry_rates [OF this lo hi] e c m show ?thesis
      by (simp only: sum.inject) blast
  qed
  have net: "(\<exists>network_data e.
           NetworkCollector_collect now ncounters nself
             = (Inr network_data, nself\<lparr>last_counters := Some ncounters, last_time := Some now\<rparr>)
         \<and> map_of network_data interface = Some e
         \<and> out_bytes_sent e = bytes_sent d \<and> out_bytes_recv e = bytes_recv d
         \<and> out_packets_sent e = packets_sent d \<and> out_packets_recv e = packets_recv d
         \<and> out_errin e = errin d \<and> out_errout e = errout d
         \<and> out_dropin e = dropin d \<and> out_dropout e = dropout d
         \<and> (\<forall>(counter, rate) \<in> {(bytes_sent, bytes_sent_per_sec), (bytes_recv, bytes_recv_per_sec)}.
            \<exists>q. py_div (counter d - counter c) (float_sub now t0) = Inr (Finite q)
              \<and> \<bar>q - of_int (counter d - counter c) / (now - t0)\<bar>
                  \<le> \<bar>of_int (counter d - counter c) / (now - t0)\<bar> / 2 ^ 50
              \<and> rate e = py_int q
              \<and> \<bar>of_int (rate e) - q\<bar> < 1 \<and> \<bar>of_int (rate e) :: rat\<bar> \<le> \<bar>q\<bar>)
         \<and> (\<forall>(counter, rate) \<in> {(packets_sent, packets_sent_per_sec), (packets_recv, packets_recv_per_sec)}.
            \<exists>q n y. py_div (counter d - counter c) (float_sub now t0) = Inr (Finite q)
              \<and> \<bar>q - of_int (counter d - counter c) / (now - t0)\<bar>
                  \<le> \<bar>of_int (counter d - counter c) / (now - t0)\<bar> / 2 ^ 50
              \<and> rate e = Finite y
              \<and> binary64 (of_int n / 100) = Finite y
              \<and> \<bar>of_int n / 100 - q\<bar> \<le> 1 / 200
              \<and> \<bar>y - of_int n / 100\<bar> \<le> \<bar>of_int n / 100\<bar> / 2 ^ 53))"
    if pre: "last_counters nself = Some nlc \<and> last_time nself = Some t0
        \<and> (\<forall>(k, c) \<in> set nlc \<union> set ncounters.
              \<forall>v \<in> set (snetio_values c). 0 \<le> v \<and> v < 2 ^ 64)
        \<and> distinct (map fst ncounters) \<and> \<not> startswith interface ''lo''
        \<and> map_of nlc interface = Some c \<and> map_of ncounters interface = Some d"
  proof -
    from pre have range: "\<forall>(k, c) \<in> set nlc \<union> set ncounters.
              \<forall>v \<in> set (snetio_values c). 0 \<le> v \<and> v < 2 ^ 64"
      and lc: "last_counters nself = Some nlc" and lt: "last_time nself = Some t0"
      and ds: "distinct (map fst ncounters)" and nl: "\<not> startswith interface ''lo''"
      and ma: "map_of nlc interface = Some c" and mb: "map_of ncounters interface = Some d"
      by blast+
    from NetworkCollector_collect_entry [OF lc lt assms(1) lo hi range ds ma mb nl]
    obtain network_data e where
      c: "NetworkCollector_collect now ncounters nself
            = (Inr network_data, nself\<lparr>last_counters := Some ncounters, last_time := Some now\<rparr>)"
      and m: "map_of network_data interface = Some e"
      and e: "network_rate_entry c d (float_sub now t0) = Inr e"
      by blast
    from ma mb have "(interface, c) \<in> set nlc \<union> set ncounters"
      and "(interface, d) \<in> set nlc \<union> set ncounters"
      by (auto dest: map_of_SomeD)
    with range have "\<forall>v \<in> set (snetio_values c). 0 \<le> v \<and> v < 2 ^ 64"
      and "\<forall>v \<in> set (snetio_values d). 0 \<le> v \<and> v < 2 ^ 64"
      by blast+
    from network_rate_entry_rates [OF this lo hi] e c m show ?thesis
      by (simp only: sum.inject) blast
  qed
  from disk net show ?thesis by blast
qed

theorem collect_rates_positive_interval_witness:
  "(10::rat) \<noteq> 0 \<and> 2 powi (- 64) \<le> (12::rat) - 10 \<and> (12::rat) - 10 \<le> 2 ^ 64
   \<and> (\<exists>io_data e.
        DiskIOCollector_collect 12 [(''sda'', \<lparr>read_count = 5, write_count = 0, read_bytes = 3000, write_bytes = 0\<rparr>)]
          \<lparr>last_counters = Some [(''sda'', \<lparr>read_count = 0, write_count = 0, read_bytes = 1000, write_bytes = 0\<rparr>)], last_time = Some 10\<rparr>
          = (Inr io_data, \<lparr>last_counters = Some [(''sda'', \<lparr>read_count = 5, write_count = 0, read_bytes = 3000, write_bytes = 0\<rparr>)], last_time = Some 12\<rparr>)
      \<and> map_of io_data ''sda'' = Some e
      \<and> out_read_count e = 5
      \<and> out_write_count e = 0
      \<and> out_read_bytes e = 3000
      \<and> out_write_bytes e = 0
      \<and> (\<exists>q. py_div (3000 - 1000) (float_sub 12 10) = Inr (Finite q)
            \<and> \<bar>q - of_int (3000 - 1000) / (12 - 10)\<bar>
                \<le> \<bar>of_int (3000 - 1000) / (12 - 10)\<bar> / 2 ^ 50
            \<and> read_bytes_per_sec e = py_int q
            \<and> \<bar>of_int (read_bytes_per_sec e) - q\<bar> < 1 \<and> \<bar>of_int (read_bytes_per_sec e) :: rat\<bar> \<le> \<bar>q\<bar>)
      \<and> (\<exists>q. py_div (0 - 0) (float_sub 12 10) = Inr (Finite q)
            \<and> \<bar>q - of_int (0 - 0) / (12 - 10)\<bar>
                \<le> \<bar>of_int (0 - 0) / (12 - 10)\<bar> / 2 ^ 50
            \<and> write_bytes_per_sec e = py_int q
            \<and> \<bar>of_int (write_bytes_per_sec e) - q\<bar> < 1 \<and> \<bar>of_int (write_bytes_per_sec e) :: rat\<bar> \<le> \<bar>q\<bar>)
      \<and> (\<exists>q n y. py_div (5 - 0) (float_sub 12 10) = Inr (Finite q)
            \<and> \<bar>q - of_int (5 - 0) / (12 - 10)\<bar>
                \<le> \<bar>of_int (5 - 0) / (12 - 10)\<bar> / 2 ^ 50
            \<and> read_iops e = Finite y
            \<and> binary64 (of_int n / 100) = Finite y
            \<and> \<bar>of_int n / 100 - q\<bar> \<le> 1 / 200
            \<and> \<bar>y - of_int n / 100\<bar> \<le> \<bar>of_int n / 100\<bar> / 2 ^ 53)
      \<and> (\<exists>q n y. py_div (0 - 0) (float_sub 12 10) = Inr (Finite q)
            \<and> \<bar>q - of_int (0 - 0) / (12 - 10)\<bar>
                \<le> \<bar>of_int (0 - 0) / (12 - 10)\<bar> / 2 ^ 50
            \<and> write_iops e = Finite y
            \<and> binary64 (of_int n / 100) = Finite y
            \<and> \<bar>of_int n / 100 - q\<bar> \<le> 1 / 200
            \<and> \<bar>y - of_int n / 100\<bar> \<le> \<bar>of_int n / 100\<bar> / 2 ^ 53))
   \<and> (\<exists>network_data e.
        NetworkCollector_collect 12 [(''eth0'', \<lparr>bytes_sent = 500, bytes_recv = 900, packets_sent = 13, packets_recv = 1, errin = 0, errout = 0, dropin = 0, dropout = 0\<rparr>)]
          \<lparr>last_counters = Some [(''eth0'', \<lparr>bytes_sent = 100, bytes_recv = 200, packets_sent = 10, packets_recv = 1, errin = 0, errout = 0, dropin = 0, dropout = 0\<rparr>)], last_time = Some 10\<rparr>
          = (Inr network_data, \<lparr>last_counters = Some [(''eth0'', \<lparr>bytes_sent = 500, bytes_recv = 900, packets_sent = 13, packets_recv = 1, errin = 0, errout = 0, dropin = 0, dropout = 0\<rparr>)], last_time = Some 12\<rparr>)
      \<and> map_of network_data ''eth0'' = Some e
      \<and> out_bytes_sent e = 500
      \<and> out_bytes_recv e = 900
      \<and> out_packets_sent e = 13
      \<and> out_packets_recv e = 1
      \<and> out_errin e = 0
      \<and> out_errout e = 0
      \<and> out_dropin e = 0
      \<and> out_dropout e = 0
      \<and> (\<exists>q. py_div (500 - 100) (float_sub 12 10) = Inr (Finite q)
            \<and> \<bar>q - of_int (500 - 100) / (12 - 10)\<bar>
                \<le> \<bar>of_int (500 - 100) / (12 - 10)\<bar> / 2 ^ 50
            \<and> bytes_sent_per_sec e = py_int q
            \<and> \<bar>of_int (bytes_sent_per_sec e) - q\<bar> < 1 \<and> \<bar>of_int (bytes_sent_per_sec e) :: rat\<bar> \<le> \<bar>q\<bar>)
      \<and> (\<exists>q. py_div (900 - 200) (float_sub 12 10) = Inr (Finite q)
            \<and> \<bar>q - of_int (900 - 200) / (12 - 10)\<bar>
                \<le> \<bar>of_int (900 - 200) / (12 - 10)\<bar> / 2 ^ 50
            \<and> bytes_recv_per_sec e = py_int q
            \<and> \<bar>of_int (bytes_recv_per_sec e) - q\<bar> < 1 \<and> \<bar>of_int (bytes_recv_per_sec e) :: rat\<bar> \<le> \<bar>q\<bar>)
      \<and> (\<exists>q n y. py_div (13 - 10) (float_sub 12 10) = Inr (Finite q)
            \<and> \<bar>q - of_int (13 - 10) / (12 - 10)\<bar>
                \<le> \<bar>of_int (13 - 10) / (12 - 10)\<bar> / 2 ^ 50
            \<and> packets_sent_per_sec e = Finite y
            \<and> binary64 (of_int n / 100) = Finite y
            \<and> \<bar>of_int n / 100 - q\<bar> \<le> 1 / 200
            \<and> \<bar>y - of_int n / 100\<bar> \<le> \<bar>of_int n / 100\<bar> / 2 ^ 53)
      \<and> (\<exists>q n y. py_div (1 - 1) (float_sub 12 10) = Inr (Finite q)
            \<and> \<bar>q - of_int (1 - 1) / (12 - 10)\<bar>
                \<le> \<bar>of_int (1 - 1) / (12 - 10)\<bar> / 2 ^ 50
            \<and> packets_recv_per_sec e = Finite y
            \<and> binary64 (of_int n / 100) = Finite y
            \<and> \<bar>of_int n / 100 - q\<bar> \<le> 1 / 200
            \<and> \<bar>y - of_int n / 100\<bar> \<le> \<bar>of_int n / 100\<bar> / 2 ^ 53))"
proof -
  define a :: sdiskio where "a = \<lparr>read_count = 0, write_count = 0, read_bytes = 1000, write_bytes = 0\<rparr>"
  define b :: sdiskio where "b = \<lparr>read_count = 5, write_count = 0, read_bytes = 3000, write_bytes = 0\<rparr>"
  define c :: snetio where "c = \<lparr>bytes_sent = 100, bytes_recv = 200, packets_sent = 10, packets_recv = 1, errin = 0, errout = 0, dropin = 0, dropout = 0\<rparr>"
  define d :: snetio where "d = \<lparr>bytes_sent = 500, bytes_recv = 900, packets_sent = 13, packets_recv = 1, errin = 0, errout = 0, dropin = 0, dropout = 0\<rparr>"
  define ds :: "sdiskio rate_collector" where
    "ds = \<lparr>last_counters = Some [(''sda'', a)], last_time = Some 10\<rparr>"
  define ns :: "snetio rate_collector" where
    "ns = \<lparr>last_counters = Some [(''eth0'', c)], last_time = Some 10\<rparr>"
  have h: "(10::rat) \<noteq> 0 \<and> 2 powi (- 64) \<le> (12::rat) - 10 \<and> (12::rat) - 10 \<le> 2 ^ 64"
    by simp
  have dpre: "last_counters ds = Some [(''sda'', a)] \<and> last_time ds = Some 10
        \<and> (\<forall>(k, c) \<in> set [(''sda'', a)] \<union> set [(''sda'', b)].
              \<forall>v \<in> set (sdiskio_values c). 0 \<le> v \<and> v < 2 ^ 64)
        \<and> distinct (map fst [(''sda'', b)])
        \<and> map_of [(''sda'', a)] ''sda'' = Some a \<and> map_of [(''sda'', b)] ''sda'' = Some b"
    by (simp add: ds_def a_def b_def sdiskio_values_def)
  have npre: "last_counters ns = Some [(''eth0'', c)] \<and> last_time ns = Some 10
        \<and> (\<forall>(k, c) \<in> set [(''eth0'', c)] \<union> set [(''eth0'', d)].
              \<forall>v \<in> set (snetio_values c). 0 \<le> v \<and> v < 2 ^ 64)
        \<and> distinct (map fst [(''eth0'', d)]) \<and> \<not> startswith ''eth0'' ''lo''
        \<and> map_of [(''eth0'', c)] ''eth0'' = Some c \<and> map_of [(''eth0'', d)] ''eth0'' = Some d"
    by (simp add: ns_def c_def d_def snetio_values_def startswith_def)
  from h have h1: "(10::rat) \<noteq> 0" and h2: "2 powi (- 64) \<le> (12::rat) - 10" and h3: "(12::rat) - 10 \<le> 2 ^ 64"
    by blast+
  note res = collect_rates_positive_interval [OF h1 h2 h3, where dself = ds and dlc = "[(''sda'', a)]"
      and dcounters = "[(''sda'', b)]" and disk = "''sda''" and a = a and b = b
      and nself = ns and nlc = "[(''eth0'', c)]" and ncounters = "[(''eth0'', d)]"
      and interface = "''eth0''" and c = c and d = d]
  from res dpre have dres: "(\<exists>io_data e.
           DiskIOCollector_collect 12 [(''sda'', b)] ds
             = (Inr io_data, ds\<lparr>last_counters := Some [(''sda'', b)], last_time := Some 12\<rparr>)
         \<and> map_of io_data ''sda'' = Some e
         \<and> out_read_count e = read_count b \<and> out_write_count e = write_count b
         \<and> out_read_bytes e = read_bytes b \<and> out_write_bytes e = write_bytes b
         \<and> (\<forall>(counter, rate) \<in> {(read_bytes, read_bytes_per_sec), (write_bytes, write_bytes_per_sec)}.
            \<exists>q. py_div (counter b - counter a) (float_sub 12 10) = Inr (Finite q)
              \<and> \<bar>q - of_int (counter b - counter a) / (12 - 10)\<bar>
                  \<le> \<bar>of_int (counter b - counter a) / (12 - 10)\<bar> / 2 ^ 50
              \<and> rate e = py_int q
              \<and> \<bar>of_int (rate e) - q\<bar> < 1 \<and> \<bar>of_int (rate e) :: rat\<bar> \<le> \<bar>q\<bar>)
         \<and> (\<forall>(counter, rate) \<in> {(read_count, read_iops), (write_count, write_iops)}.
            \<exists>q n y. py_div (counter b - counter a) (float_sub 12 10) = Inr (Finite q)
              \<and> \<bar>q - of_int (counter b - counter a) / (12 - 10)\<bar>
                  \<le> \<bar>of_int (counter b - counter a) / (12 - 10)\<bar> / 2 ^ 50
              \<and> rate e = Finite y
              \<and> binary64 (of_int n / 100) = Finite y
              \<and> \<bar>of_int n / 100 - q\<bar> \<le> 1 / 200
              \<and> \<bar>y - of_int n / 100\<bar> \<le> \<bar>of_int n / 100\<bar> / 2 ^ 53))"
    by blast
  from res npre have nres: "(\<exists>network_data e.
           NetworkCollector_collect 12 [(''eth0'', d)] ns
             = (Inr network_data, ns\<lparr>last_counters := Some [(''eth0'', d)], last_time := Some 12\<rparr>)
         \<and> map_of network_data ''eth0'' = Some e
         \<and> out_bytes_sent e = bytes_sent d \<and> out_bytes_recv e = bytes_recv d
         \<and> out_packets_sent e = packets_sent d \<and> out_packets_recv e = packets_recv d
         \<and> out_errin e = errin d \<and> out_errout e = errout d
         \<and> out_dropin e = dropin d \<and> out_dropout e = dropout d
         \<and> (\<forall>(counter, rate) \<in> {(bytes_sent, bytes_sent_per_sec), (bytes_recv, bytes_recv_per_sec)}.
            \<exists>q. py_div (counter d - counter c) (float_sub 12 10) = Inr (Finite q)
              \<and> \<bar>q - of_int (counter d - counter c) / (12 - 10)\<bar>
                  \<le> \<bar>of_int (counter d - counter c) / (12 - 10)\<bar> / 2 ^ 50
              \<and> rate e = py_int q
              \<and> \<bar>of_int (rate e) - q\<bar> < 1 \<and> \<bar>of_int (rate e) :: rat\<bar> \<le> \<bar>q\<bar>)
         \<and> (\<forall>(counter, rate) \<in> {(packets_sent, packets_sent_per_sec), (packets_recv, packets_recv_per_sec)}.
            \<exists>q n y. py_div (counter d - counter c) (float_sub 12 10) = Inr (Finite q)
              \<and> \<bar>q - of_int (counter d - counter c) / (12 - 10)\<bar>
                  \<le> \<bar>of_int (counter d - counter c) / (12 - 10)\<bar> / 2 ^ 50
              \<and> rate e = Finite y
              \<and> binary64 (of_int n / 100) = Finite y
              \<and> \<bar>of_int n / 100 - q\<bar> \<le> 1 / 200
              \<and> \<bar>y - of_int n / 100\<bar> \<le> \<bar>of_int n / 100\<bar> / 2 ^ 53))"
    by blast
  have 1: "(\<exists>io_data e.
        DiskIOCollector_collect 12 [(''sda'', \<lparr>read_count = 5, write_count = 0, read_bytes = 3000, write_bytes = 0\<rparr>)]
          \<lparr>last_counters = Some [(''sda'', \<lparr>read_count = 0, write_count = 0, read_bytes = 1000, write_bytes = 0\<rparr>)], last_time = Some 10\<rparr>
          = (Inr io_data, \<lparr>last_counters = Some [(''sda'', \<lparr>read_count = 5, write_count = 0, read_bytes = 3000, write_bytes = 0\<rparr>)], last_time = Some 12\<rparr>)
      \<and> map_of io_data ''sda'' = Some e
      \<and> out_read_count e = 5
      \<and> out_write_count e = 0
      \<and> out_read_bytes e = 3000
      \<and> out_write_bytes e = 0
      \<and> (\<exists>q. py_div (3000 - 1000) (float_sub 12 10) = Inr (Finite q)
            \<and> \<bar>q - of_int (3000 - 1000) / (12 - 10)\<bar>
                \<le> \<bar>of_int (3000 - 1000) / (12 - 10)\<bar> / 2 ^ 50
            \<and> read_bytes_per_sec e = py_int q
            \<and> \<bar>of_int (read_bytes_per_sec e) - q\<bar> < 1 \<and> \<bar>of_int (read_bytes_per_sec e) :: rat\<bar> \<le> \<bar>q\<bar>)
      \<and> (\<exists>q. py_div (0 - 0) (float_sub 12 10) = Inr (Finite q)
            \<and> \<bar>q - of_int (0 - 0) / (12 - 10)\<bar>
                \<le> \<bar>of_int (0 - 0) / (12 - 10)\<bar> / 2 ^ 50
            \<and> write_bytes_per_sec e = py_int q
            \<and> \<bar>of_int (write_bytes_per_sec e) - q\<bar> < 1 \<and> \<bar>of_int (write_bytes_per_sec e) :: rat\<bar> \<le> \<bar>q\<bar>)
      \<and> (\<exists>q n y. py_div (5 - 0) (float_sub 12 10) = Inr (Finite q)
            \<and> \<bar>q - of_int (5 - 0) / (12 - 10)\<bar>
                \<le> \<bar>of_int (5 - 0) / (12 - 10)\<bar> / 2 ^ 50
            \<and> read_iops e = Finite y
            \<and> binary64 (of_int n / 100) = Finite y
            \<and> \<bar>of_int n / 100 - q\<bar> \<le> 1 / 200
            \<and> \<bar>y - of_int n / 100\<bar> \<le> \<bar>of_int n / 100\<bar> / 2 ^ 53)
      \<and> (\<exists>q n y. py_div (0 - 0) (float_sub 12 10) = Inr (Finite q)
            \<and> \<bar>q - of_int (0 - 0) / (12 - 10)\<bar>
                \<le> \<bar>of_int (0 - 0) / (12 - 10)\<bar> / 2 ^ 50
            \<and> write_iops e = Finite y
            \<and> binary64 (of_int n / 100) = Finite y
            \<and> \<bar>of_int n / 100 - q\<bar> \<le> 1 / 200
            \<and> \<bar>y - of_int n / 100\<bar> \<le> \<bar>of_int n / 100\<bar> / 2 ^ 53))"
    using dres unfolding ds_def a_def b_def
    by (simp only: sdiskio.simps rate_collector.simps ball_simps prod.case simp_thms conj_assoc)
  have 2: "(\<exists>network_data e.
        NetworkCollector_collect 12 [(''eth0'', \<lparr>bytes_sent = 500, bytes_recv = 900, packets_sent = 13, packets_recv = 1, errin = 0, errout = 0, dropin = 0, dropout = 0\<rparr>)]
          \<lparr>last_counters = Some [(''eth0'', \<lparr>bytes_sent = 100, bytes_recv = 200, packets_sent = 10, packets_recv = 1, errin = 0, errout = 0, dropin = 0, dropout = 0\<rparr>)], last_time = Some 10\<rparr>
          = (Inr network_data, \<lparr>last_counters = Some [(''eth0'', \<lparr>bytes_sent = 500, bytes_recv = 900, packets_sent = 13, packets_recv = 1, errin = 0, errout = 0, dropin = 0, dropout = 0\<rparr>)], last_time = Some 12\<rparr>)
      \<and> map_of network_data ''eth0'' = Some e
      \<and> out_bytes_sent e = 500
      \<and> out_bytes_recv e = 900
      \<and> out_packets_sent e = 13
      \<and> out_packets_recv e = 1
      \<and> out_errin e = 0
      \<and> out_errout e = 0
      \<and> out_dropin e = 0
      \<and> out_dropout e = 0
      \<and> (\<exists>q. py_div (500 - 100) (float_sub 12 10) = Inr (Finite q)
            \<and> \<bar>q - of_int (500 - 100) / (12 - 10)\<bar>
                \<le> \<bar>of_int (500 - 100) / (12 - 10)\<bar> / 2 ^ 50
            \<and> bytes_sent_per_sec e = py_int q
            \<and> \<bar>of_int (bytes_sent_per_sec e) - q\<bar> < 1 \<and> \<bar>of_int (bytes_sent_per_sec e) :: rat\<bar> \<le> \<bar>q\<bar>)
      \<and> (\<exists>q. py_div (900 - 200) (float_sub 12 10) = Inr (Finite q)
            \<and> \<bar>q - of_int (900 - 200) / (12 - 10)\<bar>
                \<le> \<bar>of_int (900 - 200) / (12 - 10)\<bar> / 2 ^ 50
            \<and> bytes_recv_per_sec e = py_int q
            \<and> \<bar>of_int (bytes_recv_per_sec e) - q\<bar> < 1 \<and> \<bar>of_int (bytes_recv_per_sec e) :: rat\<bar> \<le> \<bar>q\<bar>)
      \<and> (\<exists>q n y. py_div (13 - 10) (float_sub 12 10) = Inr (Finite q)
            \<and> \<bar>q - of_int (13 - 10) / (12 - 10)\<bar>
                \<le> \<bar>of_int (13 - 10) / (12 - 10)\<bar> / 2 ^ 50
            \<and> packets_sent_per_sec e = Finite y
            \<and> binary64 (of_int n / 100) = Finite y
            \<and> \<bar>of_int n / 100 - q\<bar> \<le> 1 / 200
            \<and> \<bar>y - of_int n / 100\<bar> \<le> \<bar>of_int n / 100\<bar> / 2 ^ 53)
      \<and> (\<exists>q n y. py_div (1 - 1) (float_sub 12 10) = Inr (Finite q)
            \<and> \<bar>q - of_int (1 - 1) / (12 - 10)\<bar>
                \<le> \<bar>of_int (1 - 1) / (12 - 10)\<bar> / 2 ^ 50
            \<and> packets_recv_per_sec e = Finite y
            \<and> binary64 (of_int n / 100) = Finite y
            \<and> \<bar>of_int n / 100 - q\<bar> \<le> 1 / 200
            \<and> \<bar>y - of_int n / 100\<bar> \<le> \<bar>of_int n / 100\<bar> / 2 ^ 53))"
    using nres unfolding ns_def c_def d_def
    by (simp only: snetio.simps rate_collector.simps ball_simps prod.case simp_thms conj_assoc)
  from h 1 2 show ?thesis by blast
qed

text \<open>
  The claim as it was stated fails at the example of the specification itself: after a
  first sample at time 0, the sample at time 2 is treated as a first run and the rate
  reported for 1000 then 3000 bytes is 0, not 1000. And a byte rate is cut, not rounded
  to the nearest unit: 3 bytes in 2 seconds are reported as 1, where the nearest whole
  number is 2.
\<close>

theorem collect_rates_counterexample:
  "fst (DiskIOCollector_collect 2
          [(''sda'', \<lparr>read_count = 6, write_count = 0, read_bytes = 3000, write_bytes = 0\<rparr>)]
          (snd (DiskIOCollector_collect 0
                  [(''sda'', \<lparr>read_count = 0, write_count = 0, read_bytes = 1000, write_bytes = 0\<rparr>)]
                  collector_init)))
     = Inr [(''sda'', \<lparr>read_bytes_per_sec = 0, write_bytes_per_sec = 0, read_iops = Finite 0, write_iops = Finite 0, out_read_count = 6, out_write_count = 0, out_read_bytes = 3000, out_write_bytes = 0\<rparr>)]
   \<and> fst (DiskIOCollector_collect 12
          [(''sda'', \<lparr>read_count = 6, write_count = 0, read_bytes = 1003, write_bytes = 0\<rparr>)]
          (snd (DiskIOCollector_collect 10
                  [(''sda'', \<lparr>read_count = 0, write_count = 0, read_bytes = 1000, write_bytes = 0\<rparr>)]
                  collector_init)))
     = Inr [(''sda'', \<lparr>read_bytes_per_sec = 1, write_bytes_per_sec = 0, read_iops = Finite 3, write_iops = Finite 0, out_read_count = 6, out_write_count = 0, out_read_bytes = 1003, out_write_bytes = 0\<rparr>)]
   \<and> round ((1003 - 1000) / (12 - 10) :: rat) = 2"
proof -
  have b: "binary64 0 = Finite 0" "binary64 2 = Finite 2" "binary64 3 = Finite 3"
    "binary64 6 = Finite 6" "binary64 (3 / 2) = Finite (3 / 2)"
    using binary64_representable [of 0 0] binary64_representable [of 2 0]
      binary64_representable [of 3 0] binary64_representable [of 6 0]
      binary64_representable [of 3 "- 1"]
    by simp_all
  have r: "round (3 / 2 :: rat) = 2" by (simp add: round_def)
  have f: "\<lfloor>3 / 2 :: rat\<rfloor> = 1" by (simp add: floor_eq_iff)
  show ?thesis by (simp add: collect_eval b r f)
qed

text \<open>
  Claim C2, as the code has it. There is no branch for an interval that is not
  positive. When the clock reading is earlier than the time of the previous sample
  (itself other than 0), by at least \<open>2\<^sup>-\<^sup>6\<^sup>4\<close> and at most \<open>2\<^sup>6\<^sup>4\<close> seconds, and every
  counter of both samples is at least 0 and below \<open>2\<^sup>6\<^sup>4\<close>, the update is the ordinary
  one: nothing is raised, the stored sample is overwritten with the new counters and
  time, and for every disk, and every interface not starting with \<^verbatim>\<open>lo\<close>, present in
  both samples the entry holds the rates computed from the negative interval: the
  float quotient \<open>q\<close> within the relative error \<open>2\<^sup>-\<^sup>5\<^sup>0\<close> of \<open>(b - a) / (now - t0)\<close>, cut
  by \<^verbatim>\<open>int\<close> for a byte rate and rounded by \<^verbatim>\<open>round(q, 2)\<close> for a rate of operations
  or of packets.
\<close>

theorem collect_rates_negative_interval:
  fixes dself :: "sdiskio rate_collector" and nself :: "snetio rate_collector"
  assumes "t0 \<noteq> 0" and "2 powi (- 64) \<le> t0 - now" and "t0 - now \<le> 2 ^ 64"
  shows
    "(last_counters dself = Some dlc \<and> last_time dself = Some t0
        \<and> (\<forall>(k, c) \<in> set dlc \<union> set dcounters.
              \<forall>v \<in> set (sdiskio_values c). 0 \<le> v \<and> v < 2 ^ 64)
        \<and> distinct (map fst dcounters)
        \<and> map_of dlc disk = Some a \<and> map_of dcounters disk = Some b \<longrightarrow>
        (\<exists>io_data e.
           DiskIOCollector_collect now dcounters dself
             = (Inr io_data, dself\<lparr>last_counters := Some dcounters, last_time := Some now\<rparr>)
         \<and> map_of io_data disk = Some e
         \<and> out_read_count e = read_count b \<and> out_write_count e = write_count b
         \<and> out_read_bytes e = read_bytes b \<and> out_write_bytes e = write_bytes b
         \<and> (\<forall>(counter, rate) \<in> {(read_bytes, read_bytes_per_sec), (write_bytes, write_bytes_per_sec)}.
            \<exists>q. py_div (counter b - counter a) (float_sub now t0) = Inr (Finite q)
              \<and> \<bar>q - of_int (counter b - counter a) / (now - t0)\<bar>
                  \<le> \<bar>of_int (counter b - counter a) / (now - t0)\<bar> / 2 ^ 50
              \<and> rate e = py_int q
              \<and> \<bar>of_int (rate e) - q\<bar> < 1 \<and> \<bar>of_int (rate e) :: rat\<bar> \<le> \<bar>q\<bar>)
         \<and> (\<forall>(counter, rate) \<in> {(read_count, read_iops), (write_count, write_iops)}.
            \<exists>q n y. py_div (counter b - counter a) (float_sub now t0) = Inr (Finite q)
              \<and> \<bar>q - of_int (counter b - counter a) / (now - t0)\<bar>
                  \<le> \<bar>of_int (counter b - counter a) / (now - t0)\<bar> / 2 ^ 50
              \<and> rate e = Finite y
              \<and> binary64 (of_int n / 100) = Finite y
              \<and> \<bar>of_int n / 100 - q\<bar> \<le> 1 / 200
              \<and> \<bar>y - of_int n / 100\<bar> \<le> \<bar>of_int n / 100\<bar> / 2 ^ 53)))
   \<and> (last_counters nself = Some nlc \<and> last_time nself = Some t0
        \<and> (\<forall>(k, c) \<in> set nlc \<union> set ncounters.
              \<forall>v \<in> set (snetio_values c). 0 \<le> v \<and> v < 2 ^ 64)
        \<and> distinct (map fst ncounters) \<and> \<not> startswith interface ''lo''
        \<and> map_of nlc interface = Some c \<and> map_of ncounters interface = Some d \<longrightarrow>
        (\<exists>network_data e.
           NetworkCollector_collect now ncounters nself
             = (Inr network_data, nself\<lparr>last_counters := Some ncounters, last_time := Some now\<rparr>)
         \<and> map_of network_data interface = Some e
         \<and> out_bytes_sent e = bytes_sent d \<and> out_bytes_recv e = bytes_recv d
         \<and> out_packets_sent e = packets_sent d \<and> out_packets_recv e = packets_recv d
         \<and> out_errin e = errin d \<and> out_errout e = errout d
         \<and> out_dropin e = dropin d \<and> out_dropout e = dropout d
         \<and> (\<forall>(counter, rate) \<in> {(bytes_sent, bytes_sent_per_sec), (bytes_recv, bytes_recv_per_sec)}.
            \<exists>q. py_div (counter d - counter c) (float_sub now t0) = Inr (Finite q)
              \<and> \<bar>q - of_int (counter d - counter c) / (now - t0)\<bar>
                  \<le> \<bar>of_int (counter d - counter c) / (now - t0)\<bar> / 2 ^ 50
              \<and> rate e = py_int q
              \<and> \<bar>of_int (rate e) - q\<bar> < 1 \<and> \<bar>of_int (rate e) :: rat\<bar> \<le> \<bar>q\<bar>)
         \<and> (\<forall>(counter, rate) \<in> {(packets_sent, packets_sent_per_sec), (packets_recv, packets_recv_per_sec)}.
            \<exists>q n y. py_div (counter d - counter c) (float_sub now t0) = Inr (Finite q)
              \<and> \<bar>q - of_int (counter d - counter c) / (now - t0)\<bar>
                  \<le> \<bar>of_int (counter d - counter c) / (now - t0)\<bar> / 2 ^ 50
              \<and> rate e = Finite y
              \<and> binary64 (of_int n / 100) = Finite y
              \<and> \<bar>of_int n / 100 - q\<bar> \<le> 1 / 200
              \<and> \<bar>y - of_int n / 100\<bar> \<le> \<bar>of_int n / 100\<bar> / 2 ^ 53)))"
proof -
  from assms(2,3) have lo: "2 powi (- 64) \<le> \<bar>now - t0\<bar>" and hi: "\<bar>now - t0\<bar> \<le> 2 ^ 64"
    proof -
    have "(0::rat) < 2 powi (- 64)" by simp
    with assms(2) have "now - t0 < 0" by linarith
    with assms(2,3) show "2 powi (- 64) \<le> \<bar>now - t0\<bar>" and "\<bar>now - t0\<bar> \<le> 2 ^ 64"
      by simp_all
  qed
  have disk: "(\<exists>io_data e.
           DiskIOCollector_collect now dcounters dself
             = (Inr io_data, dself\<lparr>last_counters := Some dcounters, last_time := Some now\<rparr>)
         \<and> map_of io_data disk = Some e
         \<and> out_read_count e = read_count b \<and> out_write_count e = write_count b
         \<and> out_read_bytes e = read_bytes b \<and> out_write_bytes e = write_bytes b
         \<and> (\<forall>(counter, rate) \<in> {(read_bytes, read_bytes_per_sec), (write_bytes, write_bytes_per_sec)}.
            \<exists>q. py_div (counter b - counter a) (float_sub now t0) = Inr (Finite q)
              \<and> \<bar>q - of_int (counter b - counter a) / (now - t0)\<bar>
                  \<le> \<bar>of_int (counter b - counter a) / (now - t0)\<bar> / 2 ^ 50
              \<and> rate e = py_int q
              \<and> \<bar>of_int (rate e) - q\<bar> < 1 \<and> \<bar>of_int (rate e) :: rat\<bar> \<le> \<bar>q\<bar>)
         \<and> (\<forall>(counter, rate) \<in> {(read_count, read_iops), (write_count, write_iops)}.
            \<exists>q n y. py_div (counter b - counter a) (float_sub now t0) = Inr (Finite q)
              \<and> \<bar>q - of_int (counter b - counter a) / (now - t0)\<bar>
                  \<le> \<bar>of_int (counter b - counter a) / (now - t0)\<bar> / 2 ^ 50
              \<and> rate e = Finite y
              \<and> binary64 (of_int n / 100) = Finite y
              \<and> \<bar>of_int n / 100 - q\<bar> \<le> 1 / 200
              \<and> \<bar>y - of_int n / 100\<bar> \<le> \<bar>of_int n / 100\<bar> / 2 ^ 53))"
    if pre: "last_counters dself = Some dlc \<and> last_time dself = Some t0
        \<and> (\<forall>(k, c) \<in> set dlc \<union> set dcounters.
              \<forall>v \<in> set (sdiskio_values c). 0 \<le> v \<and> v < 2 ^ 64)
        \<and> distinct (map fst dcounters)
        \<and> map_of dlc disk = Some a \<and> map_of dcounters disk = Some b"
  proof -
    from pre have range: "\<forall>(k, c) \<in> set dlc \<union> set dcounters.
              \<forall>v \<in> set (sdiskio_values c). 0 \<le> v \<and> v < 2 ^ 64"
      and lc: "last_counters dself = Some dlc" and lt: "last_time dself = Some t0"
      and ds: "distinct (map fst dcounters)"
      and ma: "map_of dlc disk = Some a" and mb: "map_of dcounters disk = Some b"
      by blast+
    from DiskIOCollector_collect_entry [OF lc lt assms(1) lo hi range ds ma mb]
    obtain io_data e where
      c: "DiskIOCollector_collect now dcounters dself
            = (Inr io_data, dself\<lparr>last_counters := Some dcounters, last_time := Some now\<rparr>)"
      and m: "map_of io_data disk = Some e"
      and e: "disk_rate_entry a b (float_sub now t0) = Inr e"
      by blast
    from ma mb have "(disk, a) \<in> set dlc \<union> set dcounters" and "(disk, b) \<in> set dlc \<union> set dcounters"
      by (auto dest: map_of_SomeD)
    with range have "\<forall>v \<in> set (sdiskio_values a). 0 \<le> v \<and> v < 2 ^ 64"
      and "\<forall>v \<in> set (sdiskio_values b). 0 \<le> v \<and> v < 2 ^ 64"
      by blast+
    from disk_rate_entry_rates [OF this lo hi] e c m show ?thesis
      by (simp only: sum.inject) blast
  qed
  have net: "(\<exists>network_data e.
           NetworkCollector_collect now ncounters nself
             = (Inr network_data, nself\<lparr>last_counters := Some ncounters, last_time := Some now\<rparr>)
         \<and> map_of network_data interface = Some e
         \<and> out_bytes_sent e = bytes_sent d \<and> out_bytes_recv e = bytes_recv d
         \<and> out_packets_sent e = packets_sent d \<and> out_packets_recv e = packets_recv d
         \<and> out_errin e = errin d \<and> out_errout e = errout d
         \<and> out_dropin e = dropin d \<and> out_dropout e = dropout d
         \<and> (\<forall>(counter, rate) \<in> {(bytes_sent, bytes_sent_per_sec), (bytes_recv, bytes_recv_per_sec)}.
            \<exists>q. py_div (counter d - counter c) (float_sub now t0) = Inr (Finite q)
              \<and> \<bar>q - of_int (counter d - counter c) / (now - t0)\<bar>
                  \<le> \<bar>of_int (counter d - counter c) / (now - t0)\<bar> / 2 ^ 50
              \<and> rate e = py_int q
              \<and> \<bar>of_int (rate e) - q\<bar> < 1 \<and> \<bar>of_int (rate e) :: rat\<bar> \<le> \<bar>q\<bar>)
         \<and> (\<forall>(counter, rate) \<in> {(packets_sent, packets_sent_per_sec), (packets_recv, packets_recv_per_sec)}.
            \<exists>q n y. py_div (counter d - counter c) (float_sub now t0) = Inr (Finite q)
              \<and> \<bar>q - of_int (counter d - counter c) / (now - t0)\<bar>
                  \<le> \<bar>of_int (counter d - counter c) / (now - t0)\<bar> / 2 ^ 50
              \<and> rate e = Finite y
              \<and> binary64 (of_int n / 100) = Finite y
              \<and> \<bar>of_int n / 100 - q\<bar> \<le> 1 / 200
              \<and> \<bar>y - of_int n / 100\<bar> \<le> \<bar>of_int n / 100\<bar> / 2 ^ 53))"
    if pre: "last_counters nself = Some nlc \<and> last_time nself = Some t0
        \<and> (\<forall>(k, c) \<in> set nlc \<union> set ncounters.
              \<forall>v \<in> set (snetio_values c). 0 \<le> v \<and> v < 2 ^ 64)
        \<and> distinct (map fst ncounters) \<and> \<not> startswith interface ''lo''
        \<and> map_of nlc interface = Some c \<and> map_of ncounters interface = Some d"
  proof -
    from pre have range: "\<forall>(k, c) \<in> set nlc \<union> set ncounters.
              \<forall>v \<in> set (snetio_values c). 0 \<le> v \<and> v < 2 ^ 64"
      and lc: "last_counters nself = Some nlc" and lt: "last_time nself = Some t0"
      and ds: "distinct (map fst ncounters)" and nl: "\<not> startswith interface ''lo''"
      and ma: "map_of nlc interface = Some c" and mb: "map_of ncounters interface = Some d"
      by blast+
    from NetworkCollector_collect_entry [OF lc lt assms(1) lo hi range ds ma mb nl]
    obtain network_data e where
      c: "NetworkCollector_collect now ncounters nself
            = (Inr network_data, nself\<lparr>last_counters := Some ncounters, last_time := Some now\<rparr>)"
      and m: "map_of network_data interface = Some e"
      and e: "network_rate_entry c d (float_sub now t0) = Inr e"
      by blast
    from ma mb have "(interface, c) \<in> set nlc \<union> set ncounters"
      and "(interface, d) \<in> set nlc \<union> set ncounters"
      by (auto dest: map_of_SomeD)
    with range have "\<forall>v \<in> set (snetio_values c). 0 \<le> v \<and> v < 2 ^ 64"
      and "\<forall>v \<in> set (snetio_values d). 0 \<le> v \<and> v < 2 ^ 64"
      by blast+
    from network_rate_entry_rates [OF this lo hi] e c m show ?thesis
      by (simp only: sum.inject) blast
  qed
  from disk net show ?thesis by blast
qed

theorem collect_rates_negative_interval_witness:
  "(10::rat) \<noteq> 0 \<and> 2 powi (- 64) \<le> (10::rat) - 9 \<and> (10::rat) - 9 \<le> 2 ^ 64
   \<and> (\<exists>io_data e.
        DiskIOCollector_collect 9 [(''sda'', \<lparr>read_count = 5, write_count = 0, read_bytes = 3000, write_bytes = 0\<rparr>)]
          \<lparr>last_counters = Some [(''sda'', \<lparr>read_count = 0, write_count = 0, read_bytes = 1000, write_bytes = 0\<rparr>)], last_time = Some 10\<rparr>
          = (Inr io_data, \<lparr>last_counters = Some [(''sda'', \<lparr>read_count = 5, write_count = 0, read_bytes = 3000, write_bytes = 0\<rparr>)], last_time = Some 9\<rparr>)
      \<and> map_of io_data ''sda'' = Some e
      \<and> out_read_count e = 5
      \<and> out_write_count e = 0
      \<and> out_read_bytes e = 3000
      \<and> out_write_bytes e = 0
      \<and> (\<exists>q. py_div (3000 - 1000) (float_sub 9 10) = Inr (Finite q)
            \<and> \<bar>q - of_int (3000 - 1000) / (9 - 10)\<bar>
                \<le> \<bar>of_int (3000 - 1000) / (9 - 10)\<bar> / 2 ^ 50
            \<and> read_bytes_per_sec e = py_int q
            \<and> \<bar>of_int (read_bytes_per_sec e) - q\<bar> < 1 \<and> \<bar>of_int (read_bytes_per_sec e) :: rat\<bar> \<le> \<bar>q\<bar>)
      \<and> (\<exists>q. py_div (0 - 0) (float_sub 9 10) = Inr (Finite q)
            \<and> \<bar>q - of_int (0 - 0) / (9 - 10)\<bar>
                \<le> \<bar>of_int (0 - 0) / (9 - 10)\<bar> / 2 ^ 50
            \<and> write_bytes_per_sec e = py_int q
            \<and> \<bar>of_int (write_bytes_per_sec e) - q\<bar> < 1 \<and> \<bar>of_int (write_bytes_per_sec e) :: rat\<bar> \<le> \<bar>q\<bar>)
      \<and> (\<exists>q n y. py_div (5 - 0) (float_sub 9 10) = Inr (Finite q)
            \<and> \<bar>q - of_int (5 - 0) / (9 - 10)\<bar>
                \<le> \<bar>of_int (5 - 0) / (9 - 10)\<bar> / 2 ^ 50
            \<and> read_iops e = Finite y
            \<and> binary64 (of_int n / 100) = Finite y
            \<and> \<bar>of_int n / 100 - q\<bar> \<le> 1 / 200
            \<and> \<bar>y - of_int n / 100\<bar> \<le> \<bar>of_int n / 100\<bar> / 2 ^ 53)
      \<and> (\<exists>q n y. py_div (0 - 0) (float_sub 9 10) = Inr (Finite q)
            \<and> \<bar>q - of_int (0 - 0) / (9 - 10)\<bar>
                \<le> \<bar>of_int (0 - 0) / (9 - 10)\<bar> / 2 ^ 50
            \<and> write_iops e = Finite y
            \<and> binary64 (of_int n / 100) = Finite y
            \<and> \<bar>of_int n / 100 - q\<bar> \<le> 1 / 200
            \<and> \<bar>y - of_int n / 100\<bar> \<le> \<bar>of_int n / 100\<bar> / 2 ^ 53))
   \<and> (\<exists>network_data e.
        NetworkCollector_collect 9 [(''eth0'', \<lparr>bytes_sent = 500, bytes_recv = 900, packets_sent = 13, packets_recv = 1, errin = 0, errout = 0, dropin = 0, dropout = 0\<rparr>)]
          \<lparr>last_counters = Some [(''eth0'', \<lparr>bytes_sent = 100, bytes_recv = 200, packets_sent = 10, packets_recv = 1, errin = 0, errout = 0, dropin = 0, dropout = 0\<rparr>)], last_time = Some 10\<rparr>
          = (Inr network_data, \<lparr>last_counters = Some [(''eth0'', \<lparr>bytes_sent = 500, bytes_recv = 900, packets_sent = 13, packets_recv = 1, errin = 0, errout = 0, dropin = 0, dropout = 0\<rparr>)], last_time = Some 9\<rparr>)
      \<and> map_of network_data ''eth0'' = Some e
      \<and> out_bytes_sent e = 500
      \<and> out_bytes_recv e = 900
      \<and> out_packets_sent e = 13
      \<and> out_packets_recv e = 1
      \<and> out_errin e = 0
      \<and> out_errout e = 0
      \<and> out_dropin e = 0
      \<and> out_dropout e = 0
      \<and> (\<exists>q. py_div (500 - 100) (float_sub 9 10) = Inr (Finite q)
            \<and> \<bar>q - of_int (500 - 100) / (9 - 10)\<bar>
                \<le> \<bar>of_int (500 - 100) / (9 - 10)\<bar> / 2 ^ 50
            \<and> bytes_sent_per_sec e = py_int q
            \<and> \<bar>of_int (bytes_sent_per_sec e) - q\<bar> < 1 \<and> \<bar>of_int (bytes_sent_per_sec e) :: rat\<bar> \<le> \<bar>q\<bar>)
      \<and> (\<exists>q. py_div (900 - 200) (float_sub 9 10) = Inr (Finite q)
            \<and> \<bar>q - of_int (900 - 200) / (9 - 10)\<bar>
                \<le> \<bar>of_int (900 - 200) / (9 - 10)\<bar> / 2 ^ 50
            \<and> bytes_recv_per_sec e = py_int q
            \<and> \<bar>of_int (bytes_recv_per_sec e) - q\<bar> < 1 \<and> \<bar>of_int (bytes_recv_per_sec e) :: rat\<bar> \<le> \<bar>q\<bar>)
      \<and> (\<exists>q n y. py_div (13 - 10) (float_sub 9 10) = Inr (Finite q)
            \<and> \<bar>q - of_int (13 - 10) / (9 - 10)\<bar>
                \<le> \<bar>of_int (13 - 10) / (9 - 10)\<bar> / 2 ^ 50
            \<and> packets_sent_per_sec e = Finite y
            \<and> binary64 (of_int n / 100) = Finite y
            \<and> \<bar>of_int n / 100 - q\<bar> \<le> 1 / 200
            \<and> \<bar>y - of_int n / 100\<bar> \<le> \<bar>of_int n / 100\<bar> / 2 ^ 53)
      \<and> (\<exists>q n y. py_div (1 - 1) (float_sub 9 10) = Inr (Finite q)
            \<and> \<bar>q - of_int (1 - 1) / (9 - 10)\<bar>
                \<le> \<bar>of_int (1 - 1) / (9 - 10)\<bar> / 2 ^ 50
            \<and> packets_recv_per_sec e = Finite y
            \<and> binary64 (of_int n / 100) = Finite y
            \<and> \<bar>of_int n / 100 - q\<bar> \<le> 1 / 200
            \<and> \<bar>y - of_int n / 100\<bar> \<le> \<bar>of_int n / 100\<bar> / 2 ^ 53))"
proof -
  define a :: sdiskio where "a = \<lparr>read_count = 0, write_count = 0, read_bytes = 1000, write_bytes = 0\<rparr>"
  define b :: sdiskio where "b = \<lparr>read_count = 5, write_count = 0, read_bytes = 3000, write_bytes = 0\<rparr>"
  define c :: snetio where "c = \<lparr>bytes_sent = 100, bytes_recv = 200, packets_sent = 10, packets_recv = 1, errin = 0, errout = 0, dropin = 0, dropout = 0\<rparr>"
  define d :: snetio where "d = \<lparr>bytes_sent = 500, bytes_recv = 900, packets_sent = 13, packets_recv = 1, errin = 0, errout = 0, dropin = 0, dropout = 0\<rparr>"
  define ds :: "sdiskio rate_collector" where
    "ds = \<lparr>last_counters = Some [(''sda'', a)], last_time = Some 10\<rparr>"
  define ns :: "snetio rate_collector" where
    "ns = \<lparr>last_counters = Some [(''eth0'', c)], last_time = Some 10\<rparr>"
  have h: "(10::rat) \<noteq> 0 \<and> 2 powi (- 64) \<le> (10::rat) - 9 \<and> (10::rat) - 9 \<le> 2 ^ 64"
    by simp
  have dpre: "last_counters ds = Some [(''sda'', a)] \<and> last_time ds = Some 10
        \<and> (\<forall>(k, c) \<in> set [(''sda'', a)] \<union> set [(''sda'', b)].
              \<forall>v \<in> set (sdiskio_values c). 0 \<le> v \<and> v < 2 ^ 64)
        \<and> distinct (map fst [(''sda'', b)])
        \<and> map_of [(''sda'', a)] ''sda'' = Some a \<and> map_of [(''sda'', b)] ''sda'' = Some b"
    by (simp add: ds_def a_def b_def sdiskio_values_def)
  have npre: "last_counters ns = Some [(''eth0'', c)] \<and> last_time ns = Some 10
        \<and> (\<forall>(k, c) \<in> set [(''eth0'', c)] \<union> set [(''eth0'', d)].
              \<forall>v \<in> set (snetio_values c). 0 \<le> v \<and> v < 2 ^ 64)
        \<and> distinct (map fst [(''eth0'', d)]) \<and> \<not> startswith ''eth0'' ''lo''
        \<and> map_of [(''eth0'', c)] ''eth0'' = Some c \<and> map_of [(''eth0'', d)] ''eth0'' = Some d"
    by (simp add: ns_def c_def d_def snetio_values_def startswith_def)
  from h have h1: "(10::rat) \<noteq> 0" and h2: "2 powi (- 64) \<le> (10::rat) - 9" and h3: "(10::rat) - 9 \<le> 2 ^ 64"
    by blast+
  note res = collect_rates_negative_interval [OF h1 h2 h3, where dself = ds and dlc = "[(''sda'', a)]"
      and dcounters = "[(''sda'', b)]" and disk = "''sda''" and a = a and b = b
      and nself = ns and nlc = "[(''eth0'', c)]" and ncounters = "[(''eth0'', d)]"
      and interface = "''eth0''" and c = c and d = d]
  from res dpre have dres: "(\<exists>io_data e.
           DiskIOCollector_collect 9 [(''sda'', b)] ds
             = (Inr io_data, ds\<lparr>last_counters := Some [(''sda'', b)], last_time := Some 9\<rparr>)
         \<and> map_of io_data ''sda'' = Some e
         \<and> out_read_count e = read_count b \<and> out_write_count e = write_count b
         \<and> out_read_bytes e = read_bytes b \<and> out_write_bytes e = write_bytes b
         \<and> (\<forall>(counter, rate) \<in> {(read_bytes, read_bytes_per_sec), (write_bytes, write_bytes_per_sec)}.
            \<exists>q. py_div (counter b - counter a) (float_sub 9 10) = Inr (Finite q)
              \<and> \<bar>q - of_int (counter b - counter a) / (9 - 10)\<bar>
                  \<le> \<bar>of_int (counter b - counter a) / (9 - 10)\<bar> / 2 ^ 50
              \<and> rate e = py_int q
              \<and> \<bar>of_int (rate e) - q\<bar> < 1 \<and> \<bar>of_int (rate e) :: rat\<bar> \<le> \<bar>q\<bar>)
         \<and> (\<forall>(counter, rate) \<in> {(read_count, read_iops), (write_count, write_iops)}.
            \<exists>q n y. py_div (counter b - counter a) (float_sub 9 10) = Inr (Finite q)
              \<and> \<bar>q - of_int (counter b - counter a) / (9 - 10)\<bar>
                  \<le> \<bar>of_int (counter b - counter a) / (9 - 10)\<bar> / 2 ^ 50
              \<and> rate e = Finite y
              \<and> binary64 (of_int n / 100) = Finite y
              \<and> \<bar>of_int n / 100 - q\<bar> \<le> 1 / 200
              \<and> \<bar>y - of_int n / 100\<bar> \<le> \<bar>of_int n / 100\<bar> / 2 ^ 53))"
    by blast
  from res npre have nres: "(\<exists>network_data e.
           NetworkCollector_collect 9 [(''eth0'', d)] ns
             = (Inr network_data, ns\<lparr>last_counters := Some [(''eth0'', d)], last_time := Some 9\<rparr>)
         \<and> map_of network_data ''eth0'' = Some e
         \<and> out_bytes_sent e = bytes_sent d \<and> out_bytes_recv e = bytes_recv d
         \<and> out_packets_sent e = packets_sent d \<and> out_packets_recv e = packets_recv d
         \<and> out_errin e = errin d \<and> out_errout e = errout d
         \<and> out_dropin e = dropin d \<and> out_dropout e = dropout d
         \<and> (\<forall>(counter, rate) \<in> {(bytes_sent, bytes_sent_per_sec), (bytes_recv, bytes_recv_per_sec)}.
            \<exists>q. py_div (counter d - counter c) (float_sub 9 10) = Inr (Finite q)
              \<and> \<bar>q - of_int (counter d - counter c) / (9 - 10)\<bar>
                  \<le> \<bar>of_int (counter d - counter c) / (9 - 10)\<bar> / 2 ^ 50
              \<and> rate e = py_int q
              \<and> \<bar>of_int (rate e) - q\<bar> < 1 \<and> \<bar>of_int (rate e) :: rat\<bar> \<le> \<bar>q\<bar>)
         \<and> (\<forall>(counter, rate) \<in> {(packets_sent, packets_sent_per_sec), (packets_recv, packets_recv_per_sec)}.
            \<exists>q n y. py_div (counter d - counter c) (float_sub 9 10) = Inr (Finite q)
              \<and> \<bar>q - of_int (counter d - counter c) / (9 - 10)\<bar>
                  \<le> \<bar>of_int (counter d - counter c) / (9 - 10)\<bar> / 2 ^ 50
              \<and> rate e = Finite y
              \<and> binary64 (of_int n / 100) = Finite y
              \<and> \<bar>of_int n / 100 - q\<bar> \<le> 1 / 200
              \<and> \<bar>y - of_int n / 100\<bar> \<le> \<bar>of_int n / 100\<bar> / 2 ^ 53))"
    by blast
  have 1: "(\<exists>io_data e.
        DiskIOCollector_collect 9 [(''sda'', \<lparr>read_count = 5, write_count = 0, read_bytes = 3000, write_bytes = 0\<rparr>)]
          \<lparr>last_counters = Some [(''sda'', \<lparr>read_count = 0, write_count = 0, read_bytes = 1000, write_bytes = 0\<rparr>)], last_time = Some 10\<rparr>
          = (Inr io_data, \<lparr>last_counters = Some [(''sda'', \<lparr>read_count = 5, write_count = 0, read_bytes = 3000, write_bytes = 0\<rparr>)], last_time = Some 9\<rparr>)
      \<and> map_of io_data ''sda'' = Some e
      \<and> out_read_count e = 5
      \<and> out_write_count e = 0
      \<and> out_read_bytes e = 3000
      \<and> out_write_bytes e = 0
      \<and> (\<exists>q. py_div (3000 - 1000) (float_sub 9 10) = Inr (Finite q)
            \<and> \<bar>q - of_int (3000 - 1000) / (9 - 10)\<bar>
                \<le> \<bar>of_int (3000 - 1000) / (9 - 10)\<bar> / 2 ^ 50
            \<and> read_bytes_per_sec e = py_int q
            \<and> \<bar>of_int (read_bytes_per_sec e) - q\<bar> < 1 \<and> \<bar>of_int (read_bytes_per_sec e) :: rat\<bar> \<le> \<bar>q\<bar>)
      \<and> (\<exists>q. py_div (0 - 0) (float_sub 9 10) = Inr (Finite q)
            \<and> \<bar>q - of_int (0 - 0) / (9 - 10)\<bar>
                \<le> \<bar>of_int (0 - 0) / (9 - 10)\<bar> / 2 ^ 50
            \<and> write_bytes_per_sec e = py_int q
            \<and> \<bar>of_int (write_bytes_per_sec e) - q\<bar> < 1 \<and> \<bar>of_int (write_bytes_per_sec e) :: rat\<bar> \<le> \<bar>q\<bar>)
      \<and> (\<exists>q n y. py_div (5 - 0) (float_sub 9 10) = Inr (Finite q)
            \<and> \<bar>q - of_int (5 - 0) / (9 - 10)\<bar>
                \<le> \<bar>of_int (5 - 0) / (9 - 10)\<bar> / 2 ^ 50
            \<and> read_iops e = Finite y
            \<and> binary64 (of_int n / 100) = Finite y
            \<and> \<bar>of_int n / 100 - q\<bar> \<le> 1 / 200
            \<and> \<bar>y - of_int n / 100\<bar> \<le> \<bar>of_int n / 100\<bar> / 2 ^ 53)
      \<and> (\<exists>q n y. py_div (0 - 0) (float_sub 9 10) = Inr (Finite q)
            \<and> \<bar>q - of_int (0 - 0) / (9 - 10)\<bar>
                \<le> \<bar>of_int (0 - 0) / (9 - 10)\<bar> / 2 ^ 50
            \<and> write_iops e = Finite y
            \<and> binary64 (of_int n / 100) = Finite y
            \<and> \<bar>of_int n / 100 - q\<bar> \<le> 1 / 200
            \<and> \<bar>y - of_int n / 100\<bar> \<le> \<bar>of_int n / 100\<bar> / 2 ^ 53))"
    using dres unfolding ds_def a_def b_def
    by (simp only: sdiskio.simps rate_collector.simps ball_simps prod.case simp_thms conj_assoc)
  have 2: "(\<exists>network_data e.
        NetworkCollector_collect 9 [(''eth0'', \<lparr>bytes_sent = 500, bytes_recv = 900, packets_sent = 13, packets_recv = 1, errin = 0, errout = 0, dropin = 0, dropout = 0\<rparr>)]
          \<lparr>last_counters = Some [(''eth0'', \<lparr>bytes_sent = 100, bytes_recv = 200, packets_sent = 10, packets_recv = 1, errin = 0, errout = 0, dropin = 0, dropout = 0\<rparr>)], last_time = Some 10\<rparr>
          = (Inr network_data, \<lparr>last_counters = Some [(''eth0'', \<lparr>bytes_sent = 500, bytes_recv = 900, packets_sent = 13, packets_recv = 1, errin = 0, errout = 0, dropin = 0, dropout = 0\<rparr>)], last_time = Some 9\<rparr>)
      \<and> map_of network_data ''eth0'' = Some e
      \<and> out_bytes_sent e = 500
      \<and> out_bytes_recv e = 900
      \<and> out_packets_sent e = 13
      \<and> out_packets_recv e = 1
      \<and> out_errin e = 0
      \<and> out_errout e = 0
      \<and> out_dropin e = 0
      \<and> out_dropout e = 0
      \<and> (\<exists>q. py_div (500 - 100) (float_sub 9 10) = Inr (Finite q)
            \<and> \<bar>q - of_int (500 - 100) / (9 - 10)\<bar>
                \<le> \<bar>of_int (500 - 100) / (9 - 10)\<bar> / 2 ^ 50
            \<and> bytes_sent_per_sec e = py_int q
            \<and> \<bar>of_int (bytes_sent_per_sec e) - q\<bar> < 1 \<and> \<bar>of_int (bytes_sent_per_sec e) :: rat\<bar> \<le> \<bar>q\<bar>)
      \<and> (\<exists>q. py_div (900 - 200) (float_sub 9 10) = Inr (Finite q)
            \<and> \<bar>q - of_int (900 - 200) / (9 - 10)\<bar>
                \<le> \<bar>of_int (900 - 200) / (9 - 10)\<bar> / 2 ^ 50
            \<and> bytes_recv_per_sec e = py_int q
            \<and> \<bar>of_int (bytes_recv_per_sec e) - q\<bar> < 1 \<and> \<bar>of_int (bytes_recv_per_sec e) :: rat\<bar> \<le> \<bar>q\<bar>)
      \<and> (\<exists>q n y. py_div (13 - 10) (float_sub 9 10) = Inr (Finite q)
            \<and> \<bar>q - of_int (13 - 10) / (9 - 10)\<bar>
                \<le> \<bar>of_int (13 - 10) / (9 - 10)\<bar> / 2 ^ 50
            \<and> packets_sent_per_sec e = Finite y
            \<and> binary64 (of_int n / 100) = Finite y
            \<and> \<bar>of_int n / 100 - q\<bar> \<le> 1 / 200
            \<and> \<bar>y - of_int n / 100\<bar> \<le> \<bar>of_int n / 100\<bar> / 2 ^ 53)
      \<and> (\<exists>q n y. py_div (1 - 1) (float_sub 9 10) = Inr (Finite q)
            \<and> \<bar>q - of_int (1 - 1) / (9 - 10)\<bar>
                \<le> \<bar>of_int (1 - 1) / (9 - 10)\<bar> / 2 ^ 50
            \<and> packets_recv_per_sec e = Finite y
            \<and> binary64 (of_int n / 100) = Finite y
            \<and> \<bar>of_int n / 100 - q\<bar> \<le> 1 / 200
            \<and> \<bar>y - of_int n / 100\<bar> \<le> \<bar>of_int n / 100\<bar> / 2 ^ 53))"
    using nres unfolding ns_def c_def d_def
    by (simp only: snetio.simps rate_collector.simps ball_simps prod.case simp_thms conj_assoc)
  from h 1 2 show ?thesis by blast
qed

text \<open>
  The claim as it was stated fails both ways. With the clock one second back, the rates
  returned are not zero and the stored sample is replaced; with the clock unchanged, the
  division raises \<^verbatim>\<open>ZeroDivisionError\<close>.
\<close>

theorem collect_nonpositive_interval_counterexample:
  "DiskIOCollector_collect 9
     [(''sda'', \<lparr>read_count = 5, write_count = 0, read_bytes = 3000, write_bytes = 0\<rparr>)]
     (snd (DiskIOCollector_collect 10
             [(''sda'', \<lparr>read_count = 0, write_count = 0, read_bytes = 1000, write_bytes = 0\<rparr>)]
             collector_init))
     = (Inr [(''sda'', \<lparr>read_bytes_per_sec = - 2000, write_bytes_per_sec = 0, read_iops = Finite (- 5), write_iops = Finite 0, out_read_count = 5, out_write_count = 0, out_read_bytes = 3000, out_write_bytes = 0\<rparr>)],
        \<lparr>last_counters = Some [(''sda'', \<lparr>read_count = 5, write_count = 0, read_bytes = 3000, write_bytes = 0\<rparr>)], last_time = Some 9\<rparr>)
   \<and> DiskIOCollector_collect 10
        [(''sda'', \<lparr>read_count = 5, write_count = 0, read_bytes = 3000, write_bytes = 0\<rparr>)]
        (snd (DiskIOCollector_collect 10
                [(''sda'', \<lparr>read_count = 0, write_count = 0, read_bytes = 1000, write_bytes = 0\<rparr>)]
                collector_init))
     = (Inl ZeroDivisionError,
        \<lparr>last_counters = Some [(''sda'', \<lparr>read_count = 0, write_count = 0, read_bytes = 1000, write_bytes = 0\<rparr>)], last_time = Some 10\<rparr>)
   \<and> fst (NetworkCollector_collect 10
          [(''eth0'', \<lparr>bytes_sent = 500, bytes_recv = 900, packets_sent = 13, packets_recv = 1, errin = 0, errout = 0, dropin = 0, dropout = 0\<rparr>)]
          (snd (NetworkCollector_collect 10
                  [(''eth0'', \<lparr>bytes_sent = 100, bytes_recv = 200, packets_sent = 10, packets_recv = 1, errin = 0, errout = 0, dropin = 0, dropout = 0\<rparr>)]
                  collector_init)))
     = Inl ZeroDivisionError"
proof -
  have b: "binary64 0 = Finite 0" "binary64 (- 1) = Finite (- 1)" "binary64 5 = Finite 5"
    "binary64 (- 5) = Finite (- 5)" "binary64 2000 = Finite 2000"
    "binary64 (- 2000) = Finite (- 2000)" "binary64 400 = Finite 400"
    using binary64_representable [of 0 0] binary64_representable [of "- 1" 0]
      binary64_representable [of 5 0] binary64_representable [of "- 5" 0]
      binary64_representable [of 2000 0] binary64_representable [of "- 2000" 0]
      binary64_representable [of 400 0]
    by simp_all
  show ?thesis by (simp add: collect_eval b)
qed
section \<open>Keys without history and the loopback interface\<close>

lemma DiskIOCollector_collect_Inr:
  assumes "previous_sample self = Some (lc, t0)" and "counters \<noteq> []"
    and "DiskIOCollector_collect now counters self = (Inr io_data, self')"
  shows "disk_rate_loop lc (float_sub now t0) counters [] = Inr io_data
       \<and> self' = self\<lparr>last_counters := Some counters, last_time := Some now\<rparr>"
  using assms
  by (auto simp: DiskIOCollector_collect_def store_sample_def Let_def split: sum.splits)

lemma NetworkCollector_collect_Inr:
  assumes "previous_sample self = Some (lc, t0)"
    and "NetworkCollector_collect now counters self = (Inr network_data, self')"
  shows "network_rate_loop lc (float_sub now t0) counters [] = Inr network_data
       \<and> self' = self\<lparr>last_counters := Some counters, last_time := Some now\<rparr>"
  using assms
  by (auto simp: NetworkCollector_collect_def store_sample_def Let_def split: sum.splits)

text \<open>
  Claim C7, as the code has it. A collector holds a previous sample (not empty, taken
  at a time other than 0), and a disk or interface is present in the current counters but
  not in the previous ones. The rate loop has no branch for it: whenever the update
  returns, the key is absent from the returned output, and its counters are stored with
  the rest for the next cycle. Nothing is raised because of the missing history: the
  update returns whenever the rates of the keys that have history can be computed
  (the interval between \<open>2\<^sup>-\<^sup>6\<^sup>4\<close> and \<open>2\<^sup>6\<^sup>4\<close> seconds in absolute value, every counter
  at least 0 and below \<open>2\<^sup>6\<^sup>4\<close>), and when no current key has history it returns an
  empty output whatever the interval and the counters.
\<close>

theorem collect_key_without_history:
  fixes dself :: "sdiskio rate_collector" and nself :: "snetio rate_collector"
  assumes "t0 \<noteq> 0"
  shows
    "(last_counters dself = Some dlc \<and> dlc \<noteq> [] \<and> last_time dself = Some t0
        \<and> map_of dlc disk = None \<and> map_of dcounters disk = Some b \<longrightarrow>
        (\<forall>io_data self'.
           DiskIOCollector_collect now dcounters dself = (Inr io_data, self') \<longrightarrow>
             map_of io_data disk = None \<and> last_counters self' = Some dcounters)
      \<and> (2 powi (- 64) \<le> \<bar>now - t0\<bar> \<and> \<bar>now - t0\<bar> \<le> 2 ^ 64
           \<and> (\<forall>(k, c) \<in> set dlc \<union> set dcounters.
                 \<forall>v \<in> set (sdiskio_values c). 0 \<le> v \<and> v < 2 ^ 64) \<longrightarrow>
            (\<exists>io_data. fst (DiskIOCollector_collect now dcounters dself) = Inr io_data))
      \<and> ((\<forall>k \<in> fst ` set dcounters. map_of dlc k = None) \<longrightarrow>
            fst (DiskIOCollector_collect now dcounters dself) = Inr []))
   \<and> (last_counters nself = Some nlc \<and> nlc \<noteq> [] \<and> last_time nself = Some t0
        \<and> map_of nlc interface = None \<and> map_of ncounters interface = Some d \<longrightarrow>
        (\<forall>network_data self'.
           NetworkCollector_collect now ncounters nself = (Inr network_data, self') \<longrightarrow>
             map_of network_data interface = None \<and> last_counters self' = Some ncounters)
      \<and> (2 powi (- 64) \<le> \<bar>now - t0\<bar> \<and> \<bar>now - t0\<bar> \<le> 2 ^ 64
           \<and> (\<forall>(k, c) \<in> set nlc \<union> set ncounters.
                 \<forall>v \<in> set (snetio_values c). 0 \<le> v \<and> v < 2 ^ 64) \<longrightarrow>
            (\<exists>network_data. fst (NetworkCollector_collect now ncounters nself) = Inr network_data))
      \<and> ((\<forall>k \<in> fst ` set ncounters. map_of nlc k = None) \<longrightarrow>
            fst (NetworkCollector_collect now ncounters nself) = Inr []))"
proof (intro conjI impI)
  assume h: "last_counters dself = Some dlc \<and> dlc \<noteq> [] \<and> last_time dself = Some t0
        \<and> map_of dlc disk = None \<and> map_of dcounters disk = Some b"
  then have p: "previous_sample dself = Some (dlc, t0)"
    using assms by (simp add: previous_sample_Some)
  from h have cs: "dcounters \<noteq> []" by auto
  show "\<forall>io_data self'.
           DiskIOCollector_collect now dcounters dself = (Inr io_data, self') \<longrightarrow>
             map_of io_data disk = None \<and> last_counters self' = Some dcounters"
  proof (intro allI impI)
    fix io_data self'
    assume "DiskIOCollector_collect now dcounters dself = (Inr io_data, self')"
    from DiskIOCollector_collect_Inr [OF p cs this] h
      disk_rate_loop_new_key [of dlc disk "float_sub now t0" dcounters "[]" io_data]
    show "map_of io_data disk = None \<and> last_counters self' = Some dcounters" by simp
  qed
  show "\<exists>io_data. fst (DiskIOCollector_collect now dcounters dself) = Inr io_data"
    if "2 powi (- 64) \<le> \<bar>now - t0\<bar> \<and> \<bar>now - t0\<bar> \<le> 2 ^ 64
           \<and> (\<forall>(k, c) \<in> set dlc \<union> set dcounters.
                 \<forall>v \<in> set (sdiskio_values c). 0 \<le> v \<and> v < 2 ^ 64)"
    using DiskIOCollector_collect_returns [of now t0 dlc dcounters dself] that h
    by blast
  show "fst (DiskIOCollector_collect now dcounters dself) = Inr []"
    if "\<forall>k \<in> fst ` set dcounters. map_of dlc k = None"
    using disk_rate_loop_all_new [OF that, of "float_sub now t0" "[]"] p cs
    by (simp add: DiskIOCollector_collect_def)
next
  assume h: "last_counters nself = Some nlc \<and> nlc \<noteq> [] \<and> last_time nself = Some t0
        \<and> map_of nlc interface = None \<and> map_of ncounters interface = Some d"
  then have p: "previous_sample nself = Some (nlc, t0)"
    using assms by (simp add: previous_sample_Some)
  show "\<forall>network_data self'.
           NetworkCollector_collect now ncounters nself = (Inr network_data, self') \<longrightarrow>
             map_of network_data interface = None \<and> last_counters self' = Some ncounters"
  proof (intro allI impI)
    fix network_data self'
    assume "NetworkCollector_collect now ncounters nself = (Inr network_data, self')"
    from NetworkCollector_collect_Inr [OF p this] h
      network_rate_loop_new_key [of nlc interface "float_sub now t0" ncounters "[]" network_data]
    show "map_of network_data interface = None \<and> last_counters self' = Some ncounters"
      by simp
  qed
  show "\<exists>network_data. fst (NetworkCollector_collect now ncounters nself) = Inr network_data"
    if "2 powi (- 64) \<le> \<bar>now - t0\<bar> \<and> \<bar>now - t0\<bar> \<le> 2 ^ 64
           \<and> (\<forall>(k, c) \<in> set nlc \<union> set ncounters.
                 \<forall>v \<in> set (snetio_values c). 0 \<le> v \<and> v < 2 ^ 64)"
    using NetworkCollector_collect_returns [of now t0 nlc ncounters nself] that h
    by blast
  show "fst (NetworkCollector_collect now ncounters nself) = Inr []"
    if "\<forall>k \<in> fst ` set ncounters. map_of nlc k = None"
    using network_rate_loop_all_new [OF that, of "float_sub now t0" "[]"] p
    by (simp add: NetworkCollector_collect_def)
qed

theorem collect_key_without_history_witness:
  "(10::rat) \<noteq> 0 \<and> 2 powi (- 64) \<le> \<bar>(12::rat) - 10\<bar> \<and> \<bar>(12::rat) - 10\<bar> \<le> 2 ^ 64
   \<and> map_of (projr (fst (DiskIOCollector_collect 12
          [(''sda'', \<lparr>read_count = 5, write_count = 0, read_bytes = 3000, write_bytes = 0\<rparr>), (''sdb'', \<lparr>read_count = 7, write_count = 0, read_bytes = 400, write_bytes = 0\<rparr>)]
          \<lparr>last_counters = Some [(''sda'', \<lparr>read_count = 0, write_count = 0, read_bytes = 1000, write_bytes = 0\<rparr>)], last_time = Some 10\<rparr>))) ''sdb''
       = None
   \<and> last_counters (snd (DiskIOCollector_collect 12
          [(''sda'', \<lparr>read_count = 5, write_count = 0, read_bytes = 3000, write_bytes = 0\<rparr>), (''sdb'', \<lparr>read_count = 7, write_count = 0, read_bytes = 400, write_bytes = 0\<rparr>)]
          \<lparr>last_counters = Some [(''sda'', \<lparr>read_count = 0, write_count = 0, read_bytes = 1000, write_bytes = 0\<rparr>)], last_time = Some 10\<rparr>))
       = Some [(''sda'', \<lparr>read_count = 5, write_count = 0, read_bytes = 3000, write_bytes = 0\<rparr>), (''sdb'', \<lparr>read_count = 7, write_count = 0, read_bytes = 400, write_bytes = 0\<rparr>)]
   \<and> map_of (projr (fst (NetworkCollector_collect 12
          [(''eth0'', \<lparr>bytes_sent = 500, bytes_recv = 900, packets_sent = 13, packets_recv = 1, errin = 0, errout = 0, dropin = 0, dropout = 0\<rparr>), (''eth1'', \<lparr>bytes_sent = 1, bytes_recv = 2, packets_sent = 3, packets_recv = 1, errin = 0, errout = 0, dropin = 0, dropout = 0\<rparr>)]
          \<lparr>last_counters = Some [(''eth0'', \<lparr>bytes_sent = 100, bytes_recv = 200, packets_sent = 10, packets_recv = 1, errin = 0, errout = 0, dropin = 0, dropout = 0\<rparr>)], last_time = Some 10\<rparr>))) ''eth1''
       = None
   \<and> last_counters (snd (NetworkCollector_collect 12
          [(''eth0'', \<lparr>bytes_sent = 500, bytes_recv = 900, packets_sent = 13, packets_recv = 1, errin = 0, errout = 0, dropin = 0, dropout = 0\<rparr>), (''eth1'', \<lparr>bytes_sent = 1, bytes_recv = 2, packets_sent = 3, packets_recv = 1, errin = 0, errout = 0, dropin = 0, dropout = 0\<rparr>)]
          \<lparr>last_counters = Some [(''eth0'', \<lparr>bytes_sent = 100, bytes_recv = 200, packets_sent = 10, packets_recv = 1, errin = 0, errout = 0, dropin = 0, dropout = 0\<rparr>)], last_time = Some 10\<rparr>))
       = Some [(''eth0'', \<lparr>bytes_sent = 500, bytes_recv = 900, packets_sent = 13, packets_recv = 1, errin = 0, errout = 0, dropin = 0, dropout = 0\<rparr>), (''eth1'', \<lparr>bytes_sent = 1, bytes_recv = 2, packets_sent = 3, packets_recv = 1, errin = 0, errout = 0, dropin = 0, dropout = 0\<rparr>)]"
proof -
  define dcs :: "(string \<times> sdiskio) list" where
    "dcs = [(''sda'', \<lparr>read_count = 5, write_count = 0, read_bytes = 3000, write_bytes = 0\<rparr>), (''sdb'', \<lparr>read_count = 7, write_count = 0, read_bytes = 400, write_bytes = 0\<rparr>)]"
  define ds :: "sdiskio rate_collector" where
    "ds = \<lparr>last_counters = Some [(''sda'', \<lparr>read_count = 0, write_count = 0, read_bytes = 1000, write_bytes = 0\<rparr>)], last_time = Some 10\<rparr>"
  define ncs :: "(string \<times> snetio) list" where
    "ncs = [(''eth0'', \<lparr>bytes_sent = 500, bytes_recv = 900, packets_sent = 13, packets_recv = 1, errin = 0, errout = 0, dropin = 0, dropout = 0\<rparr>), (''eth1'', \<lparr>bytes_sent = 1, bytes_recv = 2, packets_sent = 3, packets_recv = 1, errin = 0, errout = 0, dropin = 0, dropout = 0\<rparr>)]"
  define ns :: "snetio rate_collector" where
    "ns = \<lparr>last_counters = Some [(''eth0'', \<lparr>bytes_sent = 100, bytes_recv = 200, packets_sent = 10, packets_recv = 1, errin = 0, errout = 0, dropin = 0, dropout = 0\<rparr>)], last_time = Some 10\<rparr>"
  have h1: "(10::rat) \<noteq> 0"
    and h2: "2 powi (- 64) \<le> \<bar>(12::rat) - 10\<bar>" and h3: "\<bar>(12::rat) - 10\<bar> \<le> 2 ^ 64"
    by simp_all
  have dr: "\<forall>(k, c) \<in> set [(''sda'', \<lparr>read_count = 0, write_count = 0, read_bytes = 1000, write_bytes = 0\<rparr>)] \<union> set dcs.
              \<forall>v \<in> set (sdiskio_values c). 0 \<le> v \<and> v < 2 ^ 64"
    by (simp add: dcs_def sdiskio_values_def)
  have nr: "\<forall>(k, c) \<in> set [(''eth0'', \<lparr>bytes_sent = 100, bytes_recv = 200, packets_sent = 10, packets_recv = 1, errin = 0, errout = 0, dropin = 0, dropout = 0\<rparr>)] \<union> set ncs.
              \<forall>v \<in> set (snetio_values c). 0 \<le> v \<and> v < 2 ^ 64"
    by (simp add: ncs_def snetio_values_def)
  have dpre: "last_counters ds = Some [(''sda'', \<lparr>read_count = 0, write_count = 0, read_bytes = 1000, write_bytes = 0\<rparr>)]
        \<and> [(''sda'', \<lparr>read_count = 0, write_count = 0, read_bytes = 1000, write_bytes = 0\<rparr>)] \<noteq> [] \<and> last_time ds = Some 10
        \<and> map_of [(''sda'', \<lparr>read_count = 0, write_count = 0, read_bytes = 1000, write_bytes = 0\<rparr>)] ''sdb'' = None
        \<and> map_of dcs ''sdb'' = Some \<lparr>read_count = 7, write_count = 0, read_bytes = 400, write_bytes = 0\<rparr>"
    by (simp add: ds_def dcs_def)
  have npre: "last_counters ns = Some [(''eth0'', \<lparr>bytes_sent = 100, bytes_recv = 200, packets_sent = 10, packets_recv = 1, errin = 0, errout = 0, dropin = 0, dropout = 0\<rparr>)]
        \<and> [(''eth0'', \<lparr>bytes_sent = 100, bytes_recv = 200, packets_sent = 10, packets_recv = 1, errin = 0, errout = 0, dropin = 0, dropout = 0\<rparr>)] \<noteq> [] \<and> last_time ns = Some 10
        \<and> map_of [(''eth0'', \<lparr>bytes_sent = 100, bytes_recv = 200, packets_sent = 10, packets_recv = 1, errin = 0, errout = 0, dropin = 0, dropout = 0\<rparr>)] ''eth1'' = None
        \<and> map_of ncs ''eth1'' = Some \<lparr>bytes_sent = 1, bytes_recv = 2, packets_sent = 3, packets_recv = 1, errin = 0, errout = 0, dropin = 0, dropout = 0\<rparr>"
    by (simp add: ns_def ncs_def)
  note res = collect_key_without_history [OF h1, where now = 12
      and dself = ds and dlc = "[(''sda'', \<lparr>read_count = 0, write_count = 0, read_bytes = 1000, write_bytes = 0\<rparr>)]" and dcounters = dcs
      and disk = "''sdb''" and b = "\<lparr>read_count = 7, write_count = 0, read_bytes = 400, write_bytes = 0\<rparr>"
      and nself = ns and nlc = "[(''eth0'', \<lparr>bytes_sent = 100, bytes_recv = 200, packets_sent = 10, packets_recv = 1, errin = 0, errout = 0, dropin = 0, dropout = 0\<rparr>)]" and ncounters = ncs
      and interface = "''eth1''" and d = "\<lparr>bytes_sent = 1, bytes_recv = 2, packets_sent = 3, packets_recv = 1, errin = 0, errout = 0, dropin = 0, dropout = 0\<rparr>"]
  from res dpre h2 h3 dr obtain io_data where
    di: "fst (DiskIOCollector_collect 12 dcs ds) = Inr io_data" by blast
  then have "DiskIOCollector_collect 12 dcs ds = (Inr io_data, snd (DiskIOCollector_collect 12 dcs ds))"
    by (metis prod.collapse)
  with res dpre have dm: "map_of io_data ''sdb'' = None"
    and dl: "last_counters (snd (DiskIOCollector_collect 12 dcs ds)) = Some dcs"
    by blast+
  from res npre h2 h3 nr obtain network_data where
    ni: "fst (NetworkCollector_collect 12 ncs ns) = Inr network_data" by blast
  then have "NetworkCollector_collect 12 ncs ns
               = (Inr network_data, snd (NetworkCollector_collect 12 ncs ns))"
    by (metis prod.collapse)
  with res npre have nm: "map_of network_data ''eth1'' = None"
    and nl: "last_counters (snd (NetworkCollector_collect 12 ncs ns)) = Some ncs"
    by blast+
  have 1: "map_of (projr (fst (DiskIOCollector_collect 12 dcs ds))) ''sdb'' = None"
    by (simp only: di sum.sel dm)
  have 2: "map_of (projr (fst (NetworkCollector_collect 12 ncs ns))) ''eth1'' = None"
    by (simp only: ni sum.sel nm)
  from h1 h2 h3 1 dl 2 nl show ?thesis
    unfolding dcs_def ds_def ncs_def ns_def by blast
qed

text \<open>
  The claim as it was stated fails: with \<^verbatim>\<open>sda\<close> in the previous sample, and \<^verbatim>\<open>sda\<close>
  and \<^verbatim>\<open>sdb\<close> in the current one, the output has an entry for \<^verbatim>\<open>sda\<close> only; likewise
  for the interfaces \<^verbatim>\<open>eth0\<close> and \<^verbatim>\<open>eth1\<close>.
\<close>

theorem collect_key_without_history_counterexample:
  "fst (DiskIOCollector_collect 12
          [(''sda'', \<lparr>read_count = 5, write_count = 0, read_bytes = 3000, write_bytes = 0\<rparr>), (''sdb'', \<lparr>read_count = 7, write_count = 0, read_bytes = 400, write_bytes = 0\<rparr>)]
          (snd (DiskIOCollector_collect 10
                  [(''sda'', \<lparr>read_count = 0, write_count = 0, read_bytes = 1000, write_bytes = 0\<rparr>)]
                  collector_init)))
     = Inr [(''sda'', \<lparr>read_bytes_per_sec = 1000, write_bytes_per_sec = 0, read_iops = Finite (5 / 2), write_iops = Finite 0, out_read_count = 5, out_write_count = 0, out_read_bytes = 3000, out_write_bytes = 0\<rparr>)]
   \<and> fst (NetworkCollector_collect 12
          [(''eth0'', \<lparr>bytes_sent = 500, bytes_recv = 900, packets_sent = 13, packets_recv = 1, errin = 0, errout = 0, dropin = 0, dropout = 0\<rparr>), (''eth1'', \<lparr>bytes_sent = 1, bytes_recv = 2, packets_sent = 3, packets_recv = 1, errin = 0, errout = 0, dropin = 0, dropout = 0\<rparr>)]
          (snd (NetworkCollector_collect 10
                  [(''eth0'', \<lparr>bytes_sent = 100, bytes_recv = 200, packets_sent = 10, packets_recv = 1, errin = 0, errout = 0, dropin = 0, dropout = 0\<rparr>)]
                  collector_init)))
     = Inr [(''eth0'', \<lparr>out_bytes_sent = 500, out_bytes_recv = 900, out_packets_sent = 13, out_packets_recv = 1, bytes_sent_per_sec = 200, bytes_recv_per_sec = 350, packets_sent_per_sec = Finite (3 / 2), packets_recv_per_sec = Finite 0, out_errin = 0, out_errout = 0, out_dropin = 0, out_dropout = 0\<rparr>)]"
proof -
  have b: "binary64 0 = Finite 0" "binary64 2 = Finite 2" "binary64 3 = Finite 3"
    "binary64 5 = Finite 5" "binary64 (3 / 2) = Finite (3 / 2)"
    "binary64 (5 / 2) = Finite (5 / 2)" "binary64 200 = Finite 200" "binary64 350 = Finite 350"
    "binary64 400 = Finite 400" "binary64 700 = Finite 700" "binary64 1000 = Finite 1000"
    "binary64 2000 = Finite 2000"
    using binary64_representable [of 0 0] binary64_representable [of 2 0]
      binary64_representable [of 3 0] binary64_representable [of 5 0]
      binary64_representable [of 3 "- 1"] binary64_representable [of 5 "- 1"]
      binary64_representable [of 200 0] binary64_representable [of 350 0]
      binary64_representable [of 400 0] binary64_representable [of 700 0]
      binary64_representable [of 1000 0] binary64_representable [of 2000 0]
    by simp_all
  show ?thesis by (simp add: collect_eval b)
qed

text \<open>
  Claim C8, as the code has it. Whenever \<^verbatim>\<open>NetworkCollector.collect\<close> returns, no
  interface whose name starts with \<^verbatim>\<open>lo\<close> is a key of the returned data. The stored
  previous sample, however, is the whole dictionary of counters as psutil gave it,
  loopback entries included; they are stored and skipped again at the next cycle.
\<close>

theorem network_loopback_not_reported:
  assumes "NetworkCollector_collect now counters self = (Inr network_data, self')"
  shows "(startswith interface ''lo'' \<longrightarrow> map_of network_data interface = None)
       \<and> last_counters self' = Some counters \<and> last_time self' = Some now"
proof (cases "previous_sample self")
  case None
  with assms have n: "network_data = network_first_loop counters []"
    and s: "self' = store_sample counters now self"
    by (auto simp: NetworkCollector_collect_def)
  show ?thesis
    using network_first_loop_loopback [of interface counters "[]"]
    by (auto simp: n s store_sample_def)
next
  case (Some p)
  obtain lc t0 where p: "p = (lc, t0)" by (cases p)
  from NetworkCollector_collect_Inr [OF Some [unfolded p] assms]
    network_rate_loop_loopback [of interface lc "float_sub now t0" counters "[]" network_data]
  show ?thesis by auto
qed

theorem network_loopback_not_reported_witness:
  "startswith ''lo'' ''lo''
   \<and> map_of (projr (fst (NetworkCollector_collect 12
          [(''lo'', \<lparr>bytes_sent = 9, bytes_recv = 9, packets_sent = 4, packets_recv = 1, errin = 0, errout = 0, dropin = 0, dropout = 0\<rparr>), (''eth0'', \<lparr>bytes_sent = 500, bytes_recv = 900, packets_sent = 13, packets_recv = 1, errin = 0, errout = 0, dropin = 0, dropout = 0\<rparr>)]
          \<lparr>last_counters = Some [(''lo'', \<lparr>bytes_sent = 7, bytes_recv = 7, packets_sent = 2, packets_recv = 1, errin = 0, errout = 0, dropin = 0, dropout = 0\<rparr>), (''eth0'', \<lparr>bytes_sent = 100, bytes_recv = 200, packets_sent = 10, packets_recv = 1, errin = 0, errout = 0, dropin = 0, dropout = 0\<rparr>)],
           last_time = Some 10\<rparr>))) ''lo''
       = None
   \<and> last_counters (snd (NetworkCollector_collect 12
          [(''lo'', \<lparr>bytes_sent = 9, bytes_recv = 9, packets_sent = 4, packets_recv = 1, errin = 0, errout = 0, dropin = 0, dropout = 0\<rparr>), (''eth0'', \<lparr>bytes_sent = 500, bytes_recv = 900, packets_sent = 13, packets_recv = 1, errin = 0, errout = 0, dropin = 0, dropout = 0\<rparr>)]
          \<lparr>last_counters = Some [(''lo'', \<lparr>bytes_sent = 7, bytes_recv = 7, packets_sent = 2, packets_recv = 1, errin = 0, errout = 0, dropin = 0, dropout = 0\<rparr>), (''eth0'', \<lparr>bytes_sent = 100, bytes_recv = 200, packets_sent = 10, packets_recv = 1, errin = 0, errout = 0, dropin = 0, dropout = 0\<rparr>)],
           last_time = Some 10\<rparr>))
       = Some [(''lo'', \<lparr>bytes_sent = 9, bytes_recv = 9, packets_sent = 4, packets_recv = 1, errin = 0, errout = 0, dropin = 0, dropout = 0\<rparr>), (''eth0'', \<lparr>bytes_sent = 500, bytes_recv = 900, packets_sent = 13, packets_recv = 1, errin = 0, errout = 0, dropin = 0, dropout = 0\<rparr>)]"
proof -
  define ncs :: "(string \<times> snetio) list" where
    "ncs = [(''lo'', \<lparr>bytes_sent = 9, bytes_recv = 9, packets_sent = 4, packets_recv = 1, errin = 0, errout = 0, dropin = 0, dropout = 0\<rparr>), (''eth0'', \<lparr>bytes_sent = 500, bytes_recv = 900, packets_sent = 13, packets_recv = 1, errin = 0, errout = 0, dropin = 0, dropout = 0\<rparr>)]"
  define ns :: "snetio rate_collector" where
    "ns = \<lparr>last_counters = Some [(''lo'', \<lparr>bytes_sent = 7, bytes_recv = 7, packets_sent = 2, packets_recv = 1, errin = 0, errout = 0, dropin = 0, dropout = 0\<rparr>), (''eth0'', \<lparr>bytes_sent = 100, bytes_recv = 200, packets_sent = 10, packets_recv = 1, errin = 0, errout = 0, dropin = 0, dropout = 0\<rparr>)],
           last_time = Some 10\<rparr>"
  define out :: "(string \<times> network_entry) list" where
    "out = [(''eth0'', \<lparr>out_bytes_sent = 500, out_bytes_recv = 900, out_packets_sent = 13, out_packets_recv = 1, bytes_sent_per_sec = 200, bytes_recv_per_sec = 350, packets_sent_per_sec = Finite (3 / 2), packets_recv_per_sec = Finite 0, out_errin = 0, out_errout = 0, out_dropin = 0, out_dropout = 0\<rparr>)]"
  have lo: "startswith ''lo'' ''lo''" by (simp add: startswith_def)
  have b: "binary64 0 = Finite 0" "binary64 2 = Finite 2" "binary64 3 = Finite 3"
    "binary64 (3 / 2) = Finite (3 / 2)" "binary64 200 = Finite 200" "binary64 350 = Finite 350"
    "binary64 400 = Finite 400" "binary64 700 = Finite 700"
    using binary64_representable [of 0 0] binary64_representable [of 2 0]
      binary64_representable [of 3 0] binary64_representable [of 3 "- 1"]
      binary64_representable [of 200 0] binary64_representable [of 350 0]
      binary64_representable [of 400 0] binary64_representable [of 700 0]
    by simp_all
  have f: "fst (NetworkCollector_collect 12 ncs ns) = Inr out"
    unfolding ncs_def ns_def out_def by (simp add: collect_eval b)
  then have e: "NetworkCollector_collect 12 ncs ns
                  = (Inr out, snd (NetworkCollector_collect 12 ncs ns))"
    by (metis prod.collapse)
  from network_loopback_not_reported [OF e, of "''lo''"] lo
  have m: "map_of out ''lo'' = None"
    and l: "last_counters (snd (NetworkCollector_collect 12 ncs ns)) = Some ncs"
    by blast+
  have 1: "map_of (projr (fst (NetworkCollector_collect 12 ncs ns))) ''lo'' = None"
    by (simp only: f sum.sel m)
  from lo 1 l show ?thesis
    unfolding ncs_def ns_def by blast
qed

text \<open>
  The claim as it was stated fails in its second half: after a first collection with the
  interfaces \<^verbatim>\<open>lo\<close> and \<^verbatim>\<open>eth0\<close>, the returned data has \<^verbatim>\<open>eth0\<close> only, and the stored
  previous sample holds the counters of \<^verbatim>\<open>lo\<close> as well.
\<close>

theorem network_loopback_stored_counterexample:
  "NetworkCollector_collect 10
     [(''lo'', \<lparr>bytes_sent = 7, bytes_recv = 7, packets_sent = 2, packets_recv = 1, errin = 0, errout = 0, dropin = 0, dropout = 0\<rparr>), (''eth0'', \<lparr>bytes_sent = 100, bytes_recv = 200, packets_sent = 10, packets_recv = 1, errin = 0, errout = 0, dropin = 0, dropout = 0\<rparr>)]
     collector_init
     = (Inr [(''eth0'', \<lparr>out_bytes_sent = 100, out_bytes_recv = 200, out_packets_sent = 10, out_packets_recv = 1, bytes_sent_per_sec = 0, bytes_recv_per_sec = 0, packets_sent_per_sec = Finite 0, packets_recv_per_sec = Finite 0, out_errin = 0, out_errout = 0, out_dropin = 0, out_dropout = 0\<rparr>)],
        \<lparr>last_counters = Some [(''lo'', \<lparr>bytes_sent = 7, bytes_recv = 7, packets_sent = 2, packets_recv = 1, errin = 0, errout = 0, dropin = 0, dropout = 0\<rparr>), (''eth0'', \<lparr>bytes_sent = 100, bytes_recv = 200, packets_sent = 10, packets_recv = 1, errin = 0, errout = 0, dropin = 0, dropout = 0\<rparr>)],
         last_time = Some 10\<rparr>)"
  by (simp add: collect_eval)

end
